theory Spec2Isabelle
  imports Main "HOL-Library.Word"
begin

unbundle bit_operations_syntax

section \<open>The Iridium SBD driver: a shallow embedding\<close>

text \<open>
  The repository holds the driver twice: \<^verbatim>\<open>index.js\<close> and a copy in ES2015 style
  (arrow functions, template strings, \<^verbatim>\<open>df = null\<close> where \<^verbatim>\<open>index.js\<close> writes
  \<^verbatim>\<open>delete(df)\<close>). The definitions below follow the ES2015 copy line by line; where
  \<^verbatim>\<open>index.js\<close> behaves differently and a property depends on it, the \<^verbatim>\<open>index.js\<close>
  variant is a definition of its own, suffixed \<open>_index\<close>.

  Conventions of the embedding.
  \<^item> The object \<^verbatim>\<open>iridium\<close> and the variables \<^verbatim>\<open>df\<close>, \<^verbatim>\<open>er\<close>, \<^verbatim>\<open>kr\<close>, \<^verbatim>\<open>tf\<close> that
    its methods close over are one record, passed in and returned.
  \<^item> What the driver does to the outside is recorded in that record too: the writes to
    the serial port, the timers it sets, the events it emits, and every call of a
    callback.
  \<^item> Callbacks are data: one constructor for each function expression of the source
    that is passed as a callback, holding the variables it closes over. \<open>invoke\<close>
    runs the body.
  \<^item> An exception (calling \<^verbatim>\<open>undefined\<close>, reading an undeclared variable, a read
    past the end of a Buffer) is a value \<open>Inl error\<close>.
  \<^item> Text is \<^typ>\<open>string\<close>, one \<^typ>\<open>char\<close> for each character: the driver decodes
    serial input with the \<^verbatim>\<open>'binary'\<close> encoding, one character for each byte. The
    command that \<^verbatim>\<open>sendMessage\<close> makes of a Buffer is the one text that can hold a
    character above U+00FF, and is then a list of code points.
  \<^item> Numbers are \<^typ>\<open>int\<close> or \<^typ>\<open>nat\<close>: every number of the driver is a count, a
    byte sum or a status code, far below the range where a double stops being exact.
\<close>

subsection \<open>Buffers\<close>

type_synonym byte = "8 word"

text \<open>
  A byte of a Buffer made by \<^verbatim>\<open>Buffer.allocUnsafe\<close> holds whatever the memory held, until
  the program writes it: \<open>None\<close> stands for such a byte.
\<close>

type_synonym cell = "byte option"
type_synonym Buffer = "cell list"

text \<open>
  The exceptions of the source. \<open>Uninitialised\<close> is not one of them: it marks a run
  whose result would depend on a byte that \<^verbatim>\<open>allocUnsafe\<close> left unwritten.
\<close>

datatype error = TypeError | RangeError | ReferenceError | Uninitialised

definition allocUnsafe :: "nat \<Rightarrow> Buffer" where
  "allocUnsafe n = replicate n None"

text \<open>\<^verbatim>\<open>buf[i] = v\<close>: the value is stored modulo 256; an index past the end is ignored.\<close>

definition store :: "Buffer \<Rightarrow> nat \<Rightarrow> int \<Rightarrow> Buffer" where
  "store buf i v = buf[i := Some (word_of_int v)]"

text \<open>
  \<^verbatim>\<open>source.copy(target, targetStart, sourceStart, sourceEnd)\<close> of Node's Buffer: a
  RangeError when \<^verbatim>\<open>sourceStart\<close> is past the end of the source; otherwise the number of
  bytes copied is cut to what the source holds and to what fits in the target. The result
  is the target and that number. \<open>copy_bytes\<close> is the copy without the check, for the
  calls that leave \<^verbatim>\<open>sourceStart\<close> at 0.
\<close>

definition copy_bytes :: "Buffer \<Rightarrow> Buffer \<Rightarrow> nat \<Rightarrow> nat \<Rightarrow> nat \<Rightarrow> Buffer \<times> nat" where
  "copy_bytes source target targetStart sourceStart sourceEnd =
     (if targetStart \<ge> length target \<or> sourceStart \<ge> sourceEnd then (target, 0)
      else
        let nb = min (min (sourceEnd - sourceStart) (length target - targetStart))
                     (length source - sourceStart)
        in (take targetStart target @ take nb (drop sourceStart source)
              @ drop (targetStart + nb) target, nb))"

definition copy :: "Buffer \<Rightarrow> Buffer \<Rightarrow> nat \<Rightarrow> nat \<Rightarrow> nat \<Rightarrow> error + Buffer \<times> nat" where
  "copy source target targetStart sourceStart sourceEnd =
     (if sourceStart > length source then Inl RangeError
      else Inr (copy_bytes source target targetStart sourceStart sourceEnd))"

text \<open>\<^verbatim>\<open>buf.readUInt16BE(offset)\<close>: a RangeError when two bytes are not there.\<close>

definition readUInt16BE :: "Buffer \<Rightarrow> nat \<Rightarrow> error + nat" where
  "readUInt16BE buf offset =
     (if offset + 2 > length buf then Inl RangeError
      else case (buf ! offset, buf ! (offset + 1)) of
        (Some hi, Some lo) \<Rightarrow> Inr (unat hi * 256 + unat lo)
      | _ \<Rightarrow> Inl Uninitialised)"

subsection \<open>Text and patterns\<close>

definition CR :: char where "CR = CHR 0x0D"
definition LF :: char where "LF = CHR 0x0A"

definition starts_with :: "string \<Rightarrow> string \<Rightarrow> bool" where
  "starts_with p s = (take (length p) s = p)"

fun includes_text :: "string \<Rightarrow> string \<Rightarrow> bool" where
  "includes_text p [] = (p = [])"
| "includes_text p (c # cs) = (starts_with p (c # cs) \<or> includes_text p cs)"

text \<open>\<open>p\<close> somewhere in the text, followed by one character other than \<open>x\<close>.\<close>

fun includes_then_not :: "string \<Rightarrow> char \<Rightarrow> string \<Rightarrow> bool" where
  "includes_then_not p x [] = False"
| "includes_then_not p x (c # cs) =
     ((starts_with p (c # cs) \<and> (case drop (length p) (c # cs) of [] \<Rightarrow> False | d # _ \<Rightarrow> d \<noteq> x))
      \<or> includes_then_not p x cs)"

text \<open>
  The regular expressions of the driver, none with a flag (so \<^verbatim>\<open>test\<close> keeps no state):
  \<^verbatim>\<open>OK = /^OK\r/\<close>, \<^verbatim>\<open>ALL = /.*/\<close>, \<^verbatim>\<open>/ERROR/\<close>, \<^verbatim>\<open>/READY/\<close>, \<^verbatim>\<open>/\+CIEV:0,[^0]/\<close>,
  \<^verbatim>\<open>/\+SBDIX/\<close>, \<^verbatim>\<open>/^SBDRING/\<close> and \<^verbatim>\<open>/^\+AREG/\<close>.
\<close>

datatype regexp = OK_re | ALL_re | ERROR_re | READY_re | CIEV_re | SBDIX_re | SBDRING_re | AREG_re

fun test :: "regexp \<Rightarrow> string \<Rightarrow> bool" where
  "test OK_re s = starts_with (''OK'' @ [CR]) s"
| "test ALL_re s = True"
| "test ERROR_re s = includes_text ''ERROR'' s"
| "test READY_re s = includes_text ''READY'' s"
| "test CIEV_re s = includes_then_not ''+CIEV:0,'' (CHR ''0'') s"
| "test SBDIX_re s = includes_text ''+SBDIX'' s"
| "test SBDRING_re s = starts_with ''SBDRING'' s"
| "test AREG_re s = starts_with ''+AREG'' s"

definition is_digit :: "char \<Rightarrow> bool" where
  "is_digit c = (48 \<le> (of_char c :: nat) \<and> (of_char c :: nat) \<le> 57)"

text \<open>\<^verbatim>\<open>Number(s)\<close> for a string of decimal digits, as a capture of \<^verbatim>\<open>(\d+)\<close> is.\<close>

definition Number :: "string \<Rightarrow> nat" where
  "Number s = foldl (\<lambda>n c. 10 * n + (of_char c - 48)) 0 s"

text \<open>The decimal text of a number, as a template string prints it.\<close>

fun decimal :: "nat \<Rightarrow> string" where
  "decimal n =
     (if n < 10 then [char_of (48 + n)] else decimal (n div 10) @ [char_of (48 + n mod 10)])"

text \<open>
  \<^verbatim>\<open>n\<close> captures \<^verbatim>\<open>(\d+)\<close> separated by \<open>sep\<close>, from the head of the text. \<^verbatim>\<open>\d+\<close> is
  greedy and the separators start with a character that is no digit, so backtracking
  finds nothing that the longest run of digits does not.
\<close>

fun captures :: "nat \<Rightarrow> string \<Rightarrow> string \<Rightarrow> string list option" where
  "captures 0 sep s = Some []"
| "captures (Suc n) sep s =
     (let d = takeWhile is_digit s; rest = dropWhile is_digit s in
      if d = [] then None
      else if n = 0 then Some [d]
      else if starts_with sep rest
        then map_option (Cons d) (captures n sep (drop (length sep) rest))
        else None)"

text \<open>
  \<^verbatim>\<open>text.match(/\+SBDIX: (\d+), (\d+), (\d+), (\d+), (\d+), (\d+)/)\<close>: the six captures
  of the leftmost match, \<open>None\<close> for \<^verbatim>\<open>null\<close>.
\<close>

fun match_SBDIX :: "string \<Rightarrow> string list option" where
  "match_SBDIX [] = None"
| "match_SBDIX (c # cs) =
     (case (if starts_with ''+SBDIX: '' (c # cs)
            then captures 6 '', '' (drop 8 (c # cs)) else None) of
        Some m \<Rightarrow> Some m
      | None \<Rightarrow> match_SBDIX cs)"

text \<open>\<^verbatim>\<open>line.match(/^\+AREG:(\d+),(\d+)/)\<close>.\<close>

definition match_AREG :: "string \<Rightarrow> string list option" where
  "match_AREG s = (if starts_with ''+AREG:'' s then captures 2 '','' (drop 6 s) else None)"

text \<open>
  \<^verbatim>\<open>Buffer.from(s)\<close>: the UTF-8 bytes of a string whose characters are below 256.
\<close>

definition utf8 :: "string \<Rightarrow> byte list" where
  "utf8 s = concat (map (\<lambda>c. let n = (of_char c :: nat) in
     if n < 128 then [of_nat n] else [of_nat (192 + n div 64), of_nat (128 + n mod 64)]) s)"

text \<open>
  \<^verbatim>\<open>chunk.toString('binary')\<close>: one character for each byte.
\<close>

definition toString_binary :: "byte list \<Rightarrow> string" where
  "toString_binary chunk = map (\<lambda>b. char_of (unat b)) chunk"

text \<open>
  \<^verbatim>\<open>buf.toString()\<close>, which is what a template string makes of a Buffer: the bytes are
  decoded as UTF-8, and each maximal part that is not well-formed gives one replacement
  character U+FFFD. The result is the list of the code points of the string. While a
  sequence is open the decoder holds the number of bytes it still needs, the code point
  so far, and the bounds of the next byte.
\<close>

datatype utf8_state = Start | Needs nat nat nat nat

definition utf8_lead :: "nat \<Rightarrow> nat list \<times> utf8_state" where
  "utf8_lead b =
     (if b < 0x80 then ([b], Start)
      else if 0xC2 \<le> b \<and> b \<le> 0xDF then ([], Needs 1 (b - 0xC0) 0x80 0xBF)
      else if 0xE0 \<le> b \<and> b \<le> 0xEF
        then ([], Needs 2 (b - 0xE0) (if b = 0xE0 then 0xA0 else 0x80)
                    (if b = 0xED then 0x9F else 0xBF))
      else if 0xF0 \<le> b \<and> b \<le> 0xF4
        then ([], Needs 3 (b - 0xF0) (if b = 0xF0 then 0x90 else 0x80)
                    (if b = 0xF4 then 0x8F else 0xBF))
      else ([0xFFFD], Start))"

fun utf8_next :: "utf8_state \<Rightarrow> nat \<Rightarrow> nat list \<times> utf8_state" where
  "utf8_next Start b = utf8_lead b"
| "utf8_next (Needs n cp lo hi) b =
     (if lo \<le> b \<and> b \<le> hi
      then (if n = 1 then ([cp * 64 + (b - 0x80)], Start)
            else ([], Needs (n - 1) (cp * 64 + (b - 0x80)) 0x80 0xBF))
      else (0xFFFD # fst (utf8_lead b), snd (utf8_lead b)))"

fun utf8_decode :: "utf8_state \<Rightarrow> nat list \<Rightarrow> nat list" where
  "utf8_decode Start [] = []"
| "utf8_decode (Needs n cp lo hi) [] = [0xFFFD]"
| "utf8_decode st (b # bs) = fst (utf8_next st b) @ utf8_decode (snd (utf8_next st b)) bs"

definition toString_utf8 :: "byte list \<Rightarrow> nat list" where
  "toString_utf8 buf = utf8_decode Start (map unat buf)"

text \<open>\<^verbatim>\<open>s.split('\n')\<close>: never empty; the last part is what follows the last newline.\<close>

fun split_LF :: "string \<Rightarrow> string list" where
  "split_LF [] = [[]]"
| "split_LF (c # cs) =
     (if c = LF then [] # split_LF cs
      else (c # hd (split_LF cs)) # tl (split_LF cs))"

subsection \<open>The binary write frame\<close>

text \<open>\<^verbatim>\<open>ToInt32\<close>, applied by \<^verbatim>\<open>&\<close> and \<^verbatim>\<open>>>\<close> to their left operand.\<close>

definition ToInt32 :: "int \<Rightarrow> int" where
  "ToInt32 n = signed_take_bit 31 n"

text \<open>
  The loop of \<^verbatim>\<open>sendBinaryMessage\<close>:
  \<^verbatim>\<open>for (i = 0; i < buffer.length; i++) { ob[i] = buffer[i]; sum += buffer[i] }\<close>.
\<close>

function checksum_loop :: "byte list \<Rightarrow> nat \<Rightarrow> Buffer \<Rightarrow> int \<Rightarrow> Buffer \<times> int" where
  "checksum_loop buf i ob csum =
     (if i < length buf
      then checksum_loop buf (i + 1) (store ob i (uint (buf ! i))) (csum + uint (buf ! i))
      else (ob, csum))"
  by pat_completeness auto
termination
  by (relation "measure (\<lambda>(buf, i, ob, csum). length buf - i)") auto

text \<open>
  The buffer \<^verbatim>\<open>ob\<close> that \<^verbatim>\<open>sendBinaryMessage\<close> builds from the message bytes:
  \<^verbatim>\<open>ob[buffer.length + 1] = sum & 0xff; sum >>= 8; ob[buffer.length] = sum & 0xff\<close>
  after the loop.
\<close>

definition sendBinaryMessage_ob :: "byte list \<Rightarrow> Buffer" where
  "sendBinaryMessage_ob buf =
     (let ob = allocUnsafe (length buf + 2);
          (ob, csum) = checksum_loop buf 0 ob 0;
          ob = store ob (length buf + 1) (ToInt32 csum AND 255);
          csum = drop_bit 8 (ToInt32 csum);
          ob = store ob (length buf) (ToInt32 csum AND 255)
      in ob)"

subsection \<open>Values, callbacks and the driver's state\<close>

text \<open>The values that reach a callback as its error or its result.\<close>

datatype jsval =
    Undefined
  | Null
  | JFalse
  | JString string
  | JBuffer Buffer
  | JRegExp regexp
  | JObject string  \<comment> \<open>\<^verbatim>\<open>{ error: '...' }\<close>\<close>

fun truthy :: "jsval \<Rightarrow> bool" where
  "truthy Undefined = False"
| "truthy Null = False"
| "truthy JFalse = False"
| "truthy (JString s) = (s \<noteq> [])"
| "truthy (JBuffer b) = True"
| "truthy (JRegExp r) = True"
| "truthy (JObject e) = True"

text \<open>\<^verbatim>\<open>v == null\<close>.\<close>

fun nullish :: "jsval \<Rightarrow> bool" where
  "nullish Undefined = True"
| "nullish Null = True"
| "nullish v = False"

text \<open>
  A number that may have become a string: \<^verbatim>\<open>iridium.pending\<close> starts as \<^verbatim>\<open>0\<close> and
  \<^verbatim>\<open>readBinaryMessage\<close> assigns it \<^verbatim>\<open>mtqueued\<close>, a capture of \<^verbatim>\<open>(\d+)\<close>.
\<close>

datatype jsnum = Num int | Str string

text \<open>\<^verbatim>\<open>x += 1\<close>: addition on a number, concatenation on a string.\<close>

fun plus_assign_1 :: "jsnum \<Rightarrow> jsnum" where
  "plus_assign_1 (Num n) = Num (n + 1)"
| "plus_assign_1 (Str s) = Str (s @ ''1'')"

text \<open>\<^verbatim>\<open>x++\<close>: the operand is converted to a number first.\<close>

fun increment :: "jsnum \<Rightarrow> jsnum" where
  "increment (Num n) = Num (n + 1)"
| "increment (Str s) = Num (int (Number s) + 1)"

text \<open>\<^verbatim>\<open>x > 0\<close>.\<close>

fun positive :: "jsnum \<Rightarrow> bool" where
  "positive (Num n) = (n > 0)"
| "positive (Str s) = (Number s > 0)"

text \<open>A frame of the framer: a line of text, or the blob of a binary read.\<close>

datatype frame = Part string | Blob Buffer

fun frame_val :: "frame \<Rightarrow> jsval" where
  "frame_val (Part s) = JString s"
| "frame_val (Blob b) = JBuffer b"

text \<open>
  The text a pattern is tested on, \<^verbatim>\<open>String(data)\<close>. For a Buffer the model reads it one
  character for each byte, where Node decodes UTF-8: the two agree on ASCII, and every
  pattern of the driver is ASCII.
\<close>

fun String_of :: "frame \<Rightarrow> error + string" where
  "String_of (Part s) = Inr s"
| "String_of (Blob b) =
     (if None \<in> set b then Inl Uninitialised else Inr (map (\<lambda>c. char_of (unat (the c))) b))"

datatype payload = Text string | Binary "byte list"

fun payload_length :: "payload \<Rightarrow> nat" where
  "payload_length (Text s) = length s"
| "payload_length (Binary b) = length b"

text \<open>Truthiness of a message: the empty string is falsy, every Buffer is truthy.\<close>

fun payload_truthy :: "payload \<Rightarrow> bool" where
  "payload_truthy (Text s) = (s \<noteq> [])"
| "payload_truthy (Binary b) = True"

text \<open>\<^verbatim>\<open>Buffer.isBuffer(m) ? m : Buffer.from(m)\<close>.\<close>

fun payload_bytes :: "payload \<Rightarrow> byte list" where
  "payload_bytes (Text s) = utf8 s"
| "payload_bytes (Binary b) = b"

text \<open>
  The message inside a template string, as the code points of the string: a string is
  itself, a Buffer is decoded as UTF-8.
\<close>

fun payload_text :: "payload \<Rightarrow> nat list" where
  "payload_text (Text s) = map of_char s"
| "payload_text (Binary b) = toString_utf8 b"

text \<open>
  The object \<^verbatim>\<open>state\<close> of one send. A field that was never assigned is \<open>None\<close>
  (\<open>False\<close> for \<^verbatim>\<open>binaryMessage\<close>, which is only read for its truthiness).
\<close>

record session =
  message :: payload
  binaryMessage :: bool
  failCount :: "nat option"
  maxTries :: "nat option"
  maxWait :: "int option"

text \<open>
  What \<^verbatim>\<open>AT\<close> writes: a command text, or a Buffer as it is. A \<open>string\<close> holds the
  texts whose characters are at most U+00FF. The one text of the driver that may hold
  others is the command that \<^verbatim>\<open>sendMessage\<close> makes of a Buffer, whose decoding can
  give any code point: such a text is \<open>Cmd_points\<close>, the list of its code points.
\<close>

datatype command = Cmd string | Raw Buffer | Cmd_points "nat list"

text \<open>
  A template string \<^verbatim>\<open>`prefix${x}`\<close>, given the code points of \<^verbatim>\<open>String(x)\<close>.
\<close>

definition template :: "string \<Rightarrow> nat list \<Rightarrow> command" where
  "template prefix points =
     (if list_all (\<lambda>c. c < 256) points then Cmd (prefix @ map char_of points)
      else Cmd_points (map of_char prefix @ points))"

datatype callback =
    Absent
      \<comment> \<open>no function was passed: \<^verbatim>\<open>undefined\<close>\<close>
  | Caller nat
      \<comment> \<open>a function of the library's user, by identity\<close>
  | MailboxSent payload callback
      \<comment> \<open>\<^verbatim>\<open>mailboxSend\<close>: \<^verbatim>\<open>(err, momsn) => ...\<close>\<close>
  | Abort callback jsval
      \<comment> \<open>\<^verbatim>\<open>() => { callback(err) }\<close>\<close>
  | BinaryReady session callback Buffer
      \<comment> \<open>\<^verbatim>\<open>sendBinaryMessage\<close>: after \<^verbatim>\<open>AT+SBDWB\<close>\<close>
  | BinaryWritten session callback
      \<comment> \<open>\<^verbatim>\<open>sendBinaryMessage\<close>: after the frame was written\<close>
  | TextWritten session callback "int option"
      \<comment> \<open>\<^verbatim>\<open>sendMessage\<close>: after the write command\<close>
  | NetworkUp session callback
      \<comment> \<open>the callback of \<^verbatim>\<open>waitForNetwork\<close>, in both send functions\<close>
  | MonitoringOff session callback
      \<comment> \<open>\<^verbatim>\<open>() => { iridium.initiateSession(state, callback) }\<close>\<close>
  | SessionStatus session callback
      \<comment> \<open>\<^verbatim>\<open>initiateSession\<close>: \<^verbatim>\<open>(err, text) => ...\<close>\<close>
  | Retry session callback nat string
      \<comment> \<open>the callback of \<^verbatim>\<open>clearMOBuffers\<close> in the three failure branches, with
          \<^verbatim>\<open>maxTries\<close> and the failure's name\<close>
  | Finish callback jsval
      \<comment> \<open>\<^verbatim>\<open>(err) => { callback(err, momsn) }\<close>\<close>
  | MtRead string callback
      \<comment> \<open>\<^verbatim>\<open>readBinaryMessage\<close>: \<^verbatim>\<open>(err, buffer) => ...\<close>, with \<^verbatim>\<open>mtqueued\<close>\<close>
  | MtDone callback jsval
      \<comment> \<open>\<^verbatim>\<open>() => { iridium.clearMOBuffers((err) => { callback(err, momsn) }) }\<close>\<close>

text \<open>The functions handed to \<^verbatim>\<open>setTimeout\<close>.\<close>

datatype timer =
    CommandTimeout command
      \<comment> \<open>\<^verbatim>\<open>AT\<close>: logs, and nothing else\<close>
  | CommandTimeout_index command callback
      \<comment> \<open>\<^verbatim>\<open>AT\<close> of \<^verbatim>\<open>index.js\<close>: logs, then \<^verbatim>\<open>datafunction()\<close>\<close>
  | FollowUpCheck
      \<comment> \<open>\<^verbatim>\<open>mailboxSend\<close>: \<^verbatim>\<open>() => { iridium.sendMessage({ message: '' }) }\<close>\<close>
  | RetrySend payload callback
      \<comment> \<open>\<^verbatim>\<open>mailboxSend\<close>: \<^verbatim>\<open>() => { iridium.mailboxSend(buffer, callback) }\<close>\<close>
  | BinaryWindow nat
      \<comment> \<open>\<^verbatim>\<open>enableBinaryMode\<close>: \<^verbatim>\<open>resolve\<close> of the promise with this number\<close>

text \<open>
  The messages given to \<^verbatim>\<open>iridium.log\<close>, one constructor for each message text of
  the functions modelled, with the values it prints.
\<close>

datatype logmsg =
    Sent command
  | Received frame
  | TimeoutEvent command
  | RegistrationResult string string
  | BinaryMessageSent jsval
  | WillRetry jsval
  | MaxAttemptsReached
  | TextCompressed nat nat
  | ReceivedMessage Buffer
  | MOTransferred
  | MOFailedRadio
  | MOFailedNetwork
  | MOFailed string
  | RetryMessage nat nat
  | StillWaiting string
  | NoMTPending
  | MTTransferred
  | MTStatusError string
  | ErrorParsingSBDIX

datatype event = Ringalert | Newmessage Buffer string | Debug logmsg

text \<open>
  What is written to the serial port: a text (by its code points, when some are above
  U+00FF), or a Buffer.
\<close>

datatype wire = Line string | Bytes Buffer | Line_points "nat list"

text \<open>
  What \<^verbatim>\<open>this\<close> is inside the transform function of \<^verbatim>\<open>readSBD\<close>: the stream, when
  the function is a \<^verbatim>\<open>function\<close> expression (\<^verbatim>\<open>index.js\<close>); the \<^verbatim>\<open>this\<close> of the
  enclosing \<^verbatim>\<open>createIridium\<close>, which has no \<^verbatim>\<open>push\<close>, when it is an arrow function
  (the ES2015 copy).
\<close>

datatype receiver = Stream | Enclosing

record Binary_state =
  mode :: bool
  binary_buffer :: Buffer
  bufferCounter :: nat
  waiting :: bool
  binary_timeout :: "nat option"  \<comment> \<open>the promise, by number; \<open>None\<close> before \<^verbatim>\<open>enableBinaryMode\<close>\<close>

record Globals =
  debug :: bool
  defaultTimeout :: int
  simpleTimeout :: int
  timeoutForever :: int
  maxAttempts :: int
  globals_maxWait :: "int option"  \<comment> \<open>\<^verbatim>\<open>iridium.globals.maxWait\<close>, not among the defaults\<close>

record iridium =
  buffer :: string
  data :: string
  messagePending :: nat
  binary :: Binary_state
  lock :: nat
  pending :: jsnum
  c_attempt :: "int option"  \<comment> \<open>\<open>None\<close>: \<^verbatim>\<open>undefined\<close> or \<^verbatim>\<open>NaN\<close>\<close>
  globals :: Globals
  df :: "callback option"  \<comment> \<open>the \<^verbatim>\<open>datafunction\<close> that \<^verbatim>\<open>df\<close> wraps\<close>
  er :: "regexp option"
  kr :: "regexp option"
  tf :: "nat option"
  serial :: "wire list"  \<comment> \<open>the calls of \<^verbatim>\<open>_serialPort.write\<close>, oldest first\<close>
  timers :: "(nat \<times> int \<times> timer) list"  \<comment> \<open>timers set and not fired or cleared: handle, delay, function\<close>
  handles :: nat  \<comment> \<open>the next timer handle\<close>
  resolved :: "nat list"  \<comment> \<open>the promises already resolved\<close>
  thens :: "(nat \<times> receiver) list"  \<comment> \<open>the flush functions attached to a promise by \<^verbatim>\<open>then\<close>\<close>
  emitted :: "event list"  \<comment> \<open>the calls of \<^verbatim>\<open>iridiumEvents.emit\<close>, oldest first\<close>
  invoked :: "(callback \<times> jsval \<times> jsval) list"  \<comment> \<open>every call of a callback, oldest first\<close>

text \<open>The object as \<^verbatim>\<open>createIridium\<close> returns it.\<close>

definition createIridium :: iridium where
  "createIridium =
     \<lparr> buffer = [], data = [], messagePending = 0,
       binary = \<lparr> mode = False, binary_buffer = allocUnsafe 512, bufferCounter = 0,
                  waiting = False, binary_timeout = None \<rparr>,
       lock = 0, pending = Num 0, c_attempt = None,
       globals = \<lparr> debug = False, defaultTimeout = 60000, simpleTimeout = 2000,
                   timeoutForever = - 1, maxAttempts = 10, globals_maxWait = None \<rparr>,
       df = None, er = None, kr = None, tf = None,
       serial = [], timers = [], handles = 0, resolved = [], thens = [],
       emitted = [], invoked = [] \<rparr>"

subsection \<open>Logging, timers, the serial port\<close>

text \<open>\<^verbatim>\<open>iridium.log\<close>: a \<^verbatim>\<open>debug\<close> event when the debug option is set, nothing otherwise.\<close>

definition log :: "logmsg \<Rightarrow> iridium \<Rightarrow> iridium" where
  "log m s = (if debug (globals s) then s\<lparr>emitted := emitted s @ [Debug m]\<rparr> else s)"

definition emit :: "event \<Rightarrow> iridium \<Rightarrow> iridium" where
  "emit e s = s\<lparr>emitted := emitted s @ [e]\<rparr>"

text \<open>\<^verbatim>\<open>setTimeout(f, delay)\<close>: the handle is \<open>handles s\<close>.\<close>

definition setTimeout :: "timer \<Rightarrow> int \<Rightarrow> iridium \<Rightarrow> iridium" where
  "setTimeout f delay s =
     s\<lparr>timers := timers s @ [(handles s, delay, f)], handles := handles s + 1\<rparr>"

definition clearTimeout :: "nat \<Rightarrow> iridium \<Rightarrow> iridium" where
  "clearTimeout h s = s\<lparr>timers := filter (\<lambda>t. fst t \<noteq> h) (timers s)\<rparr>"

definition serial_write :: "wire \<Rightarrow> iridium \<Rightarrow> iridium" where
  "serial_write w s = s\<lparr>serial := serial s @ [w]\<rparr>"

subsection \<open>The command engine: \<^verbatim>\<open>AT\<close>\<close>

text \<open>
  \<^verbatim>\<open>if (tf) clearTimeout(tf); tf = null\<close>, at the head of \<^verbatim>\<open>AT\<close> and of \<^verbatim>\<open>df\<close>.
\<close>

definition clear_tf :: "iridium \<Rightarrow> iridium" where
  "clear_tf s = (case tf s of Some h \<Rightarrow> clearTimeout h s | None \<Rightarrow> s)\<lparr>tf := None\<rparr>"

text \<open>
  \<^verbatim>\<open>AT(command, endregexp, keepregexp, datafunction, timeout)\<close>. A regular expression
  argument \<^verbatim>\<open>false\<close> is \<open>None\<close>; a timeout left out is \<open>None\<close>, and
  \<^verbatim>\<open>if (!timeout) timeout = iridium.globals.defaultTimeout\<close> is \<open>effective_timeout\<close>. The
  first argument here is the function that the timer gets, in which alone the two copies
  of the driver differ.
\<close>

definition effective_timeout :: "int option \<Rightarrow> iridium \<Rightarrow> int" where
  "effective_timeout timeout s =
     (case timeout of
        None \<Rightarrow> defaultTimeout (globals s)
      | Some t \<Rightarrow> if t = 0 then defaultTimeout (globals s) else t)"

definition AT_with :: "timer \<Rightarrow> command \<Rightarrow> regexp option \<Rightarrow> regexp option \<Rightarrow> callback
    \<Rightarrow> int option \<Rightarrow> iridium \<Rightarrow> iridium" where
  "AT_with on_timeout command endregexp keepregexp datafunction timeout s =
     (let s = s\<lparr>er := endregexp, kr := keepregexp\<rparr>;
          s = clear_tf s;
          s = s\<lparr>df := Some datafunction\<rparr>;
          timeout = effective_timeout timeout s;
          s = (if timeout > 0
               then (setTimeout on_timeout timeout s)\<lparr>tf := Some (handles s)\<rparr>
               else s)
      in case command of
           Raw ob \<Rightarrow> serial_write (Bytes ob) (log (Sent command) s)
         | Cmd c \<Rightarrow> serial_write (Line (c @ [CR])) (log (Sent command) s)
         | Cmd_points c \<Rightarrow> serial_write (Line_points (c @ [13])) (log (Sent command) s))"

definition AT :: "command \<Rightarrow> regexp option \<Rightarrow> regexp option \<Rightarrow> callback
    \<Rightarrow> int option \<Rightarrow> iridium \<Rightarrow> iridium" where
  "AT command endregexp keepregexp datafunction timeout s =
     AT_with (CommandTimeout command) command endregexp keepregexp datafunction timeout s"

definition AT_index :: "command \<Rightarrow> regexp option \<Rightarrow> regexp option \<Rightarrow> callback
    \<Rightarrow> int option \<Rightarrow> iridium \<Rightarrow> iridium" where
  "AT_index command endregexp keepregexp datafunction timeout s =
     AT_with (CommandTimeout_index command datafunction) command endregexp keepregexp
       datafunction timeout s"

definition ATS :: "command \<Rightarrow> regexp option \<Rightarrow> regexp option \<Rightarrow> callback
    \<Rightarrow> int option \<Rightarrow> iridium \<Rightarrow> iridium" where
  "ATS command endregexp keepregexp callback timeout s =
     AT command endregexp keepregexp callback timeout s"

text \<open>
  \<^verbatim>\<open>waitForNetwork(callback, maxWait)\<close> reads \<^verbatim>\<open>iridium.globals.maxWait\<close>, not its second
  argument.
\<close>

definition waitForNetwork :: "callback \<Rightarrow> int option \<Rightarrow> iridium \<Rightarrow> iridium" where
  "waitForNetwork callback maxWait' s =
     ATS (Cmd ''AT+CIER=1,1,0,0'') (Some CIEV_re) (Some ALL_re) callback
       (case globals_maxWait (globals s) of
          None \<Rightarrow> Some (timeoutForever (globals s))
        | Some w \<Rightarrow> if w = 0 then Some (timeoutForever (globals s)) else Some w) s"

definition disableSignalMonitoring :: "callback \<Rightarrow> iridium \<Rightarrow> iridium" where
  "disableSignalMonitoring callback s =
     ATS (Cmd ''AT+CIER=0,0,0,0'') (Some OK_re) (Some ALL_re) callback
       (Some (simpleTimeout (globals s))) s"

definition clearMOBuffers :: "callback \<Rightarrow> iridium \<Rightarrow> iridium" where
  "clearMOBuffers callback s =
     ATS (Cmd ''AT+SBDD0'') (Some OK_re) (Some ALL_re) callback
       (Some (simpleTimeout (globals s))) s"

definition clearMTBuffers :: "callback \<Rightarrow> iridium \<Rightarrow> iridium" where
  "clearMTBuffers callback s =
     ATS (Cmd ''AT+SBDD1'') (Some OK_re) (Some ALL_re) callback
       (Some (simpleTimeout (globals s))) s"

subsection \<open>Binary mode and the binary read\<close>

text \<open>
  \<^verbatim>\<open>enableBinaryMode(bufferTimeout)\<close>. The promise is numbered by the handle of the timer
  that resolves it.
\<close>

definition enableBinaryMode :: "int \<Rightarrow> iridium \<Rightarrow> iridium" where
  "enableBinaryMode bufferTimeout s =
     (let s = s\<lparr>binary := (binary s)\<lparr>mode := True, waiting := True\<rparr>\<rparr>;
          p = handles s;
          s = setTimeout (BinaryWindow p) bufferTimeout s
      in s\<lparr>binary := (binary s)\<lparr>binary_timeout := Some p\<rparr>\<rparr>)"

definition readBinaryMessage :: "string \<Rightarrow> callback \<Rightarrow> iridium \<Rightarrow> iridium" where
  "readBinaryMessage mtqueued callback s =
     AT (Cmd ''AT+SBDRB'') None None (MtRead mtqueued callback)
       (Some (simpleTimeout (globals s))) (enableBinaryMode 1000 s)"

text \<open>
  The decoding inside the callback of \<^verbatim>\<open>readBinaryMessage\<close>:
  \<^verbatim>\<open>messageLength = ib.readUInt16BE(0); messageBuffer = Buffer.allocUnsafe(messageLength);
  ib.copy(messageBuffer, 0, 2, messageLength + 2)\<close>.
\<close>

definition readBinaryMessage_decode :: "Buffer \<Rightarrow> error + Buffer" where
  "readBinaryMessage_decode ib =
     (case readUInt16BE ib 0 of
        Inl e \<Rightarrow> Inl e
      | Inr messageLength \<Rightarrow>
          (case copy ib (allocUnsafe messageLength) 0 2 (messageLength + 2) of
             Inl e \<Rightarrow> Inl e
           | Inr (messageBuffer, n) \<Rightarrow> Inr messageBuffer))"

subsection \<open>Sending\<close>

text \<open>\<^verbatim>\<open>if (maxWait) state.maxWait = maxWait\<close>.\<close>

definition set_maxWait :: "int option \<Rightarrow> session \<Rightarrow> session" where
  "set_maxWait w st = (case w of None \<Rightarrow> st | Some n \<Rightarrow> if n = 0 then st else st\<lparr>maxWait := Some n\<rparr>)"

definition sendMessage :: "session \<Rightarrow> callback \<Rightarrow> int option \<Rightarrow> iridium \<Rightarrow> iridium" where
  "sendMessage state callback maxWait' s =
     (let state = set_maxWait maxWait' state;
          command = (if payload_truthy (message state)
                     then template ''AT+SBDWT='' (payload_text (message state))
                     else Cmd ''AT+SBDD0'')
      in AT command (Some OK_re) (Some ALL_re) (TextWritten state callback maxWait') None s)"

definition sendBinaryMessage :: "session \<Rightarrow> callback \<Rightarrow> int option \<Rightarrow> iridium \<Rightarrow> iridium" where
  "sendBinaryMessage state callback maxWait' s =
     (let state = set_maxWait maxWait' state;
          state = state\<lparr>binaryMessage := True\<rparr>
      in if payload_length (message state) = 0 then sendMessage state callback maxWait' s
         else
           let buf = payload_bytes (message state);
               command = ''AT+SBDWB='' @ decimal (length buf);
               ob = sendBinaryMessage_ob buf
           in AT (Cmd command) (Some READY_re) (Some ALL_re) (BinaryReady state callback ob) None s)"

definition initiateSession :: "session \<Rightarrow> callback \<Rightarrow> iridium \<Rightarrow> iridium" where
  "initiateSession state callback s =
     (let state = (case failCount state of
                     None \<Rightarrow> state\<lparr>failCount := Some 0\<rparr>
                   | Some n \<Rightarrow> if n = 0 then state\<lparr>failCount := Some 0\<rparr> else state)
      in AT (Cmd ''AT+SBDIX'') (Some OK_re) (Some SBDIX_re) (SessionStatus state callback) None s)"

definition finishSession :: "callback \<Rightarrow> jsval \<Rightarrow> iridium \<Rightarrow> iridium" where
  "finishSession callback momsn s = clearMOBuffers (Finish callback momsn) s"

text \<open>
  The three failure branches of \<^verbatim>\<open>initiateSession\<close> are the same text but for the log
  message and the name given to the callback: inside the callback of \<^verbatim>\<open>clearMOBuffers\<close>,
  \<^verbatim>\<open>if (state.failCount < maxTries) { state.failCount++; ...; iridium[state.binaryMessage ?
  'sendBinaryMessage' : 'sendMessage'](state, callback, state.maxWait) } else callback(name)\<close>.
  This is the resubmission.
\<close>

definition resubmit :: "session \<Rightarrow> callback \<Rightarrow> iridium \<Rightarrow> iridium" where
  "resubmit state callback s =
     (if binaryMessage state then sendBinaryMessage state callback (maxWait state) s
      else sendMessage state callback (maxWait state) s)"

subsection \<open>The callbacks\<close>

text \<open>
  A run that ends in an exception is \<open>Inl (e, s)\<close>, with the state \<open>s\<close> reached when it
  was thrown.
\<close>

type_synonym 'a outcome = "(error \<times> iridium) + 'a"

definition called :: "callback \<Rightarrow> jsval \<Rightarrow> jsval \<Rightarrow> iridium \<Rightarrow> iridium" where
  "called k a b s = s\<lparr>invoked := invoked s @ [(k, a, b)]\<rparr>"

text \<open>\<^verbatim>\<open>state.maxTries || 3\<close>.\<close>

definition maxTries_or_3 :: "session \<Rightarrow> nat" where
  "maxTries_or_3 state = (case maxTries state of None \<Rightarrow> 3 | Some n \<Rightarrow> if n = 0 then 3 else n)"

text \<open>
  \<open>invoke k a b s\<close> calls the callback \<open>k\<close> with the arguments \<open>a\<close> and \<open>b\<close>
  (\<open>Undefined\<close> for an argument left out). In the callback of \<^verbatim>\<open>initiateSession\<close> the
  captures \<^verbatim>\<open>m[1]\<close> to \<^verbatim>\<open>m[6]\<close> are \<open>m ! 0\<close> to \<open>m ! 5\<close>. Its last branch,
  \<^verbatim>\<open>else { iridium.log('Error parsing SBDIX!'); iridium.finishSession(callback, momsn) }\<close>,
  reads \<^verbatim>\<open>momsn\<close>, which is a \<^verbatim>\<open>const\<close> of the block of the \<^verbatim>\<open>if\<close> and is declared nowhere
  else: evaluating the argument throws a ReferenceError before \<^verbatim>\<open>finishSession\<close> is called.
\<close>

fun invoke :: "callback \<Rightarrow> jsval \<Rightarrow> jsval \<Rightarrow> iridium \<Rightarrow> iridium outcome" where
  "invoke Absent a b s = Inl (TypeError, s)"
| "invoke (Caller c) a b s = Inr (called (Caller c) a b s)"
| "invoke (MailboxSent buf callback) err momsn s =
     (let s = called (MailboxSent buf callback) err momsn s in
      if nullish err then
        let s = (if payload_truthy buf then log (BinaryMessageSent momsn) s else s);
            s = (if positive (pending s) then setTimeout FollowUpCheck 1000 s else s\<lparr>lock := 0\<rparr>)
        in invoke callback JFalse momsn s
      else Inr (setTimeout (RetrySend buf callback) 20000 (log (WillRetry err) s)))"
| "invoke (Abort callback err) a b s =
     invoke callback err Undefined (called (Abort callback err) a b s)"
| "invoke (BinaryReady state callback ob) err b s =
     (let s = called (BinaryReady state callback ob) err b s in
      if truthy err then Inr (clearMOBuffers (Abort callback err) (s\<lparr>messagePending := 0\<rparr>))
      else Inr (ATS (Raw ob) (Some OK_re) (Some ALL_re) (BinaryWritten state callback) None s))"
| "invoke (BinaryWritten state callback) berr b s =
     (let s = called (BinaryWritten state callback) berr b s in
      if truthy berr then Inr (clearMOBuffers (Abort callback berr) (s\<lparr>messagePending := 0\<rparr>))
      else Inr (waitForNetwork (NetworkUp state callback) (globals_maxWait (globals s))
                  (s\<lparr>messagePending := 1\<rparr>)))"
| "invoke (TextWritten state callback maxWait') err b s =
     (let s = called (TextWritten state callback maxWait') err b s in
      if truthy err then Inr (clearMOBuffers (Abort callback err) (s\<lparr>messagePending := 0\<rparr>))
      else Inr (waitForNetwork (NetworkUp state callback) maxWait' (s\<lparr>messagePending := 1\<rparr>)))"
| "invoke (NetworkUp state callback) xerr b s =
     (let s = called (NetworkUp state callback) xerr b s in
      if truthy xerr then Inr (clearMOBuffers (Abort callback xerr) (s\<lparr>messagePending := 0\<rparr>))
      else Inr (disableSignalMonitoring (MonitoringOff state callback) (s\<lparr>messagePending := 2\<rparr>)))"
| "invoke (MonitoringOff state callback) a b s =
     Inr (initiateSession state callback (called (MonitoringOff state callback) a b s))"
| "invoke (SessionStatus state callback) err text s =
     (let s = called (SessionStatus state callback) err text s in
      if truthy err then Inr (clearMOBuffers (Abort callback err) (s\<lparr>messagePending := 1\<rparr>))
      else case text of
        JString t \<Rightarrow>
          (case match_SBDIX t of
             Some m \<Rightarrow>
               let status = m ! 0; momsn = m ! 1; mtstatus = m ! 2; mtqueued = m ! 5;
                   maxTries' = maxTries_or_3 state
               in
               if Number status \<le> 4 then
                 let s = (log MOTransferred s)\<lparr>messagePending := 0\<rparr>;
                     s = (if Number mtqueued > 0 then log (StillWaiting mtqueued) s else s)
                 in
                 if Number mtstatus = 0
                   then Inr (finishSession callback (JString momsn) (log NoMTPending s))
                 else if Number mtstatus = 1
                   then Inr (readBinaryMessage mtqueued (MtDone callback (JString momsn))
                               (log MTTransferred s))
                 else Inr (finishSession callback (JString momsn) (log (MTStatusError mtstatus) s))
               else if Number status = 18 then
                 Inr (clearMOBuffers (Retry state callback maxTries' ''radio failure'')
                        ((log MOFailedRadio s)\<lparr>messagePending := 1\<rparr>))
               else if Number status = 32 then
                 Inr (clearMOBuffers (Retry state callback maxTries' ''network failure'')
                        ((log MOFailedNetwork s)\<lparr>messagePending := 1\<rparr>))
               else
                 Inr (clearMOBuffers (Retry state callback maxTries' ''unknown failure'')
                        ((log (MOFailed status) s)\<lparr>messagePending := 1\<rparr>))
           | None \<Rightarrow> Inl (ReferenceError, log ErrorParsingSBDIX s))
      | _ \<Rightarrow> Inl (TypeError, s))"
| "invoke (Retry state callback maxTries' name) a b s =
     (let s = called (Retry state callback maxTries' name) a b s in
      case failCount state of
        Some n \<Rightarrow>
          if n < maxTries'
          then Inr (resubmit (state\<lparr>failCount := Some (n + 1)\<rparr>) callback
                      (log (RetryMessage (n + 1) maxTries') s))
          else invoke callback (JString name) Undefined s
      | None \<Rightarrow> invoke callback (JString name) Undefined s)"
| "invoke (Finish callback momsn) err b s =
     invoke callback err momsn (called (Finish callback momsn) err b s)"
| "invoke (MtRead mtqueued callback) err buf s =
     (let s = called (MtRead mtqueued callback) err buf s in
      if truthy err then Inr (clearMTBuffers (Abort callback err) s)
      else case buf of
        JBuffer ib \<Rightarrow>
          (case readBinaryMessage_decode ib of
             Inl e \<Rightarrow> Inl (e, s)
           | Inr messageBuffer \<Rightarrow>
               let s = log (ReceivedMessage messageBuffer) s;
                   s = s\<lparr>binary := (binary s)\<lparr>mode := False\<rparr>, pending := Str mtqueued\<rparr>;
                   s = emit (Newmessage messageBuffer mtqueued) s
               in Inr (clearMTBuffers callback s))
      | _ \<Rightarrow> Inl (TypeError, s))"
| "invoke (MtDone callback momsn) a b s =
     Inr (clearMOBuffers (Finish callback momsn) (called (MtDone callback momsn) a b s))"

text \<open>
  The function \<^verbatim>\<open>df\<close> that \<^verbatim>\<open>AT\<close> installs:
  \<^verbatim>\<open>function (err, text) { if (tf) clearTimeout(tf); tf = null; datafunction(err, text) }\<close>.
\<close>

definition call_df :: "callback \<Rightarrow> jsval \<Rightarrow> jsval \<Rightarrow> iridium \<Rightarrow> iridium outcome" where
  "call_df datafunction err text s = invoke datafunction err text (clear_tf s)"

subsection \<open>The mailbox\<close>

text \<open>A state object written as \<^verbatim>\<open>{ message: m }\<close>.\<close>

definition new_state :: "payload \<Rightarrow> session" where
  "new_state m =
     \<lparr> message = m, binaryMessage = False, failCount = None, maxTries = None, maxWait = None \<rparr>"

definition mailboxCheck :: "iridium \<Rightarrow> iridium" where
  "mailboxCheck s =
     (if lock s \<noteq> 0 then s\<lparr>pending := plus_assign_1 (pending s)\<rparr>
      else sendMessage (new_state (Text [])) Absent None s)"

text \<open>\<^verbatim>\<open>index.js\<close> writes \<^verbatim>\<open>iridium.pending++\<close> where the ES2015 copy has \<^verbatim>\<open>+= 1\<close>.\<close>

definition mailboxCheck_index :: "iridium \<Rightarrow> iridium" where
  "mailboxCheck_index s =
     (if lock s \<noteq> 0 then s\<lparr>pending := increment (pending s)\<rparr>
      else sendMessage (new_state (Text [])) Absent None s)"

definition mailboxSend :: "payload \<Rightarrow> callback \<Rightarrow> iridium \<Rightarrow> iridium outcome" where
  "mailboxSend buf callback s =
     (let s = s\<lparr>c_attempt := map_option (\<lambda>n. n + 1) (c_attempt s)\<rparr> in
      if (case c_attempt s of Some n \<Rightarrow> n \<le> maxAttempts (globals s) | None \<Rightarrow> False)
      then Inr (sendBinaryMessage (new_state buf) (MailboxSent buf callback) None (s\<lparr>lock := 1\<rparr>))
      else invoke callback
             (JObject ''Failed to send. The maxAttempts of send requests has been reached.'')
             Undefined (log MaxAttemptsReached s))"

text \<open>
  \<^verbatim>\<open>sendCompressedMessage(text, callback)\<close> hands the text to \<^verbatim>\<open>zlib.deflateRaw\<close>, which is
  not code of the driver: \<open>err\<close> and \<open>deflated\<close> are what \<^verbatim>\<open>zlib\<close> passes to the function
  it is given, and the rest is that function.
\<close>

definition sendCompressedMessage :: "string \<Rightarrow> callback \<Rightarrow> jsval \<Rightarrow> byte list \<Rightarrow> iridium
    \<Rightarrow> iridium outcome" where
  "sendCompressedMessage text callback err deflated s =
     (if \<not> truthy err
      then mailboxSend (Binary deflated) callback
             ((log (TextCompressed (length text) (length deflated)) s)\<lparr>c_attempt := Some 0\<rparr>)
      else Inr s)"


subsection \<open>The framer: \<^verbatim>\<open>readSBD\<close>\<close>

text \<open>\<^verbatim>\<open>this.push(x)\<close>: only a stream has \<^verbatim>\<open>push\<close>.\<close>

fun push_all :: "receiver \<Rightarrow> frame list \<Rightarrow> iridium \<Rightarrow> (iridium \<times> frame list) outcome" where
  "push_all this [] s = Inr (s, [])"
| "push_all Stream fs s = Inr (s, fs)"
| "push_all Enclosing (f # fs) s = Inl (TypeError, s)"

text \<open>
  The function given to \<^verbatim>\<open>iridium.binary.timeout.then\<close>: the bytes counted so far leave
  as one frame.
\<close>

definition flush_data :: "iridium \<Rightarrow> Buffer" where
  "flush_data s =
     fst (copy_bytes (binary_buffer (binary s)) (allocUnsafe (bufferCounter (binary s))) 0 0
            (length (binary_buffer (binary s))))"

definition flush :: "receiver \<Rightarrow> iridium \<Rightarrow> (iridium \<times> frame list) outcome" where
  "flush this s =
     (case push_all this [Blob (flush_data s)] s of
        Inl e \<Rightarrow> Inl e
      | Inr (s, out) \<Rightarrow> Inr (s\<lparr>binary := (binary s)\<lparr>bufferCounter := 0, mode := False\<rparr>\<rparr>, out))"

text \<open>
  One chunk through the transform. A \<^verbatim>\<open>then\<close> on a promise that is already resolved
  runs its function as soon as the transform has returned.
\<close>

definition readSBD_with :: "receiver \<Rightarrow> byte list \<Rightarrow> iridium \<Rightarrow> (iridium \<times> frame list) outcome" where
  "readSBD_with this chunk s =
     (if mode (binary s) then
        let attach = waiting (binary s);
            s = (if attach then s\<lparr>binary := (binary s)\<lparr>waiting := False\<rparr>\<rparr> else s)
        in
        if attach \<and> binary_timeout (binary s) = None then Inl (TypeError, s)
        else
          let s = (if attach then s\<lparr>thens := thens s @ [(the (binary_timeout (binary s)), this)]\<rparr>
                   else s);
              (b, n) = copy_bytes (map Some chunk) (binary_buffer (binary s))
                         (bufferCounter (binary s)) 0 (length chunk);
              s = s\<lparr>binary := (binary s)\<lparr>binary_buffer := b,
                                               bufferCounter := bufferCounter (binary s) + n\<rparr>\<rparr>
          in
          if attach \<and> the (binary_timeout (binary s)) \<in> set (resolved s)
          then flush this s else Inr (s, [])
      else
        let parts = split_LF (data s @ toString_binary chunk);
            s = s\<lparr>data := last parts\<rparr>
        in push_all this (map Part (butlast parts)) s)"

text \<open>The ES2015 copy passes an arrow function to \<^verbatim>\<open>through2.obj\<close>; \<^verbatim>\<open>index.js\<close> a \<^verbatim>\<open>function\<close>.\<close>

definition readSBD :: "byte list \<Rightarrow> iridium \<Rightarrow> (iridium \<times> frame list) outcome" where
  "readSBD chunk s = readSBD_with Enclosing chunk s"

definition readSBD_index :: "byte list \<Rightarrow> iridium \<Rightarrow> (iridium \<times> frame list) outcome" where
  "readSBD_index chunk s = readSBD_with Stream chunk s"

text \<open>A sequence of chunks, one after the other; the frames in the order they leave.\<close>

fun feed :: "receiver \<Rightarrow> byte list list \<Rightarrow> iridium \<Rightarrow> (iridium \<times> frame list) outcome" where
  "feed this [] s = Inr (s, [])"
| "feed this (chunk # chunks) s =
     (case readSBD_with this chunk s of
        Inl e \<Rightarrow> Inl e
      | Inr (s', out) \<Rightarrow>
          (case feed this chunks s' of
             Inl e \<Rightarrow> Inl e
           | Inr (s'', out') \<Rightarrow> Inr (s'', out @ out')))"

subsection \<open>Timers\<close>

fun flush_each :: "(nat \<times> receiver) list \<Rightarrow> nat \<Rightarrow> iridium \<Rightarrow> (iridium \<times> frame list) outcome" where
  "flush_each [] p s = Inr (s, [])"
| "flush_each ((q, this) # rest) p s =
     (if q = p then
        (case flush this s of
           Inl e \<Rightarrow> Inl e
         | Inr (s', out) \<Rightarrow>
             (case flush_each rest p s' of
                Inl e \<Rightarrow> Inl e
              | Inr (s'', out') \<Rightarrow> Inr (s'', out @ out')))
      else flush_each rest p s)"

text \<open>
  The timer with handle \<open>h\<close> fires: its function runs, once. A handle that was cleared,
  or has fired, does nothing.
\<close>

definition fire :: "nat \<Rightarrow> iridium \<Rightarrow> (iridium \<times> frame list) outcome" where
  "fire h s =
     (case find (\<lambda>t. fst t = h) (timers s) of
        None \<Rightarrow> Inr (s, [])
      | Some (h', delay, f) \<Rightarrow>
          let s = s\<lparr>timers := filter (\<lambda>t. fst t \<noteq> h) (timers s)\<rparr> in
          case f of
            CommandTimeout command \<Rightarrow> Inr (log (TimeoutEvent command) s, [])
          | CommandTimeout_index command datafunction \<Rightarrow>
              (case invoke datafunction Undefined Undefined (log (TimeoutEvent command) s) of
                 Inl e \<Rightarrow> Inl e
               | Inr s' \<Rightarrow> Inr (s', []))
          | FollowUpCheck \<Rightarrow> Inr (sendMessage (new_state (Text [])) Absent None s, [])
          | RetrySend buf callback \<Rightarrow>
              (case mailboxSend buf callback s of
                 Inl e \<Rightarrow> Inl e
               | Inr s' \<Rightarrow> Inr (s', []))
          | BinaryWindow p \<Rightarrow>
              flush_each (thens s) p
                (s\<lparr>resolved := p # resolved s, thens := filter (\<lambda>t. fst t \<noteq> p) (thens s)\<rparr>))"

subsection \<open>The handler of the framer's frames\<close>

definition sbdring :: "iridium \<Rightarrow> iridium" where
  "sbdring s = emit Ringalert s"

text \<open>\<^verbatim>\<open>areg(line)\<close>: \<^verbatim>\<open>m[1]\<close> of a match that is \<^verbatim>\<open>null\<close> is a TypeError.\<close>

definition areg :: "string \<Rightarrow> iridium \<Rightarrow> iridium outcome" where
  "areg line s =
     (case match_AREG line of
        None \<Rightarrow> Inl (TypeError, s)
      | Some m \<Rightarrow> Inr (log (RegistrationResult (m ! 0) (m ! 1)) s))"

text \<open>
  What the handler does after \<^verbatim>\<open>df\<close> has returned from a completion. The ES2015 copy
  writes \<^verbatim>\<open>df = null; er = null\<close>, which also wipes a command that \<^verbatim>\<open>df\<close> itself
  has just issued. \<^verbatim>\<open>index.js\<close> writes \<^verbatim>\<open>delete(df); delete(er)\<close>, which on variables
  declared with \<^verbatim>\<open>let\<close> does nothing.
\<close>

definition forget :: "iridium \<Rightarrow> iridium" where
  "forget s = s\<lparr>df := None, er := None\<rparr>"

definition forget_index :: "iridium \<Rightarrow> iridium" where
  "forget_index s = s"

text \<open>\<^verbatim>\<open>df(err, text)\<close> in the handler: \<^verbatim>\<open>df\<close> may be \<^verbatim>\<open>null\<close> or \<^verbatim>\<open>undefined\<close>.\<close>

definition handler_df :: "jsval \<Rightarrow> jsval \<Rightarrow> iridium \<Rightarrow> iridium outcome" where
  "handler_df err text s =
     (case df s of None \<Rightarrow> Inl (TypeError, s) | Some datafunction \<Rightarrow> call_df datafunction err text s)"

text \<open>
  \<^verbatim>\<open>parser.on('data', (data) => { ... })\<close> of \<^verbatim>\<open>open\<close>; the first argument is what the
  copy at hand does after a completion.
\<close>

definition on_data_with :: "(iridium \<Rightarrow> iridium) \<Rightarrow> frame \<Rightarrow> iridium \<Rightarrow> iridium outcome" where
  "on_data_with after frame s =
     (let s = log (Received frame) s in
      case er s of
        None \<Rightarrow>
          (case handler_df Null (frame_val frame) s of
             Inl e \<Rightarrow> Inl e
           | Inr s \<Rightarrow> Inr (after s))
      | Some endregexp \<Rightarrow>
          (case String_of frame of
             Inl e \<Rightarrow> Inl (e, s)
           | Inr line \<Rightarrow>
               if test SBDRING_re line then Inr (sbdring s)
               else if test AREG_re line then
                 (case frame of Part l \<Rightarrow> areg l s | Blob b \<Rightarrow> Inl (TypeError, s))
               else if test ERROR_re line then
                 (case handler_df (JRegExp ERROR_re) (JString (buffer s)) s of
                    Inl e \<Rightarrow> Inl e
                  | Inr s \<Rightarrow> Inr (after (s\<lparr>buffer := []\<rparr>)))
               else
                 let s = (if (case kr s of None \<Rightarrow> True | Some k \<Rightarrow> test k line)
                          then s\<lparr>buffer := buffer s @ line @ [LF]\<rparr> else s)
                 in
                 if test endregexp line then
                   (case handler_df Null (JString (buffer s)) s of
                      Inl e \<Rightarrow> Inl e
                    | Inr s \<Rightarrow> Inr (after (s\<lparr>buffer := []\<rparr>)))
                 else Inr s))"

definition on_data :: "frame \<Rightarrow> iridium \<Rightarrow> iridium outcome" where
  "on_data frame s = on_data_with forget frame s"

definition on_data_index :: "frame \<Rightarrow> iridium \<Rightarrow> iridium outcome" where
  "on_data_index frame s = on_data_with forget_index frame s"

text \<open>
  Frames given to the handler one after the other. An exception thrown by the handler
  is not caught by the driver: the run ends there.
\<close>

fun handler_run :: "(frame \<Rightarrow> iridium \<Rightarrow> iridium outcome) \<Rightarrow> frame list \<Rightarrow> iridium
    \<Rightarrow> iridium outcome" where
  "handler_run handler [] s = Inr s"
| "handler_run handler (f # fs) s =
     (case handler f s of Inl e \<Rightarrow> Inl e | Inr s' \<Rightarrow> handler_run handler fs s')"

subsection \<open>The wire format in the specification's words\<close>

text \<open>The arithmetic sum of the bytes of a payload.\<close>

definition byte_sum :: "byte list \<Rightarrow> nat" where
  "byte_sum p = sum_list (map unat p)"

text \<open>Two bytes, big-endian.\<close>

definition be16 :: "nat \<Rightarrow> byte list" where
  "be16 n = [of_nat (n div 256), of_nat (n mod 256)]"

subsection \<open>The invariant of the binary scratch buffer\<close>

text \<open>The scratch buffer keeps its 512 bytes, and the counter stays within them.\<close>

definition scratch_ok :: "iridium \<Rightarrow> bool" where
  "scratch_ok s =
     (length (binary_buffer (binary s)) = 512 \<and> bufferCounter (binary s) \<le> 512)"

subsection \<open>Timer handles, and the calls a run has made\<close>

text \<open>Every timer that is set has a handle below the next one to be given out.\<close>

definition fresh_handles :: "iridium \<Rightarrow> bool" where
  "fresh_handles s = (\<forall>t\<in>set (timers s). fst t < handles s)"

text \<open>The calls of callbacks recorded at the end of a run, however it ended.\<close>

definition calls_of :: "(iridium \<times> frame list) outcome \<Rightarrow> (callback \<times> jsval \<times> jsval) list" where
  "calls_of r = (case r of Inl (e, s) \<Rightarrow> invoked s | Inr (s, out) \<Rightarrow> invoked s)"

text \<open>The state at the end of a run, however it ended.\<close>

definition final_state :: "iridium outcome \<Rightarrow> iridium" where
  "final_state r = (case r of Inl (e, s) \<Rightarrow> s | Inr s \<Rightarrow> s)"

subsection \<open>Sessions as the modem sees them\<close>

text \<open>What \<^verbatim>\<open>AT\<close> writes to the serial port for a command.\<close>

definition written :: "command \<Rightarrow> wire" where
  "written command =
     (case command of
        Cmd c \<Rightarrow> Line (c @ [CR])
      | Raw ob \<Rightarrow> Bytes ob
      | Cmd_points c \<Rightarrow> Line_points (c @ [13]))"

text \<open>
  \<^verbatim>\<open>sendBinaryMessage\<close> writes a binary frame when the message is not empty, and hands an
  empty one to \<^verbatim>\<open>sendMessage\<close>; a session whose \<^verbatim>\<open>binaryMessage\<close> is not set is
  submitted by \<^verbatim>\<open>sendMessage\<close>.
\<close>

definition binary_path :: "session \<Rightarrow> bool" where
  "binary_path state = (binaryMessage state \<and> payload_length (message state) \<noteq> 0)"

text \<open>
  What one submission of a session writes to the serial port, up to the command
  \<^verbatim>\<open>AT+SBDIX\<close>, when no exchange fails; and frames with which a modem answers these
  commands but the last: \<^verbatim>\<open>READY\<close> to \<^verbatim>\<open>AT+SBDWB\<close>, \<^verbatim>\<open>OK\<close> to the message, the signal
  report \<^verbatim>\<open>+CIEV:0,1\<close>, and \<^verbatim>\<open>OK\<close> to \<^verbatim>\<open>AT+CIER=0,0,0,0\<close>.
\<close>

definition submission_writes :: "session \<Rightarrow> wire list" where
  "submission_writes state =
     (if binary_path state
      then [Line (''AT+SBDWB='' @ decimal (length (payload_bytes (message state))) @ [CR]),
            Bytes (sendBinaryMessage_ob (payload_bytes (message state)))]
      else [written (if payload_truthy (message state)
                     then template ''AT+SBDWT='' (payload_text (message state))
                     else Cmd ''AT+SBDD0'')])
     @ [Line (''AT+CIER=1,1,0,0'' @ [CR]), Line (''AT+CIER=0,0,0,0'' @ [CR]),
        Line (''AT+SBDIX'' @ [CR])]"

definition submission_frames :: "session \<Rightarrow> frame list" where
  "submission_frames state =
     (if binary_path state then [Part (''READY'' @ [CR]), Part (''OK'' @ [CR])]
      else [Part (''OK'' @ [CR])])
     @ [Part (''+CIEV:0,1'' @ [CR]), Part (''OK'' @ [CR])]"

text \<open>
  The answer to \<^verbatim>\<open>AT+SBDIX\<close> of a session that failed with status 18, and the \<^verbatim>\<open>OK\<close> that
  answers the \<^verbatim>\<open>AT+SBDD0\<close> which follows it.
\<close>

definition failed_session_frames :: "frame list" where
  "failed_session_frames =
     [Part (''+SBDIX: 18, 7, 0, 0, 0, 0'' @ [CR]), Part (''OK'' @ [CR]), Part (''OK'' @ [CR])]"

text \<open>One round: a failed session, then the next submission.\<close>

definition round_frames :: "session \<Rightarrow> frame list" where
  "round_frames state = failed_session_frames @ submission_frames state"

definition round_writes :: "session \<Rightarrow> wire list" where
  "round_writes state = Line (''AT+SBDD0'' @ [CR]) # submission_writes state"

text \<open>The calls made so far of callbacks that the caller has passed in.\<close>

definition caller_calls :: "iridium \<Rightarrow> (callback \<times> jsval \<times> jsval) list" where
  "caller_calls s = filter (\<lambda>c. case fst c of Caller n \<Rightarrow> True | _ \<Rightarrow> False) (invoked s)"

text \<open>The timers that are set to run the follow-up check of the mailbox.\<close>

definition follow_ups :: "iridium \<Rightarrow> (nat \<times> int \<times> timer) list" where
  "follow_ups s = filter (\<lambda>t. snd (snd t) = FollowUpCheck) (timers s)"

text \<open>
  A command is pending: its callback, the pattern that ends its reply and the pattern of
  the lines to keep; no line is kept yet.
\<close>

definition awaiting :: "callback \<Rightarrow> regexp \<Rightarrow> regexp \<Rightarrow> iridium \<Rightarrow> bool" where
  "awaiting d e k s = (df s = Some d \<and> er s = Some e \<and> kr s = Some k \<and> buffer s = [])"

section \<open>Properties\<close>

declare checksum_loop.simps [simp del]

subsection \<open>The binary write frame\<close>

lemma checksum_loop_inv:
  "i \<le> length buf \<Longrightarrow> length ob = length buf + 2 \<Longrightarrow> take i ob = map Some (take i buf) \<Longrightarrow>
   checksum_loop buf i ob c =
     (map Some buf @ drop (length buf) ob, c + int (sum_list (map unat (drop i buf))))"
proof (induction buf i ob c rule: checksum_loop.induct)
  case (1 buf i ob csum)
  show ?case
  proof (cases "i < length buf")
    case True
    let ?ob = "store ob i (uint (buf ! i))"
    have a: "take (i + 1) ?ob = map Some (take (i + 1) buf)"
      using True 1(3,4) by (simp add: store_def take_Suc_conv_app_nth)
    have b: "drop (length buf) ?ob = drop (length buf) ob"
      using True by (simp add: store_def)
    have c: "drop i buf = buf ! i # drop (i + 1) buf"
      using True by (simp add: Cons_nth_drop_Suc)
    have "checksum_loop buf (i + 1) ?ob (csum + uint (buf ! i)) =
        (map Some buf @ drop (length buf) ?ob,
         csum + uint (buf ! i) + int (sum_list (map unat (drop (i + 1) buf))))"
      using True 1(3) a by (intro "1.IH") (simp_all add: store_def)
    then show ?thesis
      using True b c by (subst checksum_loop.simps) simp
  next
    case False
    with 1(2) have "i = length buf" by simp
    with 1(4) show ?thesis
      by (subst checksum_loop.simps) (simp, metis append_take_drop_id)
  qed
qed

lemma checksum_loop_whole:
  "checksum_loop buf 0 (allocUnsafe (length buf + 2)) 0 =
     (map Some buf @ [None, None], int (byte_sum buf))"
proof -
  have "drop (length buf) (replicate (length buf + 2) (None :: cell)) = replicate 2 None"
    by (subst drop_replicate) simp
  also have "\<dots> = [None, None]"
    by (simp add: numeral_2_eq_2)
  finally show ?thesis
    using checksum_loop_inv [of 0 buf "allocUnsafe (length buf + 2)" 0]
    by (simp add: allocUnsafe_def byte_sum_def)
qed

lemma and_255: "(x::int) AND 255 = take_bit 8 x"
proof -
  have "(255::int) = mask 8" by (simp add: mask_eq_exp_minus_1)
  then show ?thesis by (simp add: take_bit_eq_mask)
qed

lemma low_byte: "word_of_int (ToInt32 (int n) AND 255) = (of_nat (n mod 256) :: byte)"
proof -
  have "take_bit 8 (signed_take_bit 31 (int n)) = take_bit 8 (int n)"
    by (simp add: take_bit_signed_take_bit)
  then have "signed_take_bit 31 (int n) AND 255 = int (n mod 256)"
    by (simp add: and_255 take_bit_eq_mod zmod_int)
  then show ?thesis
    by (simp add: ToInt32_def)
qed

lemma high_byte:
  "word_of_int (ToInt32 (drop_bit 8 (ToInt32 (int n))) AND 255) = (of_nat (n mod 65536 div 256) :: byte)"
proof -
  have "take_bit 8 (signed_take_bit 31 (drop_bit 8 (signed_take_bit 31 (int n)))) =
      take_bit 8 (drop_bit 8 (signed_take_bit 31 (int n)))"
    by (simp add: take_bit_signed_take_bit)
  also have "\<dots> = drop_bit 8 (take_bit 16 (signed_take_bit 31 (int n)))"
    by (simp add: take_bit_drop_bit)
  also have "\<dots> = drop_bit 8 (take_bit 16 (int n))"
    by (simp add: take_bit_signed_take_bit)
  also have "\<dots> = int (n mod 65536 div 256)"
    by (simp add: take_bit_eq_mod drop_bit_eq_div zmod_int zdiv_int)
  finally have "signed_take_bit 31 (drop_bit 8 (signed_take_bit 31 (int n))) AND 255 =
      int (n mod 65536 div 256)"
    by (simp add: and_255)
  then show ?thesis by (simp add: ToInt32_def)
qed

lemma sendBinaryMessage_ob_eq:
  "sendBinaryMessage_ob p = map Some (p @ be16 (byte_sum p mod 65536))"
proof -
  have m: "byte_sum p mod 65536 mod 256 = byte_sum p mod 256"
    by (simp add: mod_mod_cancel)
  have u: "(map Some p @ [a, b])[length p := x] = map Some p @ [x, b]"
      "(map Some p @ [a, b])[Suc (length p) := x] = map Some p @ [a, x]" for a b x :: cell
    using list_update_length [of "map Some p" a "[b]" x]
      list_update_length [of "map Some p @ [a]" b "[]" x] by simp_all
  show ?thesis
    using checksum_loop_whole [of p]
    by (simp add: sendBinaryMessage_ob_def store_def low_byte high_byte be16_def m u)
qed

lemma message_set_maxWait [simp]: "message (set_maxWait w st) = message st"
  by (simp add: set_maxWait_def split: option.splits)

lemma sendBinaryMessage_issues:
  "payload_length (message state) \<noteq> 0 \<Longrightarrow>
   df (sendBinaryMessage state callback w s) =
     Some (BinaryReady ((set_maxWait w state)\<lparr>binaryMessage := True\<rparr>) callback
            (sendBinaryMessage_ob (payload_bytes (message state))))"
  by (simp add: sendBinaryMessage_def AT_def AT_with_def Let_def serial_write_def log_def
      setTimeout_def clear_tf_def clearTimeout_def effective_timeout_def split: option.splits)

lemma BinaryReady_writes:
  "\<not> truthy err \<Longrightarrow>
   \<exists>s'. invoke (BinaryReady state callback ob) err r s = Inr s' \<and> serial s' = serial s @ [Bytes ob]"
  by (simp add: ATS_def AT_def AT_with_def Let_def serial_write_def log_def called_def
      setTimeout_def clear_tf_def clearTimeout_def effective_timeout_def split: option.splits)

text \<open>
  C1. For every payload \<open>p\<close>, the buffer that the binary write path builds has
  \<open>length p + 2\<close> bytes, all of them written: \<open>p\<close>, then the two bytes of
  \<open>byte_sum p mod 65536\<close>, big-endian. The payload 01 02 03 gets the trailer 00 06. A
  message that is not empty makes \<^verbatim>\<open>sendBinaryMessage\<close> issue its command with that
  buffer held for the callback, and the callback, called without an error, writes it to
  the serial port as it is.
\<close>

theorem C1_binary_write_frame:
  "sendBinaryMessage_ob p = map Some (p @ be16 (byte_sum p mod 65536))
   \<and> length (sendBinaryMessage_ob p) = length p + 2
   \<and> sendBinaryMessage_ob [0x01, 0x02, 0x03] = map Some [0x01, 0x02, 0x03, 0x00, 0x06]
   \<and> (payload_length (message state) \<noteq> 0 \<longrightarrow>
        (\<exists>state'. df (sendBinaryMessage state callback w s) =
           Some (BinaryReady state' callback (sendBinaryMessage_ob (payload_bytes (message state))))))
   \<and> (\<not> truthy err \<longrightarrow>
        (\<exists>s'. invoke (BinaryReady state callback ob) err r s = Inr s'
           \<and> serial s' = serial s @ [Bytes ob]))"
proof -
  have "sendBinaryMessage_ob [0x01, 0x02, 0x03] = map Some [0x01, 0x02, 0x03, 0x00, 0x06]"
    by (simp add: sendBinaryMessage_ob_eq be16_def byte_sum_def)
  then show ?thesis
    using sendBinaryMessage_issues [of state callback w s] BinaryReady_writes [of err state callback ob r s]
    by (simp add: sendBinaryMessage_ob_eq be16_def)
qed

theorem C1_binary_write_frame_witness:
  "payload_length (message (new_state (Binary [0x01, 0x02, 0x03]))) \<noteq> 0
   \<and> \<not> truthy Null
   \<and> (\<exists>state'. df (sendBinaryMessage (new_state (Binary [0x01, 0x02, 0x03])) (Caller 0) None createIridium) =
         Some (BinaryReady state' (Caller 0) (map Some [0x01, 0x02, 0x03, 0x00, 0x06])))
   \<and> (\<exists>s'. invoke (BinaryReady (new_state (Binary [0x01, 0x02, 0x03])) (Caller 0)
               (map Some [0x01, 0x02, 0x03, 0x00, 0x06])) Null Undefined createIridium = Inr s'
         \<and> serial s' = serial createIridium @ [Bytes (map Some [0x01, 0x02, 0x03, 0x00, 0x06])])"
proof -
  have a: "payload_length (message (new_state (Binary [0x01, 0x02, 0x03]))) \<noteq> 0"
    by (simp add: new_state_def)
  have b: "\<not> truthy Null" by simp
  have c: "payload_bytes (message (new_state (Binary [0x01, 0x02, 0x03]))) = [0x01, 0x02, 0x03]"
    by (simp add: new_state_def)
  note t = C1_binary_write_frame [of "[0x01, 0x02, 0x03]" "new_state (Binary [0x01, 0x02, 0x03])"
        "Caller 0" None createIridium Null "map Some [0x01, 0x02, 0x03, 0x00, 0x06]" Undefined]
  from t have e: "sendBinaryMessage_ob [0x01, 0x02, 0x03] = map Some [0x01, 0x02, 0x03, 0x00, 0x06]"
    by blast
  from t a have i: "\<exists>state'. df (sendBinaryMessage (new_state (Binary [0x01, 0x02, 0x03])) (Caller 0)
      None createIridium) = Some (BinaryReady state' (Caller 0) (sendBinaryMessage_ob [0x01, 0x02, 0x03]))"
    unfolding c by blast
  from t b have j: "\<exists>s'. invoke (BinaryReady (new_state (Binary [0x01, 0x02, 0x03])) (Caller 0)
               (map Some [0x01, 0x02, 0x03, 0x00, 0x06])) Null Undefined createIridium = Inr s'
         \<and> serial s' = serial createIridium @ [Bytes (map Some [0x01, 0x02, 0x03, 0x00, 0x06])]"
    by blast
  show ?thesis
    using a b i j unfolding e by blast
qed

subsection \<open>The binary read decoder\<close>

lemma readUInt16BE_be16:
  "n < 65536 \<Longrightarrow> readUInt16BE (map Some (be16 n) @ rest) 0 = Inr n"
proof -
  assume n: "n < 65536"
  then have "n div 256 < 256" by simp
  then have hi: "unat (of_nat (n div 256) :: byte) = n div 256"
    by (simp add: unat_of_nat)
  have lo: "unat (of_nat (n mod 256) :: byte) = n mod 256"
    by (simp add: unat_of_nat)
  show ?thesis
    by (simp add: readUInt16BE_def be16_def hi lo)
qed

lemma copy_payload:
  "copy (map Some (be16 n) @ map Some p @ rest) (allocUnsafe (length p)) 0 2 (length p + 2) =
     Inr (map Some p, length p)"
  by (cases "p = []") (simp_all add: copy_def copy_bytes_def be16_def allocUnsafe_def Let_def min_def)

lemma decode_length_prefixed:
  "length p < 65536 \<Longrightarrow>
   readBinaryMessage_decode (map Some (be16 (length p)) @ map Some p @ rest) = Inr (map Some p)"
  using copy_payload [of "length p" p rest]
  by (simp add: readBinaryMessage_decode_def readUInt16BE_be16)

lemma take_ob: "take (length p) (sendBinaryMessage_ob p) = map Some p"
  by (simp add: sendBinaryMessage_ob_eq)

text \<open>
  C4, as amended. The binary read decoder recovers a payload \<open>p\<close> of fewer than 65536
  bytes from the two bytes of \<open>length p\<close>, big-endian, followed by the first
  \<open>length p\<close> bytes of the binary write frame of \<open>p\<close>, whatever follows them: the
  checksum trailer may be there or not, the decoder does not read it.
\<close>

theorem C4_decode_after_length_prefix:
  "length p < 65536 \<Longrightarrow>
   readBinaryMessage_decode
     (map Some (be16 (length p)) @ take (length p) (sendBinaryMessage_ob p) @ rest) =
   Inr (map Some p)"
  by (simp only: take_ob decode_length_prefixed)

theorem C4_decode_after_length_prefix_witness:
  "length [0x01, 0x02, 0x03 :: byte] < 65536
   \<and> readBinaryMessage_decode
       (map Some (be16 (length [0x01, 0x02, 0x03 :: byte]))
          @ take (length [0x01, 0x02, 0x03 :: byte]) (sendBinaryMessage_ob [0x01, 0x02, 0x03])
          @ [Some 0x00, Some 0x06]) =
     Inr (map Some [0x01, 0x02, 0x03])"
proof -
  have h: "length [0x01, 0x02, 0x03 :: byte] < 65536" by simp
  show ?thesis
    using h C4_decode_after_length_prefix [OF h, of "[Some 0x00, Some 0x06]"] by blast
qed

text \<open>
  C4 as stated fails. The first three bytes of the write frame of 01 02 03 are the payload
  itself, with no length before it: the decoder reads 01 02 as the length 258 and returns
  258 bytes, the first 03 and the others never written.
\<close>

theorem C4_decode_of_framed_prefix_counterexample:
  "readBinaryMessage_decode
     (take (length [0x01, 0x02, 0x03 :: byte]) (sendBinaryMessage_ob [0x01, 0x02, 0x03])) =
     Inr (Some 0x03 # replicate 257 None)
   \<and> readBinaryMessage_decode
       (take (length [0x01, 0x02, 0x03 :: byte]) (sendBinaryMessage_ob [0x01, 0x02, 0x03])) \<noteq>
     Inr (map Some [0x01, 0x02, 0x03])"
proof -
  have "take (length [0x01, 0x02, 0x03 :: byte]) (sendBinaryMessage_ob [0x01, 0x02, 0x03]) =
      [Some 0x01, Some 0x02, Some 0x03]"
    using take_ob [of "[0x01, 0x02, 0x03]"] by simp
  moreover have "readBinaryMessage_decode [Some 0x01, Some 0x02, Some 0x03] =
      Inr (Some 0x03 # replicate 257 None)"
    by (simp add: readBinaryMessage_decode_def readUInt16BE_def copy_def copy_bytes_def
        allocUnsafe_def Let_def)
  ultimately show ?thesis by simp
qed

text \<open>A payload of one byte, given to the decoder, is a RangeError of \<^verbatim>\<open>readUInt16BE\<close>.\<close>

lemma decode_of_one_byte: "readBinaryMessage_decode [Some b] = Inl RangeError"
  by (simp add: readBinaryMessage_decode_def readUInt16BE_def)

subsection \<open>The framer in Line mode\<close>

lemma split_LF_not_Nil [simp]: "split_LF s \<noteq> []"
  by (induction s) auto

lemma split_LF_append:
  "split_LF (x @ t) = butlast (split_LF x) @ split_LF (last (split_LF x) @ t)"
proof (induction x)
  case Nil
  show ?case by simp
next
  case (Cons c x)
  show ?case
  proof (cases "c = LF")
    case True
    with Cons show ?thesis by simp
  next
    case False
    obtain p P where P: "split_LF x = p # P"
      by (cases "split_LF x") auto
    show ?thesis
    proof (cases "P = []")
      case True
      with False P Cons show ?thesis by simp
    next
      case nonempty: False
      with False P Cons show ?thesis by simp
    qed
  qed
qed

lemma last_split_LF_no_LF: "LF \<notin> set (last (split_LF s))"
proof (induction s)
  case Nil
  show ?case by simp
next
  case (Cons c s)
  obtain p P where P: "split_LF s = p # P"
    by (cases "split_LF s") auto
  with Cons show ?case by (cases "P = []") auto
qed

lemma split_LF_no_LF: "LF \<notin> set s \<Longrightarrow> split_LF s = [s]"
  by (induction s) auto

lemma toString_binary_append [simp]:
  "toString_binary (a @ b) = toString_binary a @ toString_binary b"
  by (simp add: toString_binary_def)

lemma readSBD_with_Stream_line:
  "\<not> mode (binary s) \<Longrightarrow>
   readSBD_with Stream chunk s =
     Inr (s\<lparr>data := last (split_LF (data s @ toString_binary chunk))\<rparr>,
          map Part (butlast (split_LF (data s @ toString_binary chunk))))"
  by (cases "butlast (split_LF (data s @ toString_binary chunk))")
     (simp_all add: readSBD_with_def Let_def)

lemma feed_Stream_line:
  "\<not> mode (binary s) \<Longrightarrow> LF \<notin> set (data s) \<Longrightarrow>
   feed Stream chunks s =
     Inr (s\<lparr>data := last (split_LF (data s @ toString_binary (concat chunks)))\<rparr>,
          map Part (butlast (split_LF (data s @ toString_binary (concat chunks)))))"
proof (induction chunks arbitrary: s)
  case Nil
  then show ?case by (simp add: split_LF_no_LF toString_binary_def)
next
  case (Cons chunk chunks)
  let ?s = "s\<lparr>data := last (split_LF (data s @ toString_binary chunk))\<rparr>"
  have m: "\<not> mode (binary ?s)" using Cons.prems by simp
  have d: "LF \<notin> set (data ?s)" by (simp add: last_split_LF_no_LF)
  have sp: "split_LF (data s @ toString_binary chunk @ toString_binary (concat chunks)) =
      butlast (split_LF (data s @ toString_binary chunk))
        @ split_LF (last (split_LF (data s @ toString_binary chunk)) @ toString_binary (concat chunks))"
    using split_LF_append [of "data s @ toString_binary chunk" "toString_binary (concat chunks)"]
    by simp
  show ?case
    using Cons.prems Cons.IH [OF m d]
    by (simp add: readSBD_with_Stream_line sp butlast_append)
qed

text \<open>
  Line framing in \<^verbatim>\<open>index.js\<close>, whose transform is a \<^verbatim>\<open>function\<close>: in Line mode, starting
  with a remainder that holds no newline (as the empty remainder of a new driver, and as
  every remainder the framer itself leaves), the frames are the parts of the remainder
  followed by all the bytes fed, split at the newlines, but the last part, which is the
  new remainder. So two ways of cutting the same bytes into chunks give the same frames.
\<close>

theorem readSBD_index_line_framing:
  "\<not> mode (binary s) \<Longrightarrow> LF \<notin> set (data s) \<Longrightarrow>
   feed Stream chunks s =
     Inr (s\<lparr>data := last (split_LF (data s @ toString_binary (concat chunks)))\<rparr>,
          map Part (butlast (split_LF (data s @ toString_binary (concat chunks)))))
   \<and> (concat chunks = concat chunks' \<longrightarrow> feed Stream chunks s = feed Stream chunks' s)"
  by (simp add: feed_Stream_line)

lemma toString_binary_utf8_ascii:
  "\<forall>c\<in>set s. (of_char c :: nat) < 128 \<Longrightarrow> toString_binary (utf8 s) = s"
  by (induction s) (simp_all add: toString_binary_def utf8_def unat_of_nat)

lemma example_text:
  "toString_binary (utf8 (''+AREG:2,0'' @ [CR, LF])) = ''+AREG:2,0'' @ [CR, LF]"
  "toString_binary (utf8 (''OK'' @ [CR, LF])) = ''OK'' @ [CR, LF]"
  by (rule toString_binary_utf8_ascii, simp add: CR_def LF_def)+

text \<open>
  The two chunks \<^verbatim>\<open>+AREG:2,0\r\n\<close> and \<^verbatim>\<open>OK\r\n\<close> leave \<^verbatim>\<open>index.js\<close> as the two frames
  \<^verbatim>\<open>+AREG:2,0\r\<close> and \<^verbatim>\<open>OK\r\<close>.
\<close>

theorem readSBD_index_example:
  "feed Stream [utf8 (''+AREG:2,0'' @ [CR, LF]), utf8 (''OK'' @ [CR, LF])] createIridium =
     Inr (createIridium, [Part (''+AREG:2,0'' @ [CR]), Part (''OK'' @ [CR])])"
proof -
  have a: "\<not> mode (binary createIridium)" "LF \<notin> set (data createIridium)"
    by (simp_all add: createIridium_def)
  have b: "data createIridium = []" "createIridium\<lparr>data := []\<rparr> = createIridium"
    by (simp_all add: createIridium_def)
  have c: "split_LF (''+AREG:2,0'' @ [CR, LF] @ ''OK'' @ [CR, LF]) =
      [''+AREG:2,0'' @ [CR], ''OK'' @ [CR], []]"
    by (simp add: CR_def LF_def)
  have "toString_binary (concat [utf8 (''+AREG:2,0'' @ [CR, LF]), utf8 (''OK'' @ [CR, LF])]) =
      ''+AREG:2,0'' @ [CR, LF] @ ''OK'' @ [CR, LF]"
    by (simp add: example_text del: append_Cons)
  moreover have "feed Stream [utf8 (''+AREG:2,0'' @ [CR, LF]), utf8 (''OK'' @ [CR, LF])] createIridium =
      Inr (createIridium\<lparr>data := last (split_LF (data createIridium @ toString_binary
             (concat [utf8 (''+AREG:2,0'' @ [CR, LF]), utf8 (''OK'' @ [CR, LF])])))\<rparr>,
           map Part (butlast (split_LF (data createIridium @ toString_binary
             (concat [utf8 (''+AREG:2,0'' @ [CR, LF]), utf8 (''OK'' @ [CR, LF])])))))"
    using readSBD_index_line_framing [OF a] by blast
  ultimately show ?thesis
    unfolding b by (simp only: c append_Nil) (simp add: b)
qed

text \<open>
  C6. The ES2015 copy passes an arrow function to \<^verbatim>\<open>through2.obj\<close>, so \<^verbatim>\<open>this\<close> in
  \<^verbatim>\<open>this.push(part)\<close> is not the stream: the first complete line ends the transform in a
  TypeError, and no frame leaves the framer. Here the chunk is \<^verbatim>\<open>+AREG:2,0\r\n\<close>, fed
  to a new driver.
\<close>

theorem C6_readSBD_cannot_push:
  "readSBD (utf8 (''+AREG:2,0'' @ [CR, LF])) createIridium = Inl (TypeError, createIridium)"
proof -
  have b: "\<not> mode (binary createIridium)"
    "data createIridium = []" "createIridium\<lparr>data := []\<rparr> = createIridium"
    by (simp_all add: createIridium_def)
  have c: "split_LF (''+AREG:2,0'' @ [CR, LF]) = [''+AREG:2,0'' @ [CR], []]"
    by (simp add: CR_def LF_def)
  have "readSBD (utf8 (''+AREG:2,0'' @ [CR, LF])) createIridium =
      push_all Enclosing (map Part (butlast (split_LF (''+AREG:2,0'' @ [CR, LF]))))
        (createIridium\<lparr>data := last (split_LF (''+AREG:2,0'' @ [CR, LF]))\<rparr>)"
    by (simp add: readSBD_def readSBD_with_def b example_text Let_def del: append_Cons)
  then show ?thesis
    by (simp add: c b)
qed

subsection \<open>The framer in Binary mode\<close>

lemma copy_bytes_chunk:
  "\<exists>b'. copy_bytes (map Some chunk) b c 0 (length chunk) = (b', min (length chunk) (length b - c))
     \<and> length b' = length b \<and> (length b \<le> c \<longrightarrow> b' = b)"
  by (auto simp add: copy_bytes_def Let_def min_def)

lemma flush_data_length:
  "scratch_ok s \<Longrightarrow> length (flush_data s) = bufferCounter (binary s)"
  by (auto simp add: scratch_ok_def flush_data_def copy_bytes_def allocUnsafe_def Let_def min_def)

lemma flush_scratch_ok:
  "scratch_ok s \<Longrightarrow> flush this s = Inr (s', out) \<Longrightarrow>
   scratch_ok s' \<and> out = [Blob (flush_data s)]"
  by (cases this) (auto simp add: flush_def scratch_ok_def)

lemma flush_fails: "flush this s = Inl (e, s') \<Longrightarrow> s' = s"
  by (cases this) (auto simp add: flush_def)

lemma push_all_state:
  "push_all this fs s = Inr (s', out) \<Longrightarrow> s' = s \<and> out = fs"
  "push_all this fs s = Inl (e, s') \<Longrightarrow> s' = s"
  by (cases this; cases fs; simp)+

lemma readSBD_with_scratch_ok:
  assumes ok: "scratch_ok s"
  shows "readSBD_with this chunk s = Inr (s', out) \<Longrightarrow>
           scratch_ok s' \<and> (\<forall>b. Blob b \<in> set out \<longrightarrow> length b \<le> 512)"
    and "readSBD_with this chunk s = Inl (e, s') \<Longrightarrow> scratch_ok s'"
    and "mode (binary s) \<Longrightarrow> readSBD_with this chunk s = Inr (s', []) \<Longrightarrow>
           bufferCounter (binary s') =
             bufferCounter (binary s) + min (length chunk) (512 - bufferCounter (binary s))"
    and "mode (binary s) \<Longrightarrow> bufferCounter (binary s) = 512 \<Longrightarrow>
           readSBD_with this chunk s = Inr (s', []) \<Longrightarrow>
           binary_buffer (binary s') = binary_buffer (binary s)"
proof -
  obtain b' where b: "copy_bytes (map Some chunk) (binary_buffer (binary s))
      (bufferCounter (binary s)) 0 (length chunk) =
        (b', min (length chunk) (512 - bufferCounter (binary s)))"
    "length b' = 512" "bufferCounter (binary s) = 512 \<longrightarrow> b' = binary_buffer (binary s)"
    using copy_bytes_chunk [of chunk "binary_buffer (binary s)" "bufferCounter (binary s)"] ok
    by (auto simp add: scratch_ok_def)
  let ?n = "min (length chunk) (512 - bufferCounter (binary s))"
  define s1 where "s1 = (if waiting (binary s) then s\<lparr>binary := (binary s)\<lparr>waiting := False\<rparr>\<rparr> else s)"
  define s2 where "s2 = (if waiting (binary s)
      then s1\<lparr>thens := thens s1 @ [(the (binary_timeout (binary s1)), this)]\<rparr> else s1)"
  define s3 where "s3 = s2\<lparr>binary := (binary s2)\<lparr>binary_buffer := b',
      bufferCounter := bufferCounter (binary s2) + ?n\<rparr>\<rparr>"
  have ok1: "scratch_ok s1" using ok by (simp add: s1_def scratch_ok_def)
  have c3: "bufferCounter (binary s3) = bufferCounter (binary s) + ?n"
    by (simp add: s3_def s2_def s1_def)
  have "bufferCounter (binary s) + ?n \<le> 512"
    using ok unfolding scratch_ok_def min_def by auto
  then have ok3: "scratch_ok s3"
    using b(2) by (simp add: scratch_ok_def c3) (simp add: s3_def)
  have r: "mode (binary s) \<Longrightarrow> readSBD_with this chunk s =
      (if waiting (binary s) \<and> binary_timeout (binary s) = None then Inl (TypeError, s1)
       else if waiting (binary s) \<and> the (binary_timeout (binary s)) \<in> set (resolved s)
       then flush this s3 else Inr (s3, []))"
    using b(1) by (simp add: readSBD_with_def Let_def s1_def s2_def s3_def)
  have l: "\<not> mode (binary s) \<Longrightarrow> readSBD_with this chunk s =
      push_all this (map Part (butlast (split_LF (data s @ toString_binary chunk))))
        (s\<lparr>data := last (split_LF (data s @ toString_binary chunk))\<rparr>)"
    by (simp add: readSBD_with_def Let_def)
  have okl: "scratch_ok (s\<lparr>data := d\<rparr>)" for d using ok by (simp add: scratch_ok_def)
  show "readSBD_with this chunk s = Inr (s', out) \<Longrightarrow>
           scratch_ok s' \<and> (\<forall>b. Blob b \<in> set out \<longrightarrow> length b \<le> 512)"
  proof (cases "mode (binary s)")
    case True
    assume "readSBD_with this chunk s = Inr (s', out)"
    with r [OF True] have "flush this s3 = Inr (s', out) \<or> (s' = s3 \<and> out = [])"
      by (auto split: if_splits)
    then show ?thesis
      using flush_scratch_ok [OF ok3, of this s' out] flush_data_length [OF ok3] ok3
      by (auto simp add: scratch_ok_def)
  next
    case False
    assume "readSBD_with this chunk s = Inr (s', out)"
    with l [OF False] have "push_all this (map Part (butlast (split_LF (data s @ toString_binary chunk))))
        (s\<lparr>data := last (split_LF (data s @ toString_binary chunk))\<rparr>) = Inr (s', out)"
      by simp
    from push_all_state(1) [OF this] show ?thesis
      using okl by auto
  qed
  show "readSBD_with this chunk s = Inl (e, s') \<Longrightarrow> scratch_ok s'"
  proof (cases "mode (binary s)")
    case True
    assume "readSBD_with this chunk s = Inl (e, s')"
    with r [OF True] have "s' = s1 \<or> flush this s3 = Inl (e, s')"
      by (auto split: if_splits)
    then show ?thesis using ok1 ok3 flush_fails by blast
  next
    case False
    assume "readSBD_with this chunk s = Inl (e, s')"
    with l [OF False] have "push_all this (map Part (butlast (split_LF (data s @ toString_binary chunk))))
        (s\<lparr>data := last (split_LF (data s @ toString_binary chunk))\<rparr>) = Inl (e, s')"
      by simp
    from push_all_state(2) [OF this] show ?thesis
      using okl by auto
  qed
  show "mode (binary s) \<Longrightarrow> readSBD_with this chunk s = Inr (s', []) \<Longrightarrow>
           bufferCounter (binary s') = bufferCounter (binary s) + ?n"
  proof -
    assume m: "mode (binary s)" and "readSBD_with this chunk s = Inr (s', [])"
    with r [OF m] have "flush this s3 = Inr (s', []) \<or> s' = s3"
      by (auto split: if_splits)
    then show ?thesis
      using flush_scratch_ok [OF ok3, of this s' "[]"] c3 by auto
  qed
  show "mode (binary s) \<Longrightarrow> bufferCounter (binary s) = 512 \<Longrightarrow>
           readSBD_with this chunk s = Inr (s', []) \<Longrightarrow>
           binary_buffer (binary s') = binary_buffer (binary s)"
  proof -
    assume m: "mode (binary s)" and f: "bufferCounter (binary s) = 512"
      and "readSBD_with this chunk s = Inr (s', [])"
    with r [OF m] have "flush this s3 = Inr (s', []) \<or> s' = s3"
      by (auto split: if_splits)
    then show ?thesis
      using flush_scratch_ok [OF ok3, of this s' "[]"] b(3) f by (auto simp add: s3_def)
  qed
qed

lemma feed_scratch_ok:
  "scratch_ok s \<Longrightarrow>
   (feed this chunks s = Inr (s', out) \<longrightarrow>
      scratch_ok s' \<and> (\<forall>b. Blob b \<in> set out \<longrightarrow> length b \<le> 512))
   \<and> (feed this chunks s = Inl (e, s') \<longrightarrow> scratch_ok s')"
proof (induction chunks arbitrary: s s' out)
  case Nil
  then show ?case by auto
next
  case (Cons chunk chunks)
  show ?case
  proof (cases "readSBD_with this chunk s")
    case (Inl a)
    then show ?thesis
      using readSBD_with_scratch_ok(2) [OF Cons.prems, of this chunk "fst a" "snd a"] by auto
  next
    case (Inr a)
    obtain s1 out1 where a: "a = (s1, out1)" by (cases a)
    have ok1: "scratch_ok s1" and o1: "\<forall>b. Blob b \<in> set out1 \<longrightarrow> length b \<le> 512"
      using readSBD_with_scratch_ok(1) [OF Cons.prems, of this chunk s1 out1] Inr a by auto
    show ?thesis
    proof (cases "feed this chunks s1")
      case (Inl c)
      then show ?thesis
        using Cons.IH [OF ok1, of "snd c" "[]"] Inr a by auto
    next
      case r: (Inr c)
      obtain s2 out2 where c: "c = (s2, out2)" by (cases c)
      show ?thesis
        using Cons.IH [OF ok1, of s2 out2] Inr a r c o1 by auto
    qed
  qed
qed

lemma scratch_ok_createIridium: "scratch_ok createIridium"
  by (simp add: scratch_ok_def createIridium_def allocUnsafe_def)

lemma scratch_ok_enableBinaryMode: "scratch_ok s \<Longrightarrow> scratch_ok (enableBinaryMode t s)"
  by (simp add: scratch_ok_def enableBinaryMode_def setTimeout_def Let_def)

text \<open>
  C9. From a state where the scratch buffer has its 512 bytes and the counter is within
  them (as in a new driver, and after \<^verbatim>\<open>enableBinaryMode\<close>), whatever chunks are fed and
  in whichever copy of the driver: the counter is at most 512 after them, also when the
  feeding ends in an exception, and every blob that leaves has at most 512 bytes. In
  Binary mode a chunk that does not end with the flush advances the counter by the
  smaller of its length and the room left; on a full buffer that is nothing, and the
  buffer is left as it was. The blob that the flush hands to \<^verbatim>\<open>push\<close> has exactly as
  many bytes as the counter says.
\<close>

theorem C9_bufferCounter_bounded:
  "scratch_ok s \<Longrightarrow>
   (feed this chunks s = Inr (s', out) \<longrightarrow>
      bufferCounter (binary s') \<le> 512 \<and> length (binary_buffer (binary s')) = 512
      \<and> (\<forall>b. Blob b \<in> set out \<longrightarrow> length b \<le> 512))
   \<and> (feed this chunks s = Inl (e, s') \<longrightarrow> bufferCounter (binary s') \<le> 512)
   \<and> (mode (binary s) \<and> readSBD_with this chunk s = Inr (s1, []) \<longrightarrow>
        bufferCounter (binary s1) =
          bufferCounter (binary s) + min (length chunk) (512 - bufferCounter (binary s)))
   \<and> (mode (binary s) \<and> bufferCounter (binary s) = 512
        \<and> readSBD_with this chunk s = Inr (s1, []) \<longrightarrow>
        bufferCounter (binary s1) = 512 \<and> binary_buffer (binary s1) = binary_buffer (binary s))
   \<and> length (flush_data s) = bufferCounter (binary s)"
proof -
  assume ok: "scratch_ok s"
  show ?thesis
    using feed_scratch_ok [OF ok, of this chunks s' out e]
      readSBD_with_scratch_ok(3,4) [OF ok, of this chunk s1]
      flush_data_length [OF ok]
    by (auto simp add: scratch_ok_def)
qed

theorem C9_bufferCounter_bounded_witness:
  "scratch_ok (enableBinaryMode 200 createIridium)
   \<and> mode (binary (enableBinaryMode 200 createIridium))
   \<and> (\<exists>s'. feed Enclosing [replicate 600 0xAA] (enableBinaryMode 200 createIridium) = Inr (s', [])
         \<and> readSBD_with Enclosing (replicate 600 0xAA) (enableBinaryMode 200 createIridium) = Inr (s', [])
         \<and> bufferCounter (binary s') = 512)"
proof -
  let ?s = "enableBinaryMode 200 createIridium"
  have ok: "scratch_ok ?s"
    by (rule scratch_ok_enableBinaryMode [OF scratch_ok_createIridium])
  have m: "mode (binary ?s)" "bufferCounter (binary ?s) = 0"
    by (simp_all add: enableBinaryMode_def setTimeout_def Let_def createIridium_def)
  have "\<exists>s'. readSBD_with Enclosing (replicate 600 0xAA) ?s = Inr (s', [])"
    by (simp add: readSBD_with_def enableBinaryMode_def setTimeout_def Let_def createIridium_def
        split: prod.splits)
  then obtain s' where r: "readSBD_with Enclosing (replicate 600 0xAA) ?s = Inr (s', [])"
    by blast
  then have f: "feed Enclosing [replicate 600 0xAA] ?s = Inr (s', [])"
    by simp
  show ?thesis
    using ok m r f C9_bufferCounter_bounded [OF ok, of Enclosing "[replicate 600 0xAA]" s' "[]"
        TypeError "replicate 600 0xAA" s']
    by auto
qed

subsection \<open>The timeout of a command\<close>

lemma find_fresh:
  "\<forall>t\<in>set ts. fst t < (h :: nat) \<Longrightarrow>
   find (\<lambda>t. fst t = h) (filter P ts @ [(h, d, f)]) = Some (h, d, f)"
  by (induction ts) auto

lemma effective_timeout_globals:
  "globals s' = globals s \<Longrightarrow> effective_timeout timeout s' = effective_timeout timeout s"
  by (cases timeout) (simp_all add: effective_timeout_def)

lemma clear_tf_fields [simp]:
  "globals (clear_tf s) = globals s"
  "handles (clear_tf s) = handles s"
  "invoked (clear_tf s) = invoked s"
  "emitted (clear_tf s) = emitted s"
  "serial (clear_tf s) = serial s"
  "tf (clear_tf s) = None"
  "timers (clear_tf s) = filter (\<lambda>t. Some (fst t) \<noteq> tf s) (timers s)"
  by (cases "tf s"; simp add: clear_tf_def clearTimeout_def)+

lemma effective_timeout_in_AT [simp]:
  "effective_timeout timeout (clear_tf (s\<lparr>er := e, kr := k\<rparr>)\<lparr>df := d\<rparr>) =
     effective_timeout timeout s"
  by (rule effective_timeout_globals) simp

lemma AT_with_armed:
  assumes "0 < effective_timeout timeout s"
  shows "tf (AT_with f command endregexp keepregexp datafunction timeout s) = Some (handles s)"
    and "df (AT_with f command endregexp keepregexp datafunction timeout s) = Some datafunction"
    and "invoked (AT_with f command endregexp keepregexp datafunction timeout s) = invoked s"
    and "timers (AT_with f command endregexp keepregexp datafunction timeout s) =
      filter (\<lambda>t. Some (fst t) \<noteq> tf s) (timers s) @ [(handles s, effective_timeout timeout s, f)]"
  using assms
  by (cases command; simp add: AT_with_def Let_def setTimeout_def serial_write_def log_def)+

lemma fire_armed:
  assumes "0 < effective_timeout timeout s" and "fresh_handles s"
  shows "find (\<lambda>t. fst t = handles s)
      (timers (AT_with f command endregexp keepregexp datafunction timeout s)) =
    Some (handles s, effective_timeout timeout s, f)"
  using assms find_fresh [of "timers s" "handles s" "\<lambda>t. Some (fst t) \<noteq> tf s"
      "effective_timeout timeout s" f]
  by (simp add: AT_with_armed(4) fresh_handles_def)

lemma fire_CommandTimeout:
  "find (\<lambda>t. fst t = h) (timers s) = Some (h, delay, CommandTimeout command) \<Longrightarrow>
   fire h s = Inr (log (TimeoutEvent command) (s\<lparr>timers := filter (\<lambda>t. fst t \<noteq> h) (timers s)\<rparr>), [])"
  by (simp add: fire_def)

lemma fire_CommandTimeout_index:
  "find (\<lambda>t. fst t = h) (timers s) = Some (h, delay, CommandTimeout_index command datafunction) \<Longrightarrow>
   fire h s =
     (case invoke datafunction Undefined Undefined
             (log (TimeoutEvent command) (s\<lparr>timers := filter (\<lambda>t. fst t \<noteq> h) (timers s)\<rparr>)) of
        Inl e \<Rightarrow> Inl e
      | Inr s' \<Rightarrow> Inr (s', []))"
  by (simp add: fire_def)

lemma invoked_log [simp]: "invoked (log m s) = invoked s"
  by (simp add: log_def)

text \<open>
  C3, as amended. A command issued with a positive timeout (given, or the default) arms
  one timer, and its firing passes no timeout error to the completion callback. In the
  ES2015 copy the firing logs and does nothing else: no callback is called, and \<^verbatim>\<open>df\<close>
  still holds the callback. In \<^verbatim>\<open>index.js\<close> the firing logs and then calls the
  completion callback with no arguments, so with an undefined error and an undefined text.
\<close>

theorem C3_timeout_passes_no_error:
  "0 < effective_timeout timeout s \<and> fresh_handles s \<longrightarrow>
     (tf (AT command endregexp keepregexp datafunction timeout s) = Some (handles s)
      \<and> (\<exists>s'. fire (handles s) (AT command endregexp keepregexp datafunction timeout s) =
                 Inr (s', [])
            \<and> invoked s' = invoked s
            \<and> df s' = Some datafunction
            \<and> emitted s' = emitted (AT command endregexp keepregexp datafunction timeout s)
                 @ (if debug (globals s) then [Debug (TimeoutEvent command)] else [])))
   \<and> (tf (AT_index command endregexp keepregexp datafunction timeout s) = Some (handles s)
      \<and> (\<exists>s'. fire (handles s) (AT_index command endregexp keepregexp datafunction timeout s) =
                 (case invoke datafunction Undefined Undefined s' of
                    Inl e \<Rightarrow> Inl e | Inr s'' \<Rightarrow> Inr (s'', []))
            \<and> invoked s' = invoked s
            \<and> emitted s' = emitted (AT_index command endregexp keepregexp datafunction timeout s)
                 @ (if debug (globals s) then [Debug (TimeoutEvent command)] else [])))"
proof (intro impI conjI; elim conjE)
  assume t: "0 < effective_timeout timeout s" and f: "fresh_handles s"
  let ?a = "AT command endregexp keepregexp datafunction timeout s"
  let ?b = "AT_index command endregexp keepregexp datafunction timeout s"
  have g: "debug (globals ?a) = debug (globals s)" "debug (globals ?b) = debug (globals s)"
    by (cases command;
        simp add: AT_def AT_index_def AT_with_def Let_def setTimeout_def serial_write_def log_def)+
  show "tf ?a = Some (handles s)" "tf ?b = Some (handles s)"
    using t by (simp_all add: AT_def AT_index_def AT_with_armed)
  have "fire (handles s) ?a =
      Inr (log (TimeoutEvent command) (?a\<lparr>timers := filter (\<lambda>t. fst t \<noteq> handles s) (timers ?a)\<rparr>), [])"
    unfolding AT_def by (rule fire_CommandTimeout) (rule fire_armed [OF t f])
  moreover have "invoked ?a = invoked s" "df ?a = Some datafunction"
    using t by (simp_all add: AT_def AT_with_armed)
  ultimately show "\<exists>s'. fire (handles s) ?a = Inr (s', []) \<and> invoked s' = invoked s
      \<and> df s' = Some datafunction
      \<and> emitted s' = emitted ?a @ (if debug (globals s) then [Debug (TimeoutEvent command)] else [])"
    using g by (simp add: log_def)
  have "fire (handles s) ?b =
      (case invoke datafunction Undefined Undefined
         (log (TimeoutEvent command) (?b\<lparr>timers := filter (\<lambda>t. fst t \<noteq> handles s) (timers ?b)\<rparr>)) of
         Inl e \<Rightarrow> Inl e | Inr s' \<Rightarrow> Inr (s', []))"
    unfolding AT_index_def by (rule fire_CommandTimeout_index) (rule fire_armed [OF t f])
  moreover have "invoked ?b = invoked s"
    using t by (simp add: AT_index_def AT_with_armed)
  ultimately show "\<exists>s'. fire (handles s) ?b =
        (case invoke datafunction Undefined Undefined s' of Inl e \<Rightarrow> Inl e | Inr s'' \<Rightarrow> Inr (s'', []))
      \<and> invoked s' = invoked s
      \<and> emitted s' = emitted ?b @ (if debug (globals s) then [Debug (TimeoutEvent command)] else [])"
    using g
    by (intro exI [of _ "log (TimeoutEvent command)
          (?b\<lparr>timers := filter (\<lambda>t. fst t \<noteq> handles s) (timers ?b)\<rparr>)"])
       (simp add: log_def)
qed

lemma fresh_handles_createIridium: "fresh_handles createIridium"
  by (simp add: fresh_handles_def createIridium_def)

theorem C3_timeout_passes_no_error_witness:
  "0 < effective_timeout (Some 2000) createIridium \<and> fresh_handles createIridium
   \<and> tf (AT (Cmd ''AT+CSQ'') (Some OK_re) (Some ALL_re) (Caller 0) (Some 2000) createIridium) = Some 0
   \<and> (\<exists>s'. fire 0 (AT (Cmd ''AT+CSQ'') (Some OK_re) (Some ALL_re) (Caller 0) (Some 2000) createIridium) =
               Inr (s', [])
         \<and> invoked s' = [] \<and> df s' = Some (Caller 0))
   \<and> (\<exists>s'. fire 0 (AT_index (Cmd ''AT+CSQ'') (Some OK_re) (Some ALL_re) (Caller 0) (Some 2000) createIridium) =
               (case invoke (Caller 0) Undefined Undefined s' of
                  Inl e \<Rightarrow> Inl e | Inr s'' \<Rightarrow> Inr (s'', []))
         \<and> invoked s' = [])"
proof -
  have a: "0 < effective_timeout (Some 2000) createIridium"
    by (simp add: effective_timeout_def)
  have b: "handles createIridium = 0" "invoked createIridium = []"
    by (simp_all add: createIridium_def)
  show ?thesis
    using a fresh_handles_createIridium
      C3_timeout_passes_no_error [of "Some 2000" createIridium "Cmd ''AT+CSQ''" "Some OK_re"
        "Some ALL_re" "Caller 0"]
    unfolding b by blast
qed

text \<open>
  C3 as stated fails in \<^verbatim>\<open>index.js\<close>: the timeout of \<^verbatim>\<open>AT+CSQ\<close>, issued on a new driver
  with the callback \<open>Caller 0\<close> and a timeout of 2000, calls that callback.
\<close>

theorem C3_timeout_calls_datafunction_counterexample:
  "calls_of (fire 0 (AT_index (Cmd ''AT+CSQ'') (Some OK_re) (Some ALL_re) (Caller 0) (Some 2000)
      createIridium)) = [(Caller 0, Undefined, Undefined)]"
  by (simp add: calls_of_def fire_def AT_index_def AT_with_def Let_def clear_tf_def
      setTimeout_def serial_write_def log_def effective_timeout_def createIridium_def called_def)

text \<open>The same in the ES2015 copy calls nothing.\<close>

lemma timeout_ES2015_calls_nothing:
  "calls_of (fire 0 (AT (Cmd ''AT+CSQ'') (Some OK_re) (Some ALL_re) (Caller 0) (Some 2000)
      createIridium)) = []"
  by (simp add: calls_of_def fire_def AT_def AT_with_def Let_def clear_tf_def
      setTimeout_def serial_write_def log_def effective_timeout_def createIridium_def called_def)

subsection \<open>Frames that arrive while no command is pending\<close>

lemma log_quiet: "\<not> debug (globals s) \<Longrightarrow> log m s = s"
  by (simp add: log_def)

text \<open>Any state with \<^verbatim>\<open>df\<close> and \<^verbatim>\<open>er\<close> unset, any frame, either copy.\<close>

lemma on_data_with_idle:
  "df s = None \<Longrightarrow> er s = None \<Longrightarrow>
   on_data_with after frame s = Inl (TypeError, log (Received frame) s)"
  by (simp add: on_data_with_def handler_df_def Let_def log_def)

lemma on_data_with_completes:
  assumes "er s = Some e" "kr s = Some k" "df s = Some d"
    and "\<not> test SBDRING_re line" "\<not> test AREG_re line" "\<not> test ERROR_re line"
    and "test e line" "test k line"
  shows "on_data_with after (Part line) s =
    (case call_df d Null (JString (buffer s @ line @ [LF]))
            ((log (Received (Part line)) s)\<lparr>buffer := buffer s @ line @ [LF]\<rparr>) of
       Inl x \<Rightarrow> Inl x
     | Inr s' \<Rightarrow> Inr (after (s'\<lparr>buffer := []\<rparr>)))"
  using assms by (simp add: on_data_with_def Let_def handler_df_def log_def)

lemma call_df_Caller:
  "call_df (Caller c) a b s = Inr (called (Caller c) a b (clear_tf s))"
  by (simp add: call_df_def)

lemma createIridium_quiet:
  "df createIridium = None" "er createIridium = None" "\<not> debug (globals createIridium)"
  by (simp_all add: createIridium_def)

lemma AT_with_on_createIridium:
  "er (AT_with f (Cmd c) (Some e) (Some k) d (Some 2000) createIridium) = Some e"
  "kr (AT_with f (Cmd c) (Some e) (Some k) d (Some 2000) createIridium) = Some k"
  "df (AT_with f (Cmd c) (Some e) (Some k) d (Some 2000) createIridium) = Some d"
  "buffer (AT_with f (Cmd c) (Some e) (Some k) d (Some 2000) createIridium) = []"
  "\<not> debug (globals (AT_with f (Cmd c) (Some e) (Some k) d (Some 2000) createIridium))"
  "invoked (AT_with f (Cmd c) (Some e) (Some k) d (Some 2000) createIridium) = []"
  by (simp_all add: AT_with_def Let_def setTimeout_def serial_write_def log_def
      effective_timeout_def clear_tf_def createIridium_def)

lemma OK_line:
  "\<not> test SBDRING_re (''OK'' @ [CR])" "\<not> test AREG_re (''OK'' @ [CR])"
  "\<not> test ERROR_re (''OK'' @ [CR])" "test OK_re (''OK'' @ [CR])" "test ALL_re (''OK'' @ [CR])"
  by (simp_all add: starts_with_def CR_def)

text \<open>
  C7. The handler has no branch for "no command pending". With \<^verbatim>\<open>er\<close> unset it calls
  \<^verbatim>\<open>df(null, data)\<close>, the branch that delivers the blob of a binary read, and with \<^verbatim>\<open>df\<close>
  unset as well that call is a TypeError. So the frame \<^verbatim>\<open>SBDRING\r\<close> raises a TypeError
  on a new driver; and in the ES2015 copy also after an exchange has completed
  (\<^verbatim>\<open>AT+CSQ\<close>, answered \<^verbatim>\<open>OK\r\<close>, its callback called once), since the completion has
  set \<^verbatim>\<open>df\<close> and \<^verbatim>\<open>er\<close> to \<^verbatim>\<open>null\<close>.
\<close>

theorem C7_idle_frame_raises:
  "on_data (Part (''SBDRING'' @ [CR])) createIridium = Inl (TypeError, createIridium)
   \<and> (\<exists>s'. on_data (Part (''OK'' @ [CR]))
              (AT (Cmd ''AT+CSQ'') (Some OK_re) (Some ALL_re) (Caller 0) (Some 2000) createIridium) =
            Inr s'
         \<and> invoked s' = [(Caller 0, Null, JString ((''OK'' @ [CR]) @ [LF]))]
         \<and> df s' = None \<and> er s' = None
         \<and> on_data (Part (''SBDRING'' @ [CR])) s' = Inl (TypeError, s'))"
proof
  show "on_data (Part (''SBDRING'' @ [CR])) createIridium = Inl (TypeError, createIridium)"
    unfolding on_data_def
    by (subst on_data_with_idle [OF createIridium_quiet(1,2)])
       (simp only: log_quiet [OF createIridium_quiet(3)])
next
  define line where "line = ''OK'' @ [CR]"
  define c where "c = AT (Cmd ''AT+CSQ'') (Some OK_re) (Some ALL_re) (Caller 0) (Some 2000) createIridium"
  have f: "er c = Some OK_re" "kr c = Some ALL_re" "df c = Some (Caller 0)" "buffer c = []"
    "\<not> debug (globals c)" "invoked c = []"
    by (simp_all only: c_def AT_def AT_with_on_createIridium simp_thms)
  have t: "\<not> test SBDRING_re line" "\<not> test AREG_re line" "\<not> test ERROR_re line"
    "test OK_re line" "test ALL_re line"
    by (simp_all only: line_def OK_line simp_thms)
  let ?s = "forget ((called (Caller 0) Null (JString (buffer c @ line @ [LF]))
      (clear_tf ((log (Received (Part line)) c)\<lparr>buffer := buffer c @ line @ [LF]\<rparr>)))\<lparr>buffer := []\<rparr>)"
  have 1: "on_data (Part line) c = Inr ?s"
    unfolding on_data_def
    by (subst on_data_with_completes [OF f(1,2,3) t]) (simp add: call_df_Caller)
  have 2: "df ?s = None" "er ?s = None" "\<not> debug (globals ?s)"
    "invoked ?s = [(Caller 0, Null, JString (line @ [LF]))]"
    using f(4,5,6)
    by (simp_all add: forget_def called_def clear_tf_def clearTimeout_def log_def split: option.splits)
  have 3: "on_data (Part (''SBDRING'' @ [CR])) ?s = Inl (TypeError, ?s)"
    unfolding on_data_def
    by (subst on_data_with_idle [OF 2(1,2)]) (simp only: log_quiet [OF 2(3)])
  show "\<exists>s'. on_data (Part (''OK'' @ [CR]))
              (AT (Cmd ''AT+CSQ'') (Some OK_re) (Some ALL_re) (Caller 0) (Some 2000) createIridium) =
            Inr s'
         \<and> invoked s' = [(Caller 0, Null, JString ((''OK'' @ [CR]) @ [LF]))]
         \<and> df s' = None \<and> er s' = None
         \<and> on_data (Part (''SBDRING'' @ [CR])) s' = Inl (TypeError, s')"
  proof -
    have "\<exists>s'. on_data (Part line) c = Inr s'
         \<and> invoked s' = [(Caller 0, Null, JString (line @ [LF]))]
         \<and> df s' = None \<and> er s' = None
         \<and> on_data (Part (''SBDRING'' @ [CR])) s' = Inl (TypeError, s')"
      using 1 2 3 by blast
    then show ?thesis unfolding line_def c_def .
  qed
qed

text \<open>
  In \<^verbatim>\<open>index.js\<close> the frame \<^verbatim>\<open>SBDRING\r\<close> raises the same TypeError on a new driver. After
  a completed exchange \<^verbatim>\<open>df\<close> and \<^verbatim>\<open>er\<close> still hold the finished command, and a second
  \<^verbatim>\<open>OK\r\<close> calls its callback a second time.
\<close>

lemma on_data_index_stale:
  "on_data_index (Part (''SBDRING'' @ [CR])) createIridium = Inl (TypeError, createIridium)
   \<and> (\<exists>s' s''. on_data_index (Part (''OK'' @ [CR]))
              (AT_index (Cmd ''AT+CSQ'') (Some OK_re) (Some ALL_re) (Caller 0) (Some 2000) createIridium) =
            Inr s'
         \<and> invoked s' = [(Caller 0, Null, JString ((''OK'' @ [CR]) @ [LF]))]
         \<and> df s' = Some (Caller 0) \<and> er s' = Some OK_re
         \<and> on_data_index (Part (''OK'' @ [CR])) s' = Inr s''
         \<and> invoked s'' = [(Caller 0, Null, JString ((''OK'' @ [CR]) @ [LF])),
                           (Caller 0, Null, JString ((''OK'' @ [CR]) @ [LF]))])"
proof
  show "on_data_index (Part (''SBDRING'' @ [CR])) createIridium = Inl (TypeError, createIridium)"
    unfolding on_data_index_def
    by (subst on_data_with_idle [OF createIridium_quiet(1,2)])
       (simp only: log_quiet [OF createIridium_quiet(3)])
next
  define line where "line = ''OK'' @ [CR]"
  define c where "c = AT_index (Cmd ''AT+CSQ'') (Some OK_re) (Some ALL_re) (Caller 0) (Some 2000) createIridium"
  have f: "er c = Some OK_re" "kr c = Some ALL_re" "df c = Some (Caller 0)" "buffer c = []"
    "\<not> debug (globals c)" "invoked c = []"
    by (simp_all only: c_def AT_index_def AT_with_on_createIridium simp_thms)
  have t: "\<not> test SBDRING_re line" "\<not> test AREG_re line" "\<not> test ERROR_re line"
    "test OK_re line" "test ALL_re line"
    by (simp_all only: line_def OK_line simp_thms)
  let ?s = "(called (Caller 0) Null (JString (buffer c @ line @ [LF]))
      (clear_tf ((log (Received (Part line)) c)\<lparr>buffer := buffer c @ line @ [LF]\<rparr>)))\<lparr>buffer := []\<rparr>"
  have 1: "on_data_index (Part line) c = Inr ?s"
    unfolding on_data_index_def
    by (subst on_data_with_completes [OF f(1,2,3) t]) (simp add: call_df_Caller forget_index_def)
  have 2: "df ?s = Some (Caller 0)" "er ?s = Some OK_re" "kr ?s = Some ALL_re" "buffer ?s = []"
    "invoked ?s = [(Caller 0, Null, JString (line @ [LF]))]"
    using f
    by (simp_all add: called_def clear_tf_def clearTimeout_def log_def split: option.splits)
  let ?t = "(called (Caller 0) Null (JString (buffer ?s @ line @ [LF]))
      (clear_tf ((log (Received (Part line)) ?s)\<lparr>buffer := buffer ?s @ line @ [LF]\<rparr>)))\<lparr>buffer := []\<rparr>"
  have 3: "on_data_index (Part line) ?s = Inr ?t"
    unfolding on_data_index_def
    by (subst on_data_with_completes [OF 2(2,3,1) t]) (simp add: call_df_Caller forget_index_def)
  have 4: "invoked ?t = [(Caller 0, Null, JString (line @ [LF])), (Caller 0, Null, JString (line @ [LF]))]"
    using f
    by (simp add: called_def clear_tf_def clearTimeout_def log_def split: option.splits)
  show "\<exists>s' s''. on_data_index (Part (''OK'' @ [CR]))
              (AT_index (Cmd ''AT+CSQ'') (Some OK_re) (Some ALL_re) (Caller 0) (Some 2000) createIridium) =
            Inr s'
         \<and> invoked s' = [(Caller 0, Null, JString ((''OK'' @ [CR]) @ [LF]))]
         \<and> df s' = Some (Caller 0) \<and> er s' = Some OK_re
         \<and> on_data_index (Part (''OK'' @ [CR])) s' = Inr s''
         \<and> invoked s'' = [(Caller 0, Null, JString ((''OK'' @ [CR]) @ [LF])),
                           (Caller 0, Null, JString ((''OK'' @ [CR]) @ [LF]))]"
  proof -
    have "\<exists>s' s''. on_data_index (Part line) c = Inr s'
         \<and> invoked s' = [(Caller 0, Null, JString (line @ [LF]))]
         \<and> df s' = Some (Caller 0) \<and> er s' = Some OK_re
         \<and> on_data_index (Part line) s' = Inr s''
         \<and> invoked s'' = [(Caller 0, Null, JString (line @ [LF])),
                           (Caller 0, Null, JString (line @ [LF]))]"
      using 1 2 3 4 by blast
    then show ?thesis unfolding line_def c_def .
  qed
qed

subsection \<open>A session status that does not parse\<close>

text \<open>Every text without a match, every state.\<close>

lemma SessionStatus_no_match:
  "\<not> truthy err \<Longrightarrow> match_SBDIX t = None \<Longrightarrow>
   invoke (SessionStatus state callback) err (JString t) s =
     Inl (ReferenceError,
          log ErrorParsingSBDIX (called (SessionStatus state callback) err (JString t) s))"
  by (simp add: Let_def)

lemma match_examples:
  "match_SBDIX [] = None"
  "match_SBDIX (''+SBDIX: 32, 5'' @ [CR, LF]) = None"
  "match_SBDIX (''+SBDIX: 18, 7, 0, 0, 0, 0'' @ [CR, LF]) = Some [''18'', ''7'', ''0'', ''0'', ''0'', ''0'']"
  by (simp_all add: starts_with_def is_digit_def CR_def LF_def eval_nat_numeral Let_def)

text \<open>
  C8. The callback of \<^verbatim>\<open>initiateSession\<close> of a new driver's session, given the text
  \<^verbatim>\<open>+SBDIX: 32, 5\r\n\<close>, which the pattern of six numbers does not match: the run ends
  in a ReferenceError at \<^verbatim>\<open>momsn\<close>. Nothing was written to the serial port, so the
  clear command was not issued, and the only call recorded is the one of this callback
  itself: the caller's callback was not called.
\<close>

theorem C8_unparsed_status_raises:
  "invoke (SessionStatus (new_state (Text ''hello'')) (Caller 0)) Null
     (JString (''+SBDIX: 32, 5'' @ [CR, LF])) createIridium =
   Inl (ReferenceError,
        createIridium\<lparr>invoked := [(SessionStatus (new_state (Text ''hello'')) (Caller 0), Null,
          JString (''+SBDIX: 32, 5'' @ [CR, LF]))]\<rparr>)
   \<and> serial createIridium = []"
proof -
  have n: "\<not> truthy Null" by simp
  have q: "log ErrorParsingSBDIX (called k a b createIridium) =
      createIridium\<lparr>invoked := [(k, a, b)]\<rparr>" for k a b
    by (simp add: log_def called_def createIridium_def)
  have e: "serial createIridium = []"
    by (simp add: createIridium_def)
  show ?thesis
    by (simp only: SessionStatus_no_match [OF n match_examples(2)] q e simp_thms)
qed

subsection \<open>The lock of the mailbox\<close>

lemma AT_with_keeps:
  "lock (AT_with f command e k d t s) = lock s"
  "pending (AT_with f command e k d t s) = pending s"
  "invoked (AT_with f command e k d t s) = invoked s"
  "globals (AT_with f command e k d t s) = globals s"
  "binary (AT_with f command e k d t s) = binary s"
  by (cases command; cases "tf s";
      simp add: AT_with_def Let_def setTimeout_def serial_write_def log_def clear_tf_def
        clearTimeout_def)+

lemma AT_with_serial:
  "serial (AT_with f (Cmd c) e k d t s) = serial s @ [Line (c @ [CR])]"
  "serial (AT_with f (Raw ob) e k d t s) = serial s @ [Bytes ob]"
  by (cases "tf s";
      simp add: AT_with_def Let_def setTimeout_def serial_write_def log_def clear_tf_def
        clearTimeout_def)+

lemma sendMessage_keeps:
  "lock (sendMessage state callback w s) = lock s"
  "pending (sendMessage state callback w s) = pending s"
  "invoked (sendMessage state callback w s) = invoked s"
  by (simp_all add: sendMessage_def AT_def AT_with_keeps Let_def)

lemma sendMessage_empty_serial:
  "serial (sendMessage (new_state (Text [])) callback w s) = serial s @ [Line (''AT+SBDD0'' @ [CR])]"
  by (simp add: sendMessage_def AT_def AT_with_serial Let_def new_state_def set_maxWait_def
      split: option.splits)

lemma lock_keeps [simp]:
  "lock (AT c e k d t s) = lock s"
  "lock (ATS c e k d t s) = lock s"
  "lock (clearMOBuffers d s) = lock s"
  "lock (clearMTBuffers d s) = lock s"
  "lock (waitForNetwork d w s) = lock s"
  "lock (disableSignalMonitoring d s) = lock s"
  "lock (log m s) = lock s"
  "lock (called d a b s) = lock s"
  "lock (emit ev s) = lock s"
  "lock (setTimeout f n s) = lock s"
  "lock (enableBinaryMode n s) = lock s"
  by (simp_all add: AT_def ATS_def clearMOBuffers_def clearMTBuffers_def waitForNetwork_def
      disableSignalMonitoring_def AT_with_keeps log_def called_def emit_def setTimeout_def
      enableBinaryMode_def Let_def)

lemma sendBinaryMessage_keeps:
  "lock (sendBinaryMessage state callback w s) = lock s"
  by (simp add: sendBinaryMessage_def sendMessage_keeps Let_def)

lemma lock_keeps_more [simp]:
  "lock (initiateSession state callback s) = lock s"
  "lock (finishSession callback m s) = lock s"
  "lock (readBinaryMessage q callback s) = lock s"
  "lock (resubmit state callback s) = lock s"
  by (simp_all add: initiateSession_def finishSession_def readBinaryMessage_def resubmit_def
      sendBinaryMessage_keeps sendMessage_keeps Let_def)

lemma final_state_simps [simp]:
  "final_state (Inr s) = s" "final_state (Inl (e, s)) = s"
  by (simp_all add: final_state_def)

lemma invoke_final_unlocked:
  "lock s = 0 \<Longrightarrow> lock (final_state (invoke k a b s)) = 0"
proof (induction k arbitrary: a b s)
  case Absent
  then show ?case by simp
next
  case (Caller c)
  then show ?case by simp
next
  case (MailboxSent buf k)
  then show ?case by (simp add: Let_def)
next
  case (Abort k err)
  then show ?case by simp
next
  case (BinaryReady st k ob)
  then show ?case by (simp add: Let_def)
next
  case (BinaryWritten st k)
  then show ?case by (simp add: Let_def)
next
  case (TextWritten st k w)
  then show ?case by (simp add: Let_def)
next
  case (NetworkUp st k)
  then show ?case by (simp add: Let_def)
next
  case (MonitoringOff st k)
  then show ?case by simp
next
  case (SessionStatus st k)
  then show ?case
    by (cases b; cases "match_SBDIX (case b of JString t \<Rightarrow> t | _ \<Rightarrow> [])")
       (simp_all add: Let_def)
next
  case (Retry st k n name)
  then show ?case by (cases "failCount st") (simp_all add: Let_def)
next
  case (Finish k m)
  then show ?case by simp
next
  case (MtRead q k)
  then show ?case
    by (cases b; cases "readBinaryMessage_decode (case b of JBuffer ib \<Rightarrow> ib | _ \<Rightarrow> [])")
       (simp_all add: Let_def)
next
  case (MtDone k m)
  then show ?case by simp
qed

lemma invoke_keeps_unlocked:
  "lock s = 0 \<Longrightarrow> invoke k a b s = Inr s' \<Longrightarrow> lock s' = 0"
  "lock s = 0 \<Longrightarrow> invoke k a b s = Inl (e, s') \<Longrightarrow> lock s' = 0"
  using invoke_final_unlocked [of s k a b] by simp_all

text \<open>
  C10. \<^verbatim>\<open>mailboxCheck\<close> never changes \<^verbatim>\<open>lock\<close>. With \<^verbatim>\<open>lock\<close> 0 it is the call
  \<^verbatim>\<open>sendMessage({ message: '' })\<close>, which writes \<^verbatim>\<open>AT+SBDD0\<close> to the serial port and
  leaves \<^verbatim>\<open>lock\<close> and \<^verbatim>\<open>pending\<close> alone, so a second \<^verbatim>\<open>mailboxCheck\<close> finds
  \<^verbatim>\<open>lock\<close> 0 again and writes the command again. \<^verbatim>\<open>mailboxSend\<close>, while attempts
  remain, returns with \<^verbatim>\<open>lock\<close> 1; and no callback of the driver, called with
  \<^verbatim>\<open>lock\<close> 0, ends with \<^verbatim>\<open>lock\<close> other than 0.
\<close>

theorem C10_mailboxCheck_keeps_lock:
  "lock (mailboxCheck s) = lock s
   \<and> (lock s = 0 \<longrightarrow>
        mailboxCheck s = sendMessage (new_state (Text [])) Absent None s
        \<and> pending (mailboxCheck s) = pending s
        \<and> serial (mailboxCheck s) = serial s @ [Line (''AT+SBDD0'' @ [CR])]
        \<and> lock (mailboxCheck (mailboxCheck s)) = 0
        \<and> serial (mailboxCheck (mailboxCheck s)) =
            serial s @ [Line (''AT+SBDD0'' @ [CR]), Line (''AT+SBDD0'' @ [CR])])
   \<and> ((case c_attempt s of Some n \<Rightarrow> n + 1 \<le> maxAttempts (globals s) | None \<Rightarrow> False) \<longrightarrow>
        (\<exists>s'. mailboxSend buf callback s = Inr s' \<and> lock s' = 1))
   \<and> (lock s = 0 \<longrightarrow>
        (\<forall>s'. invoke k a b s = Inr s' \<longrightarrow> lock s' = 0)
        \<and> (\<forall>e s'. invoke k a b s = Inl (e, s') \<longrightarrow> lock s' = 0))"
proof (intro conjI impI allI)
  show l: "lock (mailboxCheck s) = lock s" for s
    by (simp add: mailboxCheck_def sendMessage_keeps)
  assume z: "lock s = 0"
  then show e: "mailboxCheck s = sendMessage (new_state (Text [])) Absent None s"
    by (simp add: mailboxCheck_def)
  show "pending (mailboxCheck s) = pending s"
    by (simp add: e sendMessage_keeps)
  show 1: "serial (mailboxCheck s) = serial s @ [Line (''AT+SBDD0'' @ [CR])]"
    by (simp only: e sendMessage_empty_serial)
  have z': "lock (mailboxCheck s) = 0" using z l by simp
  then show "lock (mailboxCheck (mailboxCheck s)) = 0" using l by simp
  have "mailboxCheck (mailboxCheck s) = sendMessage (new_state (Text [])) Absent None (mailboxCheck s)"
    using z' by (simp add: mailboxCheck_def)
  then show "serial (mailboxCheck (mailboxCheck s)) =
      serial s @ [Line (''AT+SBDD0'' @ [CR]), Line (''AT+SBDD0'' @ [CR])]"
    by (simp only: sendMessage_empty_serial 1) simp
next
  assume "case c_attempt s of Some n \<Rightarrow> n + 1 \<le> maxAttempts (globals s) | None \<Rightarrow> False"
  then show "\<exists>s'. mailboxSend buf callback s = Inr s' \<and> lock s' = 1"
    by (auto simp add: mailboxSend_def sendBinaryMessage_keeps Let_def split: option.splits)
next
  fix s' assume "lock s = 0" "invoke k a b s = Inr s'"
  then show "lock s' = 0" by (rule invoke_keeps_unlocked(1))
next
  fix e s' assume "lock s = 0" "invoke k a b s = Inl (e, s')"
  then show "lock s' = 0" by (rule invoke_keeps_unlocked(2))
qed

theorem C10_mailboxCheck_keeps_lock_witness:
  "lock (createIridium\<lparr>c_attempt := Some 0\<rparr>) = 0
   \<and> (case c_attempt (createIridium\<lparr>c_attempt := Some 0\<rparr>) of
         Some n \<Rightarrow> n + 1 \<le> maxAttempts (globals (createIridium\<lparr>c_attempt := Some 0\<rparr>))
       | None \<Rightarrow> False)
   \<and> lock (mailboxCheck (mailboxCheck (createIridium\<lparr>c_attempt := Some 0\<rparr>))) = 0
   \<and> serial (mailboxCheck (mailboxCheck (createIridium\<lparr>c_attempt := Some 0\<rparr>))) =
        [Line (''AT+SBDD0'' @ [CR]), Line (''AT+SBDD0'' @ [CR])]
   \<and> (\<exists>s'. mailboxSend (Binary [0x01]) (Caller 0) (createIridium\<lparr>c_attempt := Some 0\<rparr>) = Inr s'
         \<and> lock s' = 1)"
proof -
  define s where "s = createIridium\<lparr>c_attempt := Some 0\<rparr>"
  have a: "lock s = 0"
    and b: "serial s = []"
    and c: "case c_attempt s of Some n \<Rightarrow> n + 1 \<le> maxAttempts (globals s) | None \<Rightarrow> False"
    by (simp_all add: s_def createIridium_def)
  note t = C10_mailboxCheck_keeps_lock [of s "Binary [0x01]" "Caller 0" "Caller 0" Null Undefined]
  from t a have 1: "lock (mailboxCheck (mailboxCheck s)) = 0"
    and "serial (mailboxCheck (mailboxCheck s)) =
      serial s @ [Line (''AT+SBDD0'' @ [CR]), Line (''AT+SBDD0'' @ [CR])]"
    by blast+
  then have 2: "serial (mailboxCheck (mailboxCheck s)) =
      [Line (''AT+SBDD0'' @ [CR]), Line (''AT+SBDD0'' @ [CR])]"
    by (simp only: b append_Nil)
  from t c have 3: "\<exists>s'. mailboxSend (Binary [0x01]) (Caller 0) s = Inr s' \<and> lock s' = 1"
    by blast
  have "lock s = 0
   \<and> (case c_attempt s of Some n \<Rightarrow> n + 1 \<le> maxAttempts (globals s) | None \<Rightarrow> False)
   \<and> lock (mailboxCheck (mailboxCheck s)) = 0
   \<and> serial (mailboxCheck (mailboxCheck s)) =
        [Line (''AT+SBDD0'' @ [CR]), Line (''AT+SBDD0'' @ [CR])]
   \<and> (\<exists>s'. mailboxSend (Binary [0x01]) (Caller 0) s = Inr s' \<and> lock s' = 1)"
    using a c 1 2 3 by blast
  then show ?thesis unfolding s_def .
qed

subsection \<open>Runs of the handler\<close>

text \<open>
  What the handler does with one line, by the patterns of the pending command, and the
  fields of the state that a command and a call leave as they are.
\<close>

lemma handler_run_append:
  "handler_run h (a @ b) s =
     (case handler_run h a s of Inl e \<Rightarrow> Inl e | Inr s' \<Rightarrow> handler_run h b s')"
  by (induction a arbitrary: s) (auto split: sum.splits)

lemma handler_run_single: "handler_run h [f] s = h f s"
  by (cases "h f s") simp_all

lemma handler_run_next: "h f s = Inr s1 \<Longrightarrow> handler_run h (f # fs) s = handler_run h fs s1"
  by simp

lemma handler_run_then:
  "handler_run h a s = Inr s1 \<Longrightarrow> handler_run h (a @ b) s = handler_run h b s1"
  by (simp add: handler_run_append)

lemma AT_with_command:
  "df (AT_with f c e k d t s) = Some d"
  "er (AT_with f c e k d t s) = e"
  "kr (AT_with f c e k d t s) = k"
  "buffer (AT_with f c e k d t s) = buffer s"
  "serial (AT_with f c e k d t s) = serial s @ [written c]"
  by (cases c; cases "tf s";
      simp add: AT_with_def Let_def setTimeout_def serial_write_def log_def clear_tf_def
        clearTimeout_def written_def)+

lemma command_AT [simp]:
  "df (AT c e k d t s) = Some d"
  "er (AT c e k d t s) = e"
  "kr (AT c e k d t s) = k"
  "buffer (AT c e k d t s) = buffer s"
  "serial (AT c e k d t s) = serial s @ [written c]"
  "invoked (AT c e k d t s) = invoked s"
  by (simp_all add: AT_def AT_with_command AT_with_keeps)

lemma written_simps [simp]:
  "written (Cmd c) = Line (c @ [CR])"
  "written (Raw ob) = Bytes ob"
  by (simp_all add: written_def)

lemma fields_log [simp]:
  "df (log m s) = df s" "er (log m s) = er s" "kr (log m s) = kr s"
  "buffer (log m s) = buffer s" "serial (log m s) = serial s" "tf (log m s) = tf s"
  by (simp_all add: log_def)

lemma fields_called [simp]:
  "df (called d a b s) = df s" "er (called d a b s) = er s" "kr (called d a b s) = kr s"
  "buffer (called d a b s) = buffer s" "serial (called d a b s) = serial s"
  "invoked (called d a b s) = invoked s @ [(d, a, b)]"
  by (simp_all add: called_def)

lemma fields_clear_tf [simp]:
  "buffer (clear_tf s) = buffer s" "serial (clear_tf s) = serial s"
  "invoked (clear_tf s) = invoked s" "lock (clear_tf s) = lock s"
  "pending (clear_tf s) = pending s"
  by (cases "tf s"; simp add: clear_tf_def clearTimeout_def)+

lemma fields_forget [simp]:
  "df (forget s) = None" "er (forget s) = None" "serial (forget s) = serial s"
  "invoked (forget s) = invoked s" "lock (forget s) = lock s" "pending (forget s) = pending s"
  "timers (forget s) = timers s" "forget_index s = s"
  by (simp_all add: forget_def forget_index_def)

lemma caller_calls_simps [simp]:
  "caller_calls (clear_tf s) = caller_calls s"
  "caller_calls (log m s) = caller_calls s"
  "caller_calls (s\<lparr>messagePending := n\<rparr>) = caller_calls s"
  "caller_calls (s\<lparr>buffer := x\<rparr>) = caller_calls s"
  "caller_calls (AT c e k d t s) = caller_calls s"
  "caller_calls (called (Caller n) a b s) = caller_calls s @ [(Caller n, a, b)]"
  by (simp_all add: caller_calls_def log_def)

lemma caller_calls_internal [simp]:
  "(case k of Caller n \<Rightarrow> False | _ \<Rightarrow> True) \<Longrightarrow> caller_calls (called k a b s) = caller_calls s"
  by (cases k) (simp_all add: caller_calls_def called_def)

text \<open>What the handler does with a line, by what the patterns of the pending command say.\<close>

lemma on_data_with_kept:
  assumes "er s = Some e" "kr s = Some k"
    and "\<not> test SBDRING_re line" "\<not> test AREG_re line" "\<not> test ERROR_re line"
    and "test k line" "\<not> test e line"
  shows "on_data_with after (Part line) s =
    Inr ((log (Received (Part line)) s)\<lparr>buffer := buffer s @ line @ [LF]\<rparr>)"
  using assms by (simp add: on_data_with_def Let_def log_def)

lemma on_data_with_ends:
  assumes "er s = Some e" "kr s = Some k" "df s = Some d"
    and "\<not> test SBDRING_re line" "\<not> test AREG_re line" "\<not> test ERROR_re line"
    and "test e line" "\<not> test k line"
  shows "on_data_with after (Part line) s =
    (case call_df d Null (JString (buffer s)) (log (Received (Part line)) s) of
       Inl x \<Rightarrow> Inl x
     | Inr s' \<Rightarrow> Inr (after (s'\<lparr>buffer := []\<rparr>)))"
  using assms by (simp add: on_data_with_def Let_def handler_df_def log_def)

lemma line_tests:
  "\<not> test SBDRING_re (''OK'' @ [CR])" "\<not> test AREG_re (''OK'' @ [CR])"
  "\<not> test ERROR_re (''OK'' @ [CR])" "test OK_re (''OK'' @ [CR])"
  "\<not> test SBDIX_re (''OK'' @ [CR])"
  "\<not> test SBDRING_re (''READY'' @ [CR])" "\<not> test AREG_re (''READY'' @ [CR])"
  "\<not> test ERROR_re (''READY'' @ [CR])" "test READY_re (''READY'' @ [CR])"
  "\<not> test SBDRING_re (''+CIEV:0,1'' @ [CR])" "\<not> test AREG_re (''+CIEV:0,1'' @ [CR])"
  "\<not> test ERROR_re (''+CIEV:0,1'' @ [CR])" "test CIEV_re (''+CIEV:0,1'' @ [CR])"
  "\<not> test SBDRING_re (''+SBDIX: 18, 7, 0, 0, 0, 0'' @ [CR])"
  "\<not> test AREG_re (''+SBDIX: 18, 7, 0, 0, 0, 0'' @ [CR])"
  "\<not> test ERROR_re (''+SBDIX: 18, 7, 0, 0, 0, 0'' @ [CR])"
  "test SBDIX_re (''+SBDIX: 18, 7, 0, 0, 0, 0'' @ [CR])"
  "\<not> test OK_re (''+SBDIX: 18, 7, 0, 0, 0, 0'' @ [CR])"
  "test ALL_re line"
  by (simp_all add: starts_with_def CR_def)

lemma SessionStatus_failed:
  "match_SBDIX t = Some m \<Longrightarrow> Number (m ! 0) = 18 \<Longrightarrow>
   invoke (SessionStatus st cb) Null (JString t) s =
    Inr (clearMOBuffers (Retry st cb (maxTries_or_3 st) ''radio failure'')
           ((log MOFailedRadio (called (SessionStatus st cb) Null (JString t) s))
              \<lparr>messagePending := 1\<rparr>))"
  by (simp add: Let_def)

lemma SessionStatus_18:
  "invoke (SessionStatus st cb) Null (JString (''+SBDIX: 18, 7, 0, 0, 0, 0'' @ [CR, LF])) s =
    Inr (clearMOBuffers (Retry st cb (maxTries_or_3 st) ''radio failure'')
           ((log MOFailedRadio
               (called (SessionStatus st cb) Null
                  (JString (''+SBDIX: 18, 7, 0, 0, 0, 0'' @ [CR, LF])) s))
              \<lparr>messagePending := 1\<rparr>))"
  by (rule SessionStatus_failed [OF match_examples(3)]) (simp add: Number_def)

lemma fields_clearMOBuffers [simp]:
  "df (clearMOBuffers d s) = Some d" "er (clearMOBuffers d s) = Some OK_re"
  "kr (clearMOBuffers d s) = Some ALL_re" "buffer (clearMOBuffers d s) = buffer s"
  "serial (clearMOBuffers d s) = serial s @ [Line (''AT+SBDD0'' @ [CR])]"
  "invoked (clearMOBuffers d s) = invoked s"
  "caller_calls (clearMOBuffers d s) = caller_calls s"
  by (simp_all add: clearMOBuffers_def ATS_def)

text \<open>The status line is kept, and the \<^verbatim>\<open>OK\<close> after it ends the exchange.\<close>

lemma session_reply:
  assumes a: "awaiting (SessionStatus st cb) OK_re SBDIX_re s"
  shows "handler_run (on_data_with after)
      [Part (''+SBDIX: 18, 7, 0, 0, 0, 0'' @ [CR]), Part (''OK'' @ [CR])] s =
    Inr (after ((clearMOBuffers (Retry st cb (maxTries_or_3 st) ''radio failure'')
           ((log MOFailedRadio
               (called (SessionStatus st cb) Null
                  (JString (''+SBDIX: 18, 7, 0, 0, 0, 0'' @ [CR, LF]))
                  (clear_tf (log (Received (Part (''OK'' @ [CR])))
                     ((log (Received (Part (''+SBDIX: 18, 7, 0, 0, 0, 0'' @ [CR]))) s)
                        \<lparr>buffer := ''+SBDIX: 18, 7, 0, 0, 0, 0'' @ [CR, LF]\<rparr>)))))
              \<lparr>messagePending := 1\<rparr>))\<lparr>buffer := []\<rparr>))"
proof -
  define line where "line = ''+SBDIX: 18, 7, 0, 0, 0, 0'' @ [CR]"
  define s1 where "s1 = (log (Received (Part line)) s)
      \<lparr>buffer := ''+SBDIX: 18, 7, 0, 0, 0, 0'' @ [CR, LF]\<rparr>"
  define ok where "ok = Part (''OK'' @ [CR])"
  from a have f: "df s = Some (SessionStatus st cb)" "er s = Some OK_re" "kr s = Some SBDIX_re"
    "buffer s = []" by (simp_all add: awaiting_def)
  have 1: "on_data_with after (Part line) s = Inr s1"
    unfolding s1_def line_def
    using on_data_with_kept [OF f(2,3) line_tests(14,15,16,17,18), of after] f(4) by simp
  have g: "er s1 = Some OK_re" "kr s1 = Some SBDIX_re" "df s1 = Some (SessionStatus st cb)"
    "buffer s1 = ''+SBDIX: 18, 7, 0, 0, 0, 0'' @ [CR, LF]"
    by (simp_all add: s1_def f)
  have 2: "on_data_with after ok s1 =
    (case call_df (SessionStatus st cb) Null (JString (''+SBDIX: 18, 7, 0, 0, 0, 0'' @ [CR, LF]))
            (log (Received ok) s1) of
       Inl x \<Rightarrow> Inl x
     | Inr s' \<Rightarrow> Inr (after (s'\<lparr>buffer := []\<rparr>)))"
    unfolding ok_def
    using on_data_with_ends [OF g(1,2,3) line_tests(1,2,3,4,5), of after] g(4) by simp
  have "handler_run (on_data_with after) [Part line, ok] s = on_data_with after ok s1"
    by (simp only: handler_run_next [of "on_data_with after" "Part line" s s1, OF 1]
        handler_run_single)
  also have "\<dots> = Inr (after ((clearMOBuffers (Retry st cb (maxTries_or_3 st) ''radio failure'')
           ((log MOFailedRadio
               (called (SessionStatus st cb) Null
                  (JString (''+SBDIX: 18, 7, 0, 0, 0, 0'' @ [CR, LF]))
                  (clear_tf (log (Received ok) s1))))
              \<lparr>messagePending := 1\<rparr>))\<lparr>buffer := []\<rparr>))"
    by (simp only: 2 call_df_def SessionStatus_18 sum.case)
  finally show ?thesis
    unfolding s1_def line_def ok_def .
qed

lemma wiped_by_ES2015:
  assumes a: "awaiting (SessionStatus st cb) OK_re SBDIX_re s"
  shows "\<exists>s'. handler_run on_data failed_session_frames s = Inl (TypeError, s')
    \<and> serial s' = serial s @ [Line (''AT+SBDD0'' @ [CR])]
    \<and> invoked s' = invoked s @ [(SessionStatus st cb, Null,
          JString (''+SBDIX: 18, 7, 0, 0, 0, 0'' @ [CR, LF]))]
    \<and> df s' = None"
proof -
  define s2 where "s2 = forget ((clearMOBuffers (Retry st cb (maxTries_or_3 st) ''radio failure'')
           ((log MOFailedRadio
               (called (SessionStatus st cb) Null
                  (JString (''+SBDIX: 18, 7, 0, 0, 0, 0'' @ [CR, LF]))
                  (clear_tf (log (Received (Part (''OK'' @ [CR])))
                     ((log (Received (Part (''+SBDIX: 18, 7, 0, 0, 0, 0'' @ [CR]))) s)
                        \<lparr>buffer := ''+SBDIX: 18, 7, 0, 0, 0, 0'' @ [CR, LF]\<rparr>)))))
              \<lparr>messagePending := 1\<rparr>))\<lparr>buffer := []\<rparr>)"
  have h: "on_data = on_data_with forget" by (rule ext, rule ext) (simp add: on_data_def)
  have 1: "handler_run on_data
      [Part (''+SBDIX: 18, 7, 0, 0, 0, 0'' @ [CR]), Part (''OK'' @ [CR])] s = Inr s2"
    unfolding h s2_def by (rule session_reply [OF a])
  have d: "df s2 = None" "er s2 = None" by (simp_all add: s2_def)
  have 2: "on_data (Part (''OK'' @ [CR])) s2 =
      Inl (TypeError, log (Received (Part (''OK'' @ [CR]))) s2)"
    unfolding on_data_def by (rule on_data_with_idle [OF d])
  have fs: "failed_session_frames =
      [Part (''+SBDIX: 18, 7, 0, 0, 0, 0'' @ [CR]), Part (''OK'' @ [CR])] @ [Part (''OK'' @ [CR])]"
    by (simp add: failed_session_frames_def)
  have r: "handler_run on_data failed_session_frames s =
      Inl (TypeError, log (Received (Part (''OK'' @ [CR]))) s2)"
    unfolding fs handler_run_then [of on_data _ s s2, OF 1] handler_run_single by (rule 2)
  have "serial s2 = serial s @ [Line (''AT+SBDD0'' @ [CR])]"
    by (simp add: s2_def)
  moreover have "invoked s2 = invoked s @ [(SessionStatus st cb, Null,
          JString (''+SBDIX: 18, 7, 0, 0, 0, 0'' @ [CR, LF]))]"
    by (simp add: s2_def)
  ultimately show ?thesis
    using r d(1) by simp
qed

subsection \<open>Texts made of Buffers\<close>

text \<open>
  The bytes \<^verbatim>\<open>c3 a9\<close> are one character, a byte that cannot start a sequence is the
  replacement character, and a sequence cut short is one replacement character. A
  message that is a string goes into the command as it is.
\<close>

lemma toString_utf8_examples:
  "toString_utf8 [0xC3, 0xA9] = [0xE9]"
  "toString_utf8 [0x41, 0xFF, 0x42] = [0x41, 0xFFFD, 0x42]"
  "toString_utf8 [0xE2, 0x82, 0xAC] = [0x20AC]"
  "toString_utf8 [0xE2, 0x82] = [0xFFFD]"
  "toString_utf8 [] = []"
  by (simp_all add: toString_utf8_def utf8_lead_def)

lemma sendMessage_of_Buffer:
  "serial (sendMessage (new_state (Binary [0xC3, 0xA9])) cb None s) =
     serial s @ [Line (''AT+SBDWT='' @ [char_of (0xE9 :: nat)] @ [CR])]"
  "serial (sendMessage (new_state (Binary [0x41, 0xFF])) cb None s) =
     serial s @ [Line_points (map of_char ''AT+SBDWT='' @ [0x41, 0xFFFD, 13])]"
  by (simp_all add: sendMessage_def new_state_def set_maxWait_def template_def
      toString_utf8_def utf8_lead_def written_def)

lemma template_text: "template p (payload_text (Text t)) = Cmd (p @ t)"
proof -
  have "list_all (\<lambda>c. c < 256) (map of_char t :: nat list)"
    by (induction t) simp_all
  moreover have "map char_of (map of_char t :: nat list) = t"
    by (induction t) simp_all
  ultimately show ?thesis by (simp add: template_def)
qed

subsection \<open>The retry policy\<close>

text \<open>
  A retry submits the object \<^verbatim>\<open>state\<close> it was given, through \<^verbatim>\<open>sendBinaryMessage\<close> if
  \<^verbatim>\<open>state.binaryMessage\<close> is set and through \<^verbatim>\<open>sendMessage\<close> if not, with
  \<^verbatim>\<open>state.maxWait\<close> as the third argument.
\<close>

lemma set_maxWait_own [simp]: "set_maxWait (maxWait st) st = st"
  by (cases "maxWait st") (simp_all add: set_maxWait_def)

lemma binaryMessage_own: "binaryMessage st \<Longrightarrow> st\<lparr>binaryMessage := True\<rparr> = st"
  by (cases st) simp

lemma failCount_own: "failCount st = Some n \<Longrightarrow> st\<lparr>failCount := Some n\<rparr> = st"
  by (cases st) simp

lemma initiateSession_again:
  "failCount st = Some n \<Longrightarrow>
   initiateSession st cb s =
     AT (Cmd ''AT+SBDIX'') (Some OK_re) (Some SBDIX_re) (SessionStatus st cb) None s"
  by (simp add: initiateSession_def failCount_own)

lemma resubmit_text:
  "\<not> binary_path st \<Longrightarrow>
   resubmit st cb s =
     AT (if payload_truthy (message st)
         then template ''AT+SBDWT='' (payload_text (message st)) else Cmd ''AT+SBDD0'')
        (Some OK_re) (Some ALL_re) (TextWritten st cb (maxWait st)) None s"
  by (auto simp add: resubmit_def binary_path_def sendBinaryMessage_def sendMessage_def Let_def
      binaryMessage_own)

lemma resubmit_binary:
  "binary_path st \<Longrightarrow>
   resubmit st cb s =
     AT (Cmd (''AT+SBDWB='' @ decimal (length (payload_bytes (message st)))))
        (Some READY_re) (Some ALL_re)
        (BinaryReady st cb (sendBinaryMessage_ob (payload_bytes (message st)))) None s"
  by (auto simp add: resubmit_def binary_path_def sendBinaryMessage_def Let_def binaryMessage_own)

lemma fields_ATS [simp]:
  "df (ATS c e k d t s) = Some d"
  "er (ATS c e k d t s) = e"
  "kr (ATS c e k d t s) = k"
  "buffer (ATS c e k d t s) = buffer s"
  "serial (ATS c e k d t s) = serial s @ [written c]"
  "caller_calls (ATS c e k d t s) = caller_calls s"
  by (simp_all add: ATS_def)

lemma fields_waitForNetwork [simp]:
  "df (waitForNetwork d w s) = Some d" "er (waitForNetwork d w s) = Some CIEV_re"
  "kr (waitForNetwork d w s) = Some ALL_re" "buffer (waitForNetwork d w s) = buffer s"
  "serial (waitForNetwork d w s) = serial s @ [Line (''AT+CIER=1,1,0,0'' @ [CR])]"
  "caller_calls (waitForNetwork d w s) = caller_calls s"
  by (simp_all add: waitForNetwork_def)

lemma fields_disableSignalMonitoring [simp]:
  "df (disableSignalMonitoring d s) = Some d" "er (disableSignalMonitoring d s) = Some OK_re"
  "kr (disableSignalMonitoring d s) = Some ALL_re"
  "buffer (disableSignalMonitoring d s) = buffer s"
  "serial (disableSignalMonitoring d s) = serial s @ [Line (''AT+CIER=0,0,0,0'' @ [CR])]"
  "caller_calls (disableSignalMonitoring d s) = caller_calls s"
  by (simp_all add: disableSignalMonitoring_def)

text \<open>In \<^verbatim>\<open>index.js\<close> a line that ends the reply calls \<^verbatim>\<open>df\<close>, and the command it issues stays.\<close>

lemma on_data_index_completes:
  assumes a: "awaiting d e ALL_re s"
    and l: "\<not> test SBDRING_re line" "\<not> test AREG_re line" "\<not> test ERROR_re line" "test e line"
  shows "on_data_index (Part line) s =
    (case invoke d Null (JString (line @ [LF]))
            (clear_tf ((log (Received (Part line)) s)\<lparr>buffer := line @ [LF]\<rparr>)) of
       Inl x \<Rightarrow> Inl x
     | Inr s' \<Rightarrow> Inr (s'\<lparr>buffer := []\<rparr>))"
proof -
  from a have f: "er s = Some e" "kr s = Some ALL_re" "df s = Some d" "buffer s = []"
    by (simp_all add: awaiting_def)
  have k: "test ALL_re line" by simp
  show ?thesis
    unfolding on_data_index_def on_data_with_completes [OF f(1,2,3) l(1,2,3,4) k] call_df_def f(4)
    by (simp split: sum.splits)
qed

lemma index_TextWritten:
  assumes a: "awaiting (TextWritten st cb w) OK_re ALL_re s"
  shows "\<exists>s'. on_data_index (Part (''OK'' @ [CR])) s = Inr s'
    \<and> awaiting (NetworkUp st cb) CIEV_re ALL_re s'
    \<and> serial s' = serial s @ [Line (''AT+CIER=1,1,0,0'' @ [CR])]
    \<and> caller_calls s' = caller_calls s"
  unfolding on_data_index_completes [OF a line_tests(1,2,3,4)]
  by (simp add: awaiting_def Let_def)

lemma index_BinaryReady:
  assumes a: "awaiting (BinaryReady st cb ob) READY_re ALL_re s"
  shows "\<exists>s'. on_data_index (Part (''READY'' @ [CR])) s = Inr s'
    \<and> awaiting (BinaryWritten st cb) OK_re ALL_re s'
    \<and> serial s' = serial s @ [Bytes ob]
    \<and> caller_calls s' = caller_calls s"
  unfolding on_data_index_completes [OF a line_tests(6,7,8,9)]
  by (simp add: awaiting_def Let_def)

lemma index_BinaryWritten:
  assumes a: "awaiting (BinaryWritten st cb) OK_re ALL_re s"
  shows "\<exists>s'. on_data_index (Part (''OK'' @ [CR])) s = Inr s'
    \<and> awaiting (NetworkUp st cb) CIEV_re ALL_re s'
    \<and> serial s' = serial s @ [Line (''AT+CIER=1,1,0,0'' @ [CR])]
    \<and> caller_calls s' = caller_calls s"
  unfolding on_data_index_completes [OF a line_tests(1,2,3,4)]
  by (simp add: awaiting_def Let_def)

lemma index_NetworkUp:
  assumes a: "awaiting (NetworkUp st cb) CIEV_re ALL_re s"
  shows "\<exists>s'. on_data_index (Part (''+CIEV:0,1'' @ [CR])) s = Inr s'
    \<and> awaiting (MonitoringOff st cb) OK_re ALL_re s'
    \<and> serial s' = serial s @ [Line (''AT+CIER=0,0,0,0'' @ [CR])]
    \<and> caller_calls s' = caller_calls s"
  unfolding on_data_index_completes [OF a line_tests(10,11,12,13)]
  by (simp add: awaiting_def Let_def)

lemma index_MonitoringOff:
  assumes a: "awaiting (MonitoringOff st cb) OK_re ALL_re s" and f: "failCount st = Some n"
  shows "\<exists>s'. on_data_index (Part (''OK'' @ [CR])) s = Inr s'
    \<and> awaiting (SessionStatus st cb) OK_re SBDIX_re s'
    \<and> serial s' = serial s @ [Line (''AT+SBDIX'' @ [CR])]
    \<and> caller_calls s' = caller_calls s"
  unfolding on_data_index_completes [OF a line_tests(1,2,3,4)]
  by (simp add: awaiting_def initiateSession_again [OF f])

lemma index_Retry_again:
  assumes a: "awaiting (Retry st cb mx name) OK_re ALL_re s"
    and f: "failCount st = Some n" and l: "n < mx"
  shows "\<exists>s'. on_data_index (Part (''OK'' @ [CR])) s =
        Inr ((resubmit (st\<lparr>failCount := Some (n + 1)\<rparr>) cb s')\<lparr>buffer := []\<rparr>)
    \<and> serial s' = serial s \<and> caller_calls s' = caller_calls s"
proof -
  define s0 where "s0 = clear_tf ((log (Received (Part (''OK'' @ [CR]))) s)
      \<lparr>buffer := (''OK'' @ [CR]) @ [LF]\<rparr>)"
  define s1 where "s1 = log (RetryMessage (n + 1) mx) (called (Retry st cb mx name) Null
      (JString ((''OK'' @ [CR]) @ [LF])) s0)"
  have i: "invoke (Retry st cb mx name) Null (JString ((''OK'' @ [CR]) @ [LF])) s0 =
      Inr (resubmit (st\<lparr>failCount := Some (n + 1)\<rparr>) cb s1)"
    using f l by (simp add: Let_def s1_def)
  have "on_data_index (Part (''OK'' @ [CR])) s =
      Inr ((resubmit (st\<lparr>failCount := Some (n + 1)\<rparr>) cb s1)\<lparr>buffer := []\<rparr>)"
    unfolding on_data_index_completes [OF a line_tests(1,2,3,4)] s0_def [symmetric] i by simp
  moreover have "serial s1 = serial s" "caller_calls s1 = caller_calls s"
    by (simp_all add: s1_def s0_def)
  ultimately show ?thesis by blast
qed

lemma index_Retry_stop:
  assumes a: "awaiting (Retry st (Caller c) mx name) OK_re ALL_re s"
    and f: "failCount st = Some n" and l: "\<not> n < mx"
  shows "\<exists>s'. on_data_index (Part (''OK'' @ [CR])) s = Inr s'
    \<and> serial s' = serial s
    \<and> caller_calls s' = caller_calls s @ [(Caller c, JString name, Undefined)]"
proof -
  define s0 where "s0 = clear_tf ((log (Received (Part (''OK'' @ [CR]))) s)
      \<lparr>buffer := (''OK'' @ [CR]) @ [LF]\<rparr>)"
  define s1 where "s1 = called (Caller c) (JString name) Undefined
      (called (Retry st (Caller c) mx name) Null (JString ((''OK'' @ [CR]) @ [LF])) s0)"
  have i: "invoke (Retry st (Caller c) mx name) Null (JString ((''OK'' @ [CR]) @ [LF])) s0 = Inr s1"
    using f l by (simp add: Let_def s1_def)
  have "on_data_index (Part (''OK'' @ [CR])) s = Inr (s1\<lparr>buffer := []\<rparr>)"
    unfolding on_data_index_completes [OF a line_tests(1,2,3,4)] s0_def [symmetric] i by simp
  moreover have "serial (s1\<lparr>buffer := []\<rparr>) = serial s"
    "caller_calls (s1\<lparr>buffer := []\<rparr>) = caller_calls s @ [(Caller c, JString name, Undefined)]"
    by (simp_all add: s1_def s0_def)
  ultimately show ?thesis by blast
qed

lemma binary_path_failCount [simp]: "binary_path (st\<lparr>failCount := x\<rparr>) = binary_path st"
  by (simp add: binary_path_def)

lemma round_failCount [simp]:
  "submission_writes (st\<lparr>failCount := x\<rparr>) = submission_writes st"
  "submission_frames (st\<lparr>failCount := x\<rparr>) = submission_frames st"
  "round_writes (st\<lparr>failCount := x\<rparr>) = round_writes st"
  "round_frames (st\<lparr>failCount := x\<rparr>) = round_frames st"
  "maxTries_or_3 (st\<lparr>failCount := x\<rparr>) = maxTries_or_3 st"
  by (simp_all add: submission_writes_def submission_frames_def round_writes_def round_frames_def
      maxTries_or_3_def)

lemma index_submission_text:
  assumes p: "\<not> binary_path st" and f: "failCount st = Some n"
  shows "\<exists>s'. handler_run on_data_index (submission_frames st)
            ((resubmit st cb s)\<lparr>buffer := []\<rparr>) = Inr s'
    \<and> awaiting (SessionStatus st cb) OK_re SBDIX_re s'
    \<and> serial s' = serial s @ submission_writes st
    \<and> caller_calls s' = caller_calls s"
proof -
  define c where "c = (if payload_truthy (message st)
      then template ''AT+SBDWT='' (payload_text (message st)) else Cmd ''AT+SBDD0'')"
  define s0 where "s0 = (resubmit st cb s)\<lparr>buffer := []\<rparr>"
  have s0: "awaiting (TextWritten st cb (maxWait st)) OK_re ALL_re s0"
    "serial s0 = serial s @ [written c]" "caller_calls s0 = caller_calls s"
    unfolding s0_def resubmit_text [OF p] c_def by (simp_all add: awaiting_def)
  from index_TextWritten [OF s0(1)] obtain s1 where s1:
    "on_data_index (Part (''OK'' @ [CR])) s0 = Inr s1"
    "awaiting (NetworkUp st cb) CIEV_re ALL_re s1"
    "serial s1 = serial s0 @ [Line (''AT+CIER=1,1,0,0'' @ [CR])]"
    "caller_calls s1 = caller_calls s0" by blast
  from index_NetworkUp [OF s1(2)] obtain s2 where s2:
    "on_data_index (Part (''+CIEV:0,1'' @ [CR])) s1 = Inr s2"
    "awaiting (MonitoringOff st cb) OK_re ALL_re s2"
    "serial s2 = serial s1 @ [Line (''AT+CIER=0,0,0,0'' @ [CR])]"
    "caller_calls s2 = caller_calls s1" by blast
  from index_MonitoringOff [OF s2(2) f] obtain s3 where s3:
    "on_data_index (Part (''OK'' @ [CR])) s2 = Inr s3"
    "awaiting (SessionStatus st cb) OK_re SBDIX_re s3"
    "serial s3 = serial s2 @ [Line (''AT+SBDIX'' @ [CR])]"
    "caller_calls s3 = caller_calls s2" by blast
  have fr: "submission_frames st =
      [Part (''OK'' @ [CR]), Part (''+CIEV:0,1'' @ [CR]), Part (''OK'' @ [CR])]"
    using p by (simp add: submission_frames_def)
  have "handler_run on_data_index (submission_frames st) s0 = Inr s3"
    unfolding fr
      handler_run_next [of on_data_index _ s0 s1, OF s1(1)]
      handler_run_next [of on_data_index _ s1 s2, OF s2(1)]
      handler_run_next [of on_data_index _ s2 s3, OF s3(1)]
    by simp
  moreover have "serial s3 = serial s @ submission_writes st"
    using p by (simp add: s3(3) s2(3) s1(3) s0(2) submission_writes_def c_def)
  moreover have "caller_calls s3 = caller_calls s"
    by (simp add: s3(4) s2(4) s1(4) s0(3))
  ultimately show ?thesis
    using s3(2) unfolding s0_def by blast
qed

lemma index_submission_binary:
  assumes p: "binary_path st" and f: "failCount st = Some n"
  shows "\<exists>s'. handler_run on_data_index (submission_frames st)
            ((resubmit st cb s)\<lparr>buffer := []\<rparr>) = Inr s'
    \<and> awaiting (SessionStatus st cb) OK_re SBDIX_re s'
    \<and> serial s' = serial s @ submission_writes st
    \<and> caller_calls s' = caller_calls s"
proof -
  define c where "c = ''AT+SBDWB='' @ decimal (length (payload_bytes (message st)))"
  define ob where "ob = sendBinaryMessage_ob (payload_bytes (message st))"
  define s0 where "s0 = (resubmit st cb s)\<lparr>buffer := []\<rparr>"
  have s0: "awaiting (BinaryReady st cb ob) READY_re ALL_re s0"
    "serial s0 = serial s @ [Line (c @ [CR])]" "caller_calls s0 = caller_calls s"
    unfolding s0_def resubmit_binary [OF p] c_def ob_def by (simp_all add: awaiting_def)
  from index_BinaryReady [OF s0(1)] obtain s1 where s1:
    "on_data_index (Part (''READY'' @ [CR])) s0 = Inr s1"
    "awaiting (BinaryWritten st cb) OK_re ALL_re s1"
    "serial s1 = serial s0 @ [Bytes ob]"
    "caller_calls s1 = caller_calls s0" by blast
  from index_BinaryWritten [OF s1(2)] obtain s2 where s2:
    "on_data_index (Part (''OK'' @ [CR])) s1 = Inr s2"
    "awaiting (NetworkUp st cb) CIEV_re ALL_re s2"
    "serial s2 = serial s1 @ [Line (''AT+CIER=1,1,0,0'' @ [CR])]"
    "caller_calls s2 = caller_calls s1" by blast
  from index_NetworkUp [OF s2(2)] obtain s3 where s3:
    "on_data_index (Part (''+CIEV:0,1'' @ [CR])) s2 = Inr s3"
    "awaiting (MonitoringOff st cb) OK_re ALL_re s3"
    "serial s3 = serial s2 @ [Line (''AT+CIER=0,0,0,0'' @ [CR])]"
    "caller_calls s3 = caller_calls s2" by blast
  from index_MonitoringOff [OF s3(2) f] obtain s4 where s4:
    "on_data_index (Part (''OK'' @ [CR])) s3 = Inr s4"
    "awaiting (SessionStatus st cb) OK_re SBDIX_re s4"
    "serial s4 = serial s3 @ [Line (''AT+SBDIX'' @ [CR])]"
    "caller_calls s4 = caller_calls s3" by blast
  have fr: "submission_frames st =
      [Part (''READY'' @ [CR]), Part (''OK'' @ [CR]), Part (''+CIEV:0,1'' @ [CR]),
       Part (''OK'' @ [CR])]"
    using p by (simp add: submission_frames_def)
  have "handler_run on_data_index (submission_frames st) s0 = Inr s4"
    unfolding fr
      handler_run_next [of on_data_index _ s0 s1, OF s1(1)]
      handler_run_next [of on_data_index _ s1 s2, OF s2(1)]
      handler_run_next [of on_data_index _ s2 s3, OF s3(1)]
      handler_run_next [of on_data_index _ s3 s4, OF s4(1)]
    by simp
  moreover have "serial s4 = serial s @ submission_writes st"
    using p by (simp add: s4(3) s3(3) s2(3) s1(3) s0(2) submission_writes_def c_def ob_def)
  moreover have "caller_calls s4 = caller_calls s"
    by (simp add: s4(4) s3(4) s2(4) s1(4) s0(3))
  ultimately show ?thesis
    using s4(2) unfolding s0_def by blast
qed

lemma index_submission:
  assumes "failCount st = Some n"
  shows "\<exists>s'. handler_run on_data_index (submission_frames st)
            ((resubmit st cb s)\<lparr>buffer := []\<rparr>) = Inr s'
    \<and> awaiting (SessionStatus st cb) OK_re SBDIX_re s'
    \<and> serial s' = serial s @ submission_writes st
    \<and> caller_calls s' = caller_calls s"
  using index_submission_text [OF _ assms] index_submission_binary [OF _ assms]
  by (cases "binary_path st") blast+

lemma index_session_failed:
  assumes a: "awaiting (SessionStatus st cb) OK_re SBDIX_re s"
  shows "\<exists>s'. handler_run on_data_index
            [Part (''+SBDIX: 18, 7, 0, 0, 0, 0'' @ [CR]), Part (''OK'' @ [CR])] s = Inr s'
    \<and> awaiting (Retry st cb (maxTries_or_3 st) ''radio failure'') OK_re ALL_re s'
    \<and> serial s' = serial s @ [Line (''AT+SBDD0'' @ [CR])]
    \<and> caller_calls s' = caller_calls s"
proof -
  have h: "on_data_index = on_data_with forget_index"
    by (rule ext, rule ext) (simp add: on_data_index_def)
  show ?thesis
    unfolding h session_reply [OF a] by (simp add: awaiting_def)
qed

lemma index_round:
  assumes a: "awaiting (SessionStatus st cb) OK_re SBDIX_re s" and f: "failCount st = Some n"
    and l: "n < maxTries_or_3 st"
  shows "\<exists>s'. handler_run on_data_index (round_frames st) s = Inr s'
     \<and> awaiting (SessionStatus (st\<lparr>failCount := Some (n + 1)\<rparr>) cb) OK_re SBDIX_re s'
     \<and> serial s' = serial s @ round_writes st
     \<and> caller_calls s' = caller_calls s"
proof -
  define st' where "st' = st\<lparr>failCount := Some (n + 1)\<rparr>"
  from index_session_failed [OF a] obtain s1 where s1:
    "handler_run on_data_index
       [Part (''+SBDIX: 18, 7, 0, 0, 0, 0'' @ [CR]), Part (''OK'' @ [CR])] s = Inr s1"
    "awaiting (Retry st cb (maxTries_or_3 st) ''radio failure'') OK_re ALL_re s1"
    "serial s1 = serial s @ [Line (''AT+SBDD0'' @ [CR])]"
    "caller_calls s1 = caller_calls s" by blast
  from index_Retry_again [OF s1(2) f l] obtain s2 where s2:
    "on_data_index (Part (''OK'' @ [CR])) s1 = Inr ((resubmit st' cb s2)\<lparr>buffer := []\<rparr>)"
    "serial s2 = serial s1" "caller_calls s2 = caller_calls s1"
    unfolding st'_def by blast
  have f': "failCount st' = Some (n + 1)" by (simp add: st'_def)
  from index_submission [OF f'] obtain s3 where s3:
    "handler_run on_data_index (submission_frames st') ((resubmit st' cb s2)\<lparr>buffer := []\<rparr>) =
       Inr s3"
    "awaiting (SessionStatus st' cb) OK_re SBDIX_re s3"
    "serial s3 = serial s2 @ submission_writes st'"
    "caller_calls s3 = caller_calls s2" by blast
  have w: "submission_frames st' = submission_frames st"
    "submission_writes st' = submission_writes st"
    by (simp_all add: st'_def)
  have fr: "round_frames st =
      [Part (''+SBDIX: 18, 7, 0, 0, 0, 0'' @ [CR]), Part (''OK'' @ [CR])]
        @ (Part (''OK'' @ [CR]) # submission_frames st)"
    by (simp add: round_frames_def failed_session_frames_def)
  have "handler_run on_data_index (round_frames st) s = Inr s3"
    unfolding fr handler_run_then [of on_data_index _ s s1, OF s1(1)]
      handler_run_next [of on_data_index _ s1 _, OF s2(1)]
    using s3(1) by (simp only: w)
  moreover have "serial s3 = serial s @ round_writes st"
    by (simp add: s3(3) s2(2) s1(3) w(2) round_writes_def)
  moreover have "caller_calls s3 = caller_calls s"
    by (simp add: s3(4) s2(3) s1(4))
  ultimately show ?thesis
    using s3(2) unfolding st'_def by blast
qed

lemma index_rounds:
  "awaiting (SessionStatus st cb) OK_re SBDIX_re s \<Longrightarrow> failCount st = Some n \<Longrightarrow>
   n + k \<le> maxTries_or_3 st \<Longrightarrow>
   \<exists>s'. handler_run on_data_index (concat (replicate k (round_frames st))) s = Inr s'
     \<and> awaiting (SessionStatus (st\<lparr>failCount := Some (n + k)\<rparr>) cb) OK_re SBDIX_re s'
     \<and> serial s' = serial s @ concat (replicate k (round_writes st))
     \<and> caller_calls s' = caller_calls s"
proof (induction k arbitrary: s st n)
  case 0
  then show ?case by (simp add: failCount_own)
next
  case (Suc k)
  define st' where "st' = st\<lparr>failCount := Some (n + 1)\<rparr>"
  from Suc.prems have l: "n < maxTries_or_3 st" by simp
  from index_round [OF Suc.prems(1,2) l] obtain s1 where s1:
    "handler_run on_data_index (round_frames st) s = Inr s1"
    "awaiting (SessionStatus st' cb) OK_re SBDIX_re s1"
    "serial s1 = serial s @ round_writes st"
    "caller_calls s1 = caller_calls s" unfolding st'_def by blast
  have f': "failCount st' = Some (n + 1)" by (simp add: st'_def)
  have m: "n + 1 + k \<le> maxTries_or_3 st'" using Suc.prems(3) by (simp add: st'_def)
  from Suc.IH [OF s1(2) f' m] obtain s2 where s2:
    "handler_run on_data_index (concat (replicate k (round_frames st'))) s1 = Inr s2"
    "awaiting (SessionStatus (st'\<lparr>failCount := Some (n + 1 + k)\<rparr>) cb) OK_re SBDIX_re s2"
    "serial s2 = serial s1 @ concat (replicate k (round_writes st'))"
    "caller_calls s2 = caller_calls s1" by blast
  have w: "round_frames st' = round_frames st" "round_writes st' = round_writes st"
    by (simp_all add: st'_def)
  have "handler_run on_data_index (concat (replicate (Suc k) (round_frames st))) s = Inr s2"
    using s2(1) by (simp add: handler_run_then [of on_data_index _ s s1, OF s1(1)] w(1))
  moreover have "awaiting (SessionStatus (st\<lparr>failCount := Some (n + Suc k)\<rparr>) cb)
      OK_re SBDIX_re s2"
    using s2(2) by (simp add: st'_def)
  moreover have "serial s2 = serial s @ concat (replicate (Suc k) (round_writes st))"
    by (simp add: s2(3) s1(3) w(2))
  moreover have "caller_calls s2 = caller_calls s"
    by (simp add: s2(4) s1(4))
  ultimately show ?case by blast
qed

lemma index_last_failure:
  assumes a: "awaiting (SessionStatus st (Caller c)) OK_re SBDIX_re s"
    and f: "failCount st = Some n" and l: "\<not> n < maxTries_or_3 st"
  shows "\<exists>s'. handler_run on_data_index failed_session_frames s = Inr s'
     \<and> serial s' = serial s @ [Line (''AT+SBDD0'' @ [CR])]
     \<and> caller_calls s' = caller_calls s @ [(Caller c, JString ''radio failure'', Undefined)]"
proof -
  from index_session_failed [OF a] obtain s1 where s1:
    "handler_run on_data_index
       [Part (''+SBDIX: 18, 7, 0, 0, 0, 0'' @ [CR]), Part (''OK'' @ [CR])] s = Inr s1"
    "awaiting (Retry st (Caller c) (maxTries_or_3 st) ''radio failure'') OK_re ALL_re s1"
    "serial s1 = serial s @ [Line (''AT+SBDD0'' @ [CR])]"
    "caller_calls s1 = caller_calls s" by blast
  from index_Retry_stop [OF s1(2) f l] obtain s2 where s2:
    "on_data_index (Part (''OK'' @ [CR])) s1 = Inr s2"
    "serial s2 = serial s1"
    "caller_calls s2 = caller_calls s1 @ [(Caller c, JString ''radio failure'', Undefined)]"
    by blast
  have fr: "failed_session_frames =
      [Part (''+SBDIX: 18, 7, 0, 0, 0, 0'' @ [CR]), Part (''OK'' @ [CR])] @ [Part (''OK'' @ [CR])]"
    by (simp add: failed_session_frames_def)
  have "handler_run on_data_index failed_session_frames s = Inr s2"
    unfolding fr handler_run_then [of on_data_index _ s s1, OF s1(1)] handler_run_single
    by (rule s2(1))
  then show ?thesis
    using s2(2,3) s1(3,4) by simp
qed

text \<open>
  The retry policy as the handler of \<^verbatim>\<open>index.js\<close> runs it, for every session with
  \<^verbatim>\<open>failCount\<close> 0 and \<^verbatim>\<open>maxTries || 3\<close> 3 whose \<^verbatim>\<open>AT+SBDIX\<close> is pending, and a modem that
  answers each session with status 18. The first round writes \<^verbatim>\<open>AT+SBDD0\<close> and the same
  submission again and leaves \<^verbatim>\<open>AT+SBDIX\<close> pending with \<^verbatim>\<open>failCount\<close> 1; after three rounds
  \<^verbatim>\<open>failCount\<close> is 3 and the caller's callback has not been called; the fourth failed
  session writes \<^verbatim>\<open>AT+SBDD0\<close> only and calls the callback with \<^verbatim>\<open>'radio failure'\<close>. No
  timer fires in these runs; the timers of \<^verbatim>\<open>index.js\<close> differ from those of the ES2015
  copy only in the function they hold.
\<close>

lemma retry_policy_index:
  assumes a: "awaiting (SessionStatus st (Caller c)) OK_re SBDIX_re s"
    and f: "failCount st = Some 0" and m: "maxTries_or_3 st = 3"
  shows "(\<exists>s'. handler_run on_data_index (round_frames st) s = Inr s'
            \<and> awaiting (SessionStatus (st\<lparr>failCount := Some 1\<rparr>) (Caller c)) OK_re SBDIX_re s'
            \<and> serial s' = serial s @ round_writes st
            \<and> caller_calls s' = caller_calls s)
    \<and> (\<exists>s'. handler_run on_data_index (concat (replicate 3 (round_frames st))) s = Inr s'
            \<and> awaiting (SessionStatus (st\<lparr>failCount := Some 3\<rparr>) (Caller c)) OK_re SBDIX_re s'
            \<and> serial s' = serial s @ concat (replicate 3 (round_writes st))
            \<and> caller_calls s' = caller_calls s)
    \<and> (\<exists>s'. handler_run on_data_index
              (concat (replicate 3 (round_frames st)) @ failed_session_frames) s = Inr s'
            \<and> serial s' = serial s @ concat (replicate 3 (round_writes st))
                             @ [Line (''AT+SBDD0'' @ [CR])]
            \<and> caller_calls s' =
                caller_calls s @ [(Caller c, JString ''radio failure'', Undefined)])"
proof -
  have l: "0 < maxTries_or_3 st" by (simp add: m)
  from index_round [OF a f l]
  have 1: "\<exists>s'. handler_run on_data_index (round_frames st) s = Inr s'
            \<and> awaiting (SessionStatus (st\<lparr>failCount := Some 1\<rparr>) (Caller c)) OK_re SBDIX_re s'
            \<and> serial s' = serial s @ round_writes st
            \<and> caller_calls s' = caller_calls s" by simp
  have k: "0 + 3 \<le> maxTries_or_3 st" by (simp add: m)
  from index_rounds [OF a f k] obtain s3 where s3:
    "handler_run on_data_index (concat (replicate 3 (round_frames st))) s = Inr s3"
    "awaiting (SessionStatus (st\<lparr>failCount := Some 3\<rparr>) (Caller c)) OK_re SBDIX_re s3"
    "serial s3 = serial s @ concat (replicate 3 (round_writes st))"
    "caller_calls s3 = caller_calls s" by auto
  have f3: "failCount (st\<lparr>failCount := Some 3\<rparr>) = Some 3" by simp
  have l3: "\<not> 3 < maxTries_or_3 (st\<lparr>failCount := Some 3\<rparr>)" by (simp add: m)
  from index_last_failure [OF s3(2) f3 l3] obtain s4 where s4:
    "handler_run on_data_index failed_session_frames s3 = Inr s4"
    "serial s4 = serial s3 @ [Line (''AT+SBDD0'' @ [CR])]"
    "caller_calls s4 = caller_calls s3 @ [(Caller c, JString ''radio failure'', Undefined)]"
    by blast
  have "handler_run on_data_index
      (concat (replicate 3 (round_frames st)) @ failed_session_frames) s = Inr s4"
    unfolding handler_run_then [of on_data_index _ s s3, OF s3(1)] by (rule s4(1))
  moreover have "serial s4 = serial s @ concat (replicate 3 (round_writes st))
      @ [Line (''AT+SBDD0'' @ [CR])]"
    by (simp add: s4(2) s3(3))
  moreover have "caller_calls s4 = caller_calls s @ [(Caller c, JString ''radio failure'', Undefined)]"
    by (simp add: s4(3) s3(4))
  ultimately have 3: "\<exists>s'. handler_run on_data_index
              (concat (replicate 3 (round_frames st)) @ failed_session_frames) s = Inr s'
            \<and> serial s' = serial s @ concat (replicate 3 (round_writes st))
                             @ [Line (''AT+SBDD0'' @ [CR])]
            \<and> caller_calls s' =
                caller_calls s @ [(Caller c, JString ''radio failure'', Undefined)]" by blast
  from s3 have 2: "\<exists>s'. handler_run on_data_index (concat (replicate 3 (round_frames st))) s = Inr s'
            \<and> awaiting (SessionStatus (st\<lparr>failCount := Some 3\<rparr>) (Caller c)) OK_re SBDIX_re s'
            \<and> serial s' = serial s @ concat (replicate 3 (round_writes st))
            \<and> caller_calls s' = caller_calls s" by blast
  from 1 2 3 show ?thesis by blast
qed

lemma initiateSession_new:
  "awaiting (SessionStatus ((new_state m)\<lparr>failCount := Some 0\<rparr>) cb) OK_re SBDIX_re
     (initiateSession (new_state m) cb createIridium)"
  "serial (initiateSession (new_state m) cb createIridium) = [Line (''AT+SBDIX'' @ [CR])]"
  "invoked (initiateSession (new_state m) cb createIridium) = []"
  "caller_calls (initiateSession (new_state m) cb createIridium) = []"
  by (simp_all add: initiateSession_def new_state_def awaiting_def caller_calls_def)
     (simp_all add: createIridium_def)

lemma round_writes_hello:
  "round_writes ((new_state (Text ''hello''))\<lparr>failCount := Some 0\<rparr>) =
     [Line (''AT+SBDD0'' @ [CR]), Line (''AT+SBDWT=hello'' @ [CR]),
      Line (''AT+CIER=1,1,0,0'' @ [CR]), Line (''AT+CIER=0,0,0,0'' @ [CR]),
      Line (''AT+SBDIX'' @ [CR])]"
  by (simp add: round_writes_def submission_writes_def binary_path_def new_state_def template_text
      del: payload_text.simps)

text \<open>
  C2. A new driver of the ES2015 copy, \<^verbatim>\<open>initiateSession\<close> called for the message \<^verbatim>\<open>hello\<close>
  with the callback \<open>Caller 0\<close>, and the frames \<^verbatim>\<open>+SBDIX: 18, 7, 0, 0, 0, 0\r\<close>, \<^verbatim>\<open>OK\r\<close>,
  \<^verbatim>\<open>OK\r\<close> given to the handler. The session callback runs once, with \<^verbatim>\<open>failCount\<close> 0, and
  writes \<^verbatim>\<open>AT+SBDD0\<close>; the handler then sets \<^verbatim>\<open>df = null; er = null\<close>, which wipes that
  command, and the \<^verbatim>\<open>OK\<close> that answers it raises a TypeError. The callback given to
  \<^verbatim>\<open>clearMOBuffers\<close> is never called: nothing is submitted again, \<^verbatim>\<open>failCount\<close> is never
  incremented, and the caller's callback is never called.

  The handler of \<^verbatim>\<open>index.js\<close>, from the same state and with a modem that answers each of
  four sessions with status 18, writes the same submission three more times and then
  calls the caller's callback, once, with \<^verbatim>\<open>'radio failure'\<close>.
\<close>

theorem C2_resubmission_wiped:
  "(\<exists>s'. handler_run on_data failed_session_frames
            (initiateSession (new_state (Text ''hello'')) (Caller 0) createIridium) =
          Inl (TypeError, s')
        \<and> serial s' = [Line (''AT+SBDIX'' @ [CR]), Line (''AT+SBDD0'' @ [CR])]
        \<and> invoked s' =
            [(SessionStatus ((new_state (Text ''hello''))\<lparr>failCount := Some 0\<rparr>) (Caller 0), Null,
              JString (''+SBDIX: 18, 7, 0, 0, 0, 0'' @ [CR, LF]))]
        \<and> df s' = None)
   \<and> (\<exists>s'. handler_run on_data_index
            (concat (replicate 3 (round_frames ((new_state (Text ''hello''))\<lparr>failCount := Some 0\<rparr>)))
               @ failed_session_frames)
            (initiateSession (new_state (Text ''hello'')) (Caller 0) createIridium) = Inr s'
        \<and> serial s' =
            Line (''AT+SBDIX'' @ [CR])
            # concat (replicate 3
                [Line (''AT+SBDD0'' @ [CR]), Line (''AT+SBDWT=hello'' @ [CR]),
                 Line (''AT+CIER=1,1,0,0'' @ [CR]), Line (''AT+CIER=0,0,0,0'' @ [CR]),
                 Line (''AT+SBDIX'' @ [CR])])
            @ [Line (''AT+SBDD0'' @ [CR])]
        \<and> caller_calls s' = [(Caller 0, JString ''radio failure'', Undefined)])"
proof -
  define st where "st = (new_state (Text ''hello''))\<lparr>failCount := Some 0\<rparr>"
  define s where "s = initiateSession (new_state (Text ''hello'')) (Caller 0) createIridium"
  have a: "awaiting (SessionStatus st (Caller 0)) OK_re SBDIX_re s"
    and w: "serial s = [Line (''AT+SBDIX'' @ [CR])]" and i: "invoked s = []"
    and c: "caller_calls s = []"
    unfolding st_def s_def by (rule initiateSession_new)+
  have f: "failCount st = Some 0" by (simp add: st_def)
  have m: "maxTries_or_3 st = 3" by (simp add: st_def maxTries_or_3_def new_state_def)
  have r: "round_writes st =
     [Line (''AT+SBDD0'' @ [CR]), Line (''AT+SBDWT=hello'' @ [CR]),
      Line (''AT+CIER=1,1,0,0'' @ [CR]), Line (''AT+CIER=0,0,0,0'' @ [CR]),
      Line (''AT+SBDIX'' @ [CR])]"
    unfolding st_def by (rule round_writes_hello)
  from wiped_by_ES2015 [OF a]
  have 1: "\<exists>s'. handler_run on_data failed_session_frames s = Inl (TypeError, s')
        \<and> serial s' = [Line (''AT+SBDIX'' @ [CR]), Line (''AT+SBDD0'' @ [CR])]
        \<and> invoked s' = [(SessionStatus st (Caller 0), Null,
              JString (''+SBDIX: 18, 7, 0, 0, 0, 0'' @ [CR, LF]))]
        \<and> df s' = None"
    unfolding w i by simp
  from retry_policy_index [OF a f m]
  have 2: "\<exists>s'. handler_run on_data_index
            (concat (replicate 3 (round_frames st)) @ failed_session_frames) s = Inr s'
        \<and> serial s' =
            Line (''AT+SBDIX'' @ [CR])
            # concat (replicate 3
                [Line (''AT+SBDD0'' @ [CR]), Line (''AT+SBDWT=hello'' @ [CR]),
                 Line (''AT+CIER=1,1,0,0'' @ [CR]), Line (''AT+CIER=0,0,0,0'' @ [CR]),
                 Line (''AT+SBDIX'' @ [CR])])
            @ [Line (''AT+SBDD0'' @ [CR])]
        \<and> caller_calls s' = [(Caller 0, JString ''radio failure'', Undefined)]"
    unfolding w c r by simp
  from 1 2 show ?thesis
    unfolding st_def s_def by (rule conjI)
qed

subsection \<open>The mailbox while a cycle is in flight\<close>

text \<open>
  Under the lock \<^verbatim>\<open>mailboxCheck\<close> changes \<^verbatim>\<open>pending\<close> and nothing else, so it issues no
  command; while \<^verbatim>\<open>pending\<close> is a number, each call adds one. When the callback that
  \<^verbatim>\<open>mailboxSend\<close> gave to \<^verbatim>\<open>sendBinaryMessage\<close> is called without an error, a follow-up
  check is set to run after 1000 ms if \<^verbatim>\<open>pending\<close> is positive, and the lock is released
  otherwise; the follow-up is \<^verbatim>\<open>sendMessage({ message: '' })\<close>.
\<close>

text \<open>No follow-up check is set by a command.\<close>

lemma follow_ups_simps [simp]:
  "follow_ups (log m s) = follow_ups s"
  "follow_ups (called d a b s) = follow_ups s"
  "follow_ups (forget s) = follow_ups s"
  "follow_ups (s\<lparr>buffer := x\<rparr>) = follow_ups s"
  "follow_ups (s\<lparr>pending := p\<rparr>) = follow_ups s"
  "follow_ups (s\<lparr>lock := l\<rparr>) = follow_ups s"
  "follow_ups (s\<lparr>c_attempt := n\<rparr>) = follow_ups s"
  "follow_ups (s\<lparr>messagePending := i\<rparr>) = follow_ups s"
  by (simp_all add: follow_ups_def log_def called_def forget_def)

lemma filter_swap: "filter P (filter Q xs) = filter Q (filter P xs)"
  by (induction xs) simp_all

lemma follow_ups_clear_tf: "follow_ups s = [] \<Longrightarrow> follow_ups (clear_tf s) = []"
proof (cases "tf s")
  case None
  then show "follow_ups s = [] \<Longrightarrow> follow_ups (clear_tf s) = []"
    by (simp add: clear_tf_def follow_ups_def)
next
  case (Some h)
  assume "follow_ups s = []"
  then have "filter (\<lambda>t. fst t \<noteq> h) (filter (\<lambda>t. snd (snd t) = FollowUpCheck) (timers s)) = []"
    by (simp add: follow_ups_def)
  then have "filter (\<lambda>t. snd (snd t) = FollowUpCheck) (filter (\<lambda>t. fst t \<noteq> h) (timers s)) = []"
    by (subst filter_swap)
  then show "follow_ups (clear_tf s) = []"
    using Some by (simp add: clear_tf_def clearTimeout_def follow_ups_def)
qed

lemma follow_ups_AT_with:
  assumes "follow_ups s = []" and "snd (snd (0 :: nat, 0 :: int, f)) \<noteq> FollowUpCheck"
  shows "follow_ups (AT_with f c e k d t s) = []"
proof -
  define s1 where "s1 = clear_tf (s\<lparr>er := e, kr := k\<rparr>)"
  have "follow_ups (s\<lparr>er := e, kr := k\<rparr>) = []"
    using assms(1) by (simp add: follow_ups_def)
  then have 1: "follow_ups s1 = []"
    unfolding s1_def by (rule follow_ups_clear_tf)
  have "timers (AT_with f c e k d t s) = timers s1
      \<or> (\<exists>h n. timers (AT_with f c e k d t s) = timers s1 @ [(h, n, f)])"
    by (cases c; simp add: AT_with_def Let_def s1_def [symmetric] setTimeout_def serial_write_def
        log_def)+
  then show ?thesis
    using 1 assms(2) by (auto simp add: follow_ups_def)
qed

lemma follow_ups_AT [simp]:
  "follow_ups s = [] \<Longrightarrow> follow_ups (AT c e k d t s) = []"
  "follow_ups s = [] \<Longrightarrow> follow_ups (ATS c e k d t s) = []"
  by (simp_all add: AT_def ATS_def follow_ups_AT_with)

lemma follow_ups_sending [simp]:
  "follow_ups s = [] \<Longrightarrow> follow_ups (sendMessage st cb w s) = []"
  "follow_ups s = [] \<Longrightarrow> follow_ups (sendBinaryMessage st cb w s) = []"
  by (simp_all add: sendMessage_def sendBinaryMessage_def Let_def)

lemma c_attempt_AT_with:
  "c_attempt (AT_with f c e k d t s) = c_attempt s"
  by (cases c; cases "tf s";
      simp add: AT_with_def Let_def setTimeout_def serial_write_def log_def clear_tf_def
        clearTimeout_def)+

lemma fields_sendBinaryMessage [simp]:
  "pending (sendBinaryMessage st cb w s) = pending s"
  "caller_calls (sendBinaryMessage st cb w s) = caller_calls s"
  "globals (sendBinaryMessage st cb w s) = globals s"
  "c_attempt (sendBinaryMessage st cb w s) = c_attempt s"
  "lock (sendBinaryMessage st cb w s) = lock s"
  by (simp_all add: sendBinaryMessage_def sendMessage_def Let_def AT_def AT_with_keeps
      c_attempt_AT_with caller_calls_def)

lemma mailboxCheck_locked:
  "lock s \<noteq> 0 \<Longrightarrow> mailboxCheck s = s\<lparr>pending := plus_assign_1 (pending s)\<rparr>"
  by (simp add: mailboxCheck_def)


lemma MailboxSent_success:
  "nullish err \<Longrightarrow>
   \<exists>s'. invoke (MailboxSent buf (Caller c)) err momsn s = Inr s'
     \<and> serial s' = serial s
     \<and> (positive (pending s) \<longrightarrow>
          timers s' = timers s @ [(handles s, 1000, FollowUpCheck)] \<and> lock s' = lock s)
     \<and> (\<not> positive (pending s) \<longrightarrow> timers s' = timers s \<and> lock s' = 0)
     \<and> invoked s' = invoked s @ [(MailboxSent buf (Caller c), err, momsn), (Caller c, JFalse, momsn)]"
  by (simp add: Let_def called_def log_def setTimeout_def)

lemma fire_FollowUpCheck:
  "find (\<lambda>t. fst t = h) (timers s) = Some (h, delay, FollowUpCheck) \<Longrightarrow>
   fire h s = Inr (sendMessage (new_state (Text [])) Absent None
                    (s\<lparr>timers := filter (\<lambda>t. fst t \<noteq> h) (timers s)\<rparr>), [])"
  by (simp add: fire_def)

lemma caller_calls_updates [simp]:
  "caller_calls (s\<lparr>c_attempt := n\<rparr>) = caller_calls s"
  "caller_calls (s\<lparr>lock := l\<rparr>) = caller_calls s"
  "caller_calls (s\<lparr>pending := p\<rparr>) = caller_calls s"
  "caller_calls (forget s) = caller_calls s"
  by (simp_all add: caller_calls_def forget_def)

lemma mailboxSend_remaining:
  assumes "c_attempt s = Some n" and "n + 1 \<le> maxAttempts (globals s)"
  shows "mailboxSend buf cb s =
    Inr (sendBinaryMessage (new_state buf) (MailboxSent buf cb) None
           (s\<lparr>c_attempt := Some (n + 1), lock := 1\<rparr>))"
  using assms by (simp add: mailboxSend_def Let_def)



lemma pending_keeps [simp]:
  "pending (AT c e k d t s) = pending s"
  "pending (ATS c e k d t s) = pending s"
  "pending (log m s) = pending s"
  "pending (called d a b s) = pending s"
  by (simp_all add: AT_def ATS_def AT_with_keeps log_def called_def)



lemma awaiting_pending [simp]: "awaiting d e k (s\<lparr>pending := p\<rparr>) = awaiting d e k s"
  by (simp add: awaiting_def)

lemma sendCompressedMessage_new:
  "sendCompressedMessage text cb Null b createIridium =
     Inr (sendBinaryMessage (new_state (Binary b)) (MailboxSent (Binary b) cb) None
            (createIridium\<lparr>c_attempt := Some 1, lock := 1\<rparr>))"
proof -
  define s0 where "s0 = (log (TextCompressed (length text) (length b)) createIridium)
      \<lparr>c_attempt := Some 0\<rparr>"
  have q: "log (TextCompressed (length text) (length b)) createIridium = createIridium"
    by (rule log_quiet) (simp add: createIridium_def)
  have c: "c_attempt s0 = Some 0" by (simp add: s0_def)
  have m: "0 + 1 \<le> maxAttempts (globals s0)" by (simp add: s0_def q) (simp add: createIridium_def)
  have "sendCompressedMessage text cb Null b createIridium = mailboxSend (Binary b) cb s0"
    by (simp add: sendCompressedMessage_def s0_def)
  also have "\<dots> = Inr (sendBinaryMessage (new_state (Binary b)) (MailboxSent (Binary b) cb) None
           (s0\<lparr>c_attempt := Some (0 + 1), lock := 1\<rparr>))"
    by (rule mailboxSend_remaining [OF c m])
  also have "s0\<lparr>c_attempt := Some (0 + 1), lock := 1\<rparr> = createIridium\<lparr>c_attempt := Some 1, lock := 1\<rparr>"
    by (simp add: s0_def q)
  finally show ?thesis .
qed

lemma cycle_keeps [simp]:
  "pending (waitForNetwork d w s) = pending s"
  "pending (disableSignalMonitoring d s) = pending s"
  "pending (clearMOBuffers d s) = pending s"
  "pending (initiateSession st d s) = pending s"
  "pending (finishSession d m s) = pending s"
  "caller_calls (initiateSession st d s) = caller_calls s"
  "caller_calls (finishSession d m s) = caller_calls s"
  "follow_ups s = [] \<Longrightarrow> follow_ups (waitForNetwork d w s) = []"
  "follow_ups s = [] \<Longrightarrow> follow_ups (disableSignalMonitoring d s) = []"
  "follow_ups s = [] \<Longrightarrow> follow_ups (clearMOBuffers d s) = []"
  "follow_ups s = [] \<Longrightarrow> follow_ups (initiateSession st d s) = []"
  "follow_ups s = [] \<Longrightarrow> follow_ups (finishSession d m s) = []"
  "follow_ups s = [] \<Longrightarrow> follow_ups (clear_tf s) = []"
  by (simp_all add: waitForNetwork_def disableSignalMonitoring_def clearMOBuffers_def
      initiateSession_def finishSession_def follow_ups_clear_tf)

lemma fields_initiateSession [simp]:
  "er (initiateSession st d s) = Some OK_re" "kr (initiateSession st d s) = Some SBDIX_re"
  "buffer (initiateSession st d s) = buffer s"
  by (simp_all add: initiateSession_def)

lemma df_initiateSession_new:
  "failCount st = None \<Longrightarrow>
   df (initiateSession st d s) = Some (SessionStatus (st\<lparr>failCount := Some 0\<rparr>) d)"
  by (simp add: initiateSession_def)

lemma fields_finishSession [simp]:
  "df (finishSession d m s) = Some (Finish d m)" "er (finishSession d m s) = Some OK_re"
  "kr (finishSession d m s) = Some ALL_re" "buffer (finishSession d m s) = buffer s"
  by (simp_all add: finishSession_def)

text \<open>
  One exchange of a cycle in \<^verbatim>\<open>index.js\<close>: the line ends the reply, the callback issues
  the next command, and the mailbox is as it was.
\<close>

lemma index_step:
  assumes a: "awaiting d e ALL_re s"
    and l: "\<not> test SBDRING_re line" "\<not> test AREG_re line" "\<not> test ERROR_re line" "test e line"
    and u: "follow_ups s = []"
    and i: "\<And>x s0. follow_ups s0 = [] \<Longrightarrow>
      \<exists>s1. invoke d Null x s0 = Inr s1 \<and> df s1 = Some d' \<and> er s1 = Some e' \<and> kr s1 = Some k'
        \<and> lock s1 = lock s0 \<and> pending s1 = pending s0 \<and> follow_ups s1 = []
        \<and> caller_calls s1 = caller_calls s0"
  shows "\<exists>s'. on_data_index (Part line) s = Inr s' \<and> awaiting d' e' k' s'
    \<and> lock s' = lock s \<and> pending s' = pending s \<and> follow_ups s' = []
    \<and> caller_calls s' = caller_calls s"
proof -
  define s0 where "s0 = clear_tf ((log (Received (Part line)) s)\<lparr>buffer := line @ [LF]\<rparr>)"
  have u0: "follow_ups s0 = []" using u by (simp add: s0_def)
  from i [OF u0] obtain s1 where s1:
    "invoke d Null (JString (line @ [LF])) s0 = Inr s1" "df s1 = Some d'" "er s1 = Some e'"
    "kr s1 = Some k'" "lock s1 = lock s0" "pending s1 = pending s0" "follow_ups s1 = []"
    "caller_calls s1 = caller_calls s0" by blast
  have "on_data_index (Part line) s = Inr (s1\<lparr>buffer := []\<rparr>)"
    unfolding on_data_index_completes [OF a l] s0_def [symmetric] s1(1) by simp
  moreover have "awaiting d' e' k' (s1\<lparr>buffer := []\<rparr>)"
    by (simp add: awaiting_def s1)
  moreover have "lock (s1\<lparr>buffer := []\<rparr>) = lock s" "pending (s1\<lparr>buffer := []\<rparr>) = pending s"
    "follow_ups (s1\<lparr>buffer := []\<rparr>) = []" "caller_calls (s1\<lparr>buffer := []\<rparr>) = caller_calls s"
    by (simp_all add: s1 s0_def)
  ultimately show ?thesis by blast
qed

lemma cycle_BinaryReady:
  assumes "awaiting (BinaryReady st cb ob) READY_re ALL_re s" and "follow_ups s = []"
  shows "\<exists>s'. on_data_index (Part (''READY'' @ [CR])) s = Inr s'
    \<and> awaiting (BinaryWritten st cb) OK_re ALL_re s'
    \<and> lock s' = lock s \<and> pending s' = pending s \<and> follow_ups s' = []
    \<and> caller_calls s' = caller_calls s"
  by (rule index_step [OF assms(1) line_tests(6,7,8,9) assms(2)]) (simp add: Let_def)

lemma cycle_BinaryWritten:
  assumes "awaiting (BinaryWritten st cb) OK_re ALL_re s" and "follow_ups s = []"
  shows "\<exists>s'. on_data_index (Part (''OK'' @ [CR])) s = Inr s'
    \<and> awaiting (NetworkUp st cb) CIEV_re ALL_re s'
    \<and> lock s' = lock s \<and> pending s' = pending s \<and> follow_ups s' = []
    \<and> caller_calls s' = caller_calls s"
  by (rule index_step [OF assms(1) line_tests(1,2,3,4) assms(2)]) (simp add: Let_def)

lemma cycle_NetworkUp:
  assumes "awaiting (NetworkUp st cb) CIEV_re ALL_re s" and "follow_ups s = []"
  shows "\<exists>s'. on_data_index (Part (''+CIEV:0,1'' @ [CR])) s = Inr s'
    \<and> awaiting (MonitoringOff st cb) OK_re ALL_re s'
    \<and> lock s' = lock s \<and> pending s' = pending s \<and> follow_ups s' = []
    \<and> caller_calls s' = caller_calls s"
  by (rule index_step [OF assms(1) line_tests(10,11,12,13) assms(2)]) (simp add: Let_def)

lemma cycle_MonitoringOff:
  assumes "awaiting (MonitoringOff st cb) OK_re ALL_re s" and "follow_ups s = []"
    and f: "failCount st = None"
  shows "\<exists>s'. on_data_index (Part (''OK'' @ [CR])) s = Inr s'
    \<and> awaiting (SessionStatus (st\<lparr>failCount := Some 0\<rparr>) cb) OK_re SBDIX_re s'
    \<and> lock s' = lock s \<and> pending s' = pending s \<and> follow_ups s' = []
    \<and> caller_calls s' = caller_calls s"
  by (rule index_step [OF assms(1) line_tests(1,2,3,4) assms(2)])
     (simp add: df_initiateSession_new [OF f])

lemma status_0_line:
  "\<not> test SBDRING_re (''+SBDIX: 0, 7, 0, 0, 0, 0'' @ [CR])"
  "\<not> test AREG_re (''+SBDIX: 0, 7, 0, 0, 0, 0'' @ [CR])"
  "\<not> test ERROR_re (''+SBDIX: 0, 7, 0, 0, 0, 0'' @ [CR])"
  "test SBDIX_re (''+SBDIX: 0, 7, 0, 0, 0, 0'' @ [CR])"
  "\<not> test OK_re (''+SBDIX: 0, 7, 0, 0, 0, 0'' @ [CR])"
  "match_SBDIX (''+SBDIX: 0, 7, 0, 0, 0, 0'' @ [CR, LF]) = Some [''0'', ''7'', ''0'', ''0'', ''0'', ''0'']"
  by (simp_all add: starts_with_def is_digit_def CR_def LF_def eval_nat_numeral Let_def)

lemma SessionStatus_transferred:
  "match_SBDIX t = Some m \<Longrightarrow> Number (m ! 0) \<le> 4 \<Longrightarrow> Number (m ! 5) = 0 \<Longrightarrow>
   Number (m ! 2) = 0 \<Longrightarrow>
   invoke (SessionStatus st cb) Null (JString t) s =
    Inr (finishSession cb (JString (m ! 1))
          (log NoMTPending
             ((log MOTransferred (called (SessionStatus st cb) Null (JString t) s))
                \<lparr>messagePending := 0\<rparr>)))"
  by (simp add: Let_def)

lemma SessionStatus_0:
  "invoke (SessionStatus st cb) Null (JString (''+SBDIX: 0, 7, 0, 0, 0, 0'' @ [CR, LF])) s =
    Inr (finishSession cb (JString ''7'')
          (log NoMTPending
             ((log MOTransferred
                 (called (SessionStatus st cb) Null
                    (JString (''+SBDIX: 0, 7, 0, 0, 0, 0'' @ [CR, LF])) s))
                \<lparr>messagePending := 0\<rparr>)))"
  using SessionStatus_transferred [OF status_0_line(6), of st cb s] by (simp add: Number_def)

lemma cycle_SessionStatus_0:
  assumes a: "awaiting (SessionStatus st cb) OK_re SBDIX_re s" and u: "follow_ups s = []"
  shows "\<exists>s'. handler_run on_data_index
            [Part (''+SBDIX: 0, 7, 0, 0, 0, 0'' @ [CR]), Part (''OK'' @ [CR])] s = Inr s'
    \<and> awaiting (Finish cb (JString ''7'')) OK_re ALL_re s'
    \<and> lock s' = lock s \<and> pending s' = pending s \<and> follow_ups s' = []
    \<and> caller_calls s' = caller_calls s"
proof -
  define line where "line = ''+SBDIX: 0, 7, 0, 0, 0, 0'' @ [CR]"
  define s1 where "s1 = (log (Received (Part line)) s)
      \<lparr>buffer := ''+SBDIX: 0, 7, 0, 0, 0, 0'' @ [CR, LF]\<rparr>"
  define ok where "ok = Part (''OK'' @ [CR])"
  define s2 where "s2 = finishSession cb (JString ''7'')
          (log NoMTPending
             ((log MOTransferred
                 (called (SessionStatus st cb) Null
                    (JString (''+SBDIX: 0, 7, 0, 0, 0, 0'' @ [CR, LF]))
                    (clear_tf (log (Received ok) s1))))
                \<lparr>messagePending := 0\<rparr>))"
  from a have f: "df s = Some (SessionStatus st cb)" "er s = Some OK_re" "kr s = Some SBDIX_re"
    "buffer s = []" by (simp_all add: awaiting_def)
  have 1: "on_data_index (Part line) s = Inr s1"
    unfolding s1_def line_def on_data_index_def
    using on_data_with_kept [OF f(2,3) status_0_line(1,2,3,4,5), of forget_index] f(4) by simp
  have g: "er s1 = Some OK_re" "kr s1 = Some SBDIX_re" "df s1 = Some (SessionStatus st cb)"
    "buffer s1 = ''+SBDIX: 0, 7, 0, 0, 0, 0'' @ [CR, LF]"
    by (simp_all add: s1_def f)
  have "on_data_index ok s1 =
    (case call_df (SessionStatus st cb) Null (JString (''+SBDIX: 0, 7, 0, 0, 0, 0'' @ [CR, LF]))
            (log (Received ok) s1) of
       Inl x \<Rightarrow> Inl x
     | Inr s' \<Rightarrow> Inr (forget_index (s'\<lparr>buffer := []\<rparr>)))"
    unfolding ok_def on_data_index_def
    using on_data_with_ends [OF g(1,2,3) line_tests(1,2,3,4,5), of forget_index] g(4) by simp
  then have 2: "on_data_index ok s1 = Inr (s2\<lparr>buffer := []\<rparr>)"
    by (simp only: call_df_def SessionStatus_0 sum.case s2_def fields_forget)
  have r: "handler_run on_data_index [Part line, ok] s = Inr (s2\<lparr>buffer := []\<rparr>)"
    by (simp only: handler_run_next [of on_data_index "Part line" s s1, OF 1] handler_run_single 2)
  have u1: "follow_ups s1 = []" using u by (simp add: s1_def)
  have "awaiting (Finish cb (JString ''7'')) OK_re ALL_re (s2\<lparr>buffer := []\<rparr>)"
    by (simp add: awaiting_def s2_def)
  moreover have "lock (s2\<lparr>buffer := []\<rparr>) = lock s" "pending (s2\<lparr>buffer := []\<rparr>) = pending s"
    "caller_calls (s2\<lparr>buffer := []\<rparr>) = caller_calls s"
    by (simp_all add: s2_def s1_def)
  moreover have "follow_ups (s2\<lparr>buffer := []\<rparr>) = []"
    using u1 by (simp add: s2_def)
  ultimately show ?thesis
    using r unfolding line_def ok_def by blast
qed

lemma follow_ups_setTimeout:
  "follow_ups (setTimeout FollowUpCheck n s) = follow_ups s @ [(handles s, n, FollowUpCheck)]"
  by (simp add: follow_ups_def setTimeout_def)

lemma fields_setTimeout [simp]:
  "pending (setTimeout f n s) = pending s" "caller_calls (setTimeout f n s) = caller_calls s"
  "serial (setTimeout f n s) = serial s"
  by (simp_all add: setTimeout_def caller_calls_def)

lemma cycle_completes:
  assumes a: "awaiting (Finish (MailboxSent buf (Caller c)) momsn) OK_re ALL_re s"
    and u: "follow_ups s = []"
  shows "\<exists>s'. on_data_index (Part (''OK'' @ [CR])) s = Inr s'
    \<and> pending s' = pending s
    \<and> caller_calls s' = caller_calls s @ [(Caller c, JFalse, momsn)]
    \<and> (if positive (pending s)
        then lock s' = lock s \<and> (\<exists>h. follow_ups s' = [(h, 1000, FollowUpCheck)])
        else lock s' = 0 \<and> follow_ups s' = [])"
proof -
  define x where "x = JString ((''OK'' @ [CR]) @ [LF])"
  define s0 where "s0 = clear_tf ((log (Received (Part (''OK'' @ [CR]))) s)
      \<lparr>buffer := (''OK'' @ [CR]) @ [LF]\<rparr>)"
  define s1 where "s1 = called (MailboxSent buf (Caller c)) Null momsn
      (called (Finish (MailboxSent buf (Caller c)) momsn) Null x s0)"
  define s2 where "s2 = (if payload_truthy buf then log (BinaryMessageSent momsn) s1 else s1)"
  define s3 where "s3 = (if positive (pending s2) then setTimeout FollowUpCheck 1000 s2
      else s2\<lparr>lock := 0\<rparr>)"
  have i: "invoke (Finish (MailboxSent buf (Caller c)) momsn) Null x s0 =
      Inr (called (Caller c) JFalse momsn s3)"
    by (simp add: Let_def s1_def s2_def s3_def)
  have r: "on_data_index (Part (''OK'' @ [CR])) s =
      Inr ((called (Caller c) JFalse momsn s3)\<lparr>buffer := []\<rparr>)"
    unfolding on_data_index_completes [OF a line_tests(1,2,3,4)] s0_def [symmetric]
      x_def [symmetric] i by simp
  have u0: "follow_ups s0 = []" using u by (simp add: s0_def)
  have k: "pending s2 = pending s" "lock s2 = lock s" "follow_ups s2 = []"
    "caller_calls s2 = caller_calls s"
    using u0 by (simp_all add: s2_def s1_def s0_def)
  have "pending s3 = pending s" "caller_calls s3 = caller_calls s"
    by (simp_all add: s3_def k)
  moreover have "if positive (pending s)
      then lock s3 = lock s \<and> (\<exists>h. follow_ups s3 = [(h, 1000, FollowUpCheck)])
      else lock s3 = 0 \<and> follow_ups s3 = []"
    by (simp add: s3_def k follow_ups_setTimeout)
  ultimately show ?thesis
    unfolding r by simp
qed

text \<open>
  The cycle of \<^verbatim>\<open>mailboxSend\<close> as the handler of \<^verbatim>\<open>index.js\<close> runs it, with a modem that
  takes the message and reports status 0 and the sequence number 7: the caller's
  callback is called with \<^verbatim>\<open>(false, '7')\<close>, and a follow-up check is set to run after
  1000 ms if \<^verbatim>\<open>pending\<close> is positive, and the lock is released otherwise.
\<close>

lemma mailbox_cycle_index:
  assumes a: "awaiting (BinaryReady st (MailboxSent buf (Caller c)) ob) READY_re ALL_re s"
    and f: "failCount st = None" and u: "follow_ups s = []"
  shows "\<exists>s'. handler_run on_data_index
            [Part (''READY'' @ [CR]), Part (''OK'' @ [CR]), Part (''+CIEV:0,1'' @ [CR]),
             Part (''OK'' @ [CR]), Part (''+SBDIX: 0, 7, 0, 0, 0, 0'' @ [CR]),
             Part (''OK'' @ [CR]), Part (''OK'' @ [CR])] s = Inr s'
    \<and> pending s' = pending s
    \<and> caller_calls s' = caller_calls s @ [(Caller c, JFalse, JString ''7'')]
    \<and> (if positive (pending s)
        then lock s' = lock s \<and> (\<exists>h. follow_ups s' = [(h, 1000, FollowUpCheck)])
        else lock s' = 0 \<and> follow_ups s' = [])"
proof -
  define cb where "cb = MailboxSent buf (Caller c)"
  note a' = a [folded cb_def]
  from cycle_BinaryReady [OF a' u] obtain s1 where s1:
    "on_data_index (Part (''READY'' @ [CR])) s = Inr s1"
    "awaiting (BinaryWritten st cb) OK_re ALL_re s1"
    "lock s1 = lock s" "pending s1 = pending s" "follow_ups s1 = []"
    "caller_calls s1 = caller_calls s" by blast
  from cycle_BinaryWritten [OF s1(2,5)] obtain s2 where s2:
    "on_data_index (Part (''OK'' @ [CR])) s1 = Inr s2"
    "awaiting (NetworkUp st cb) CIEV_re ALL_re s2"
    "lock s2 = lock s1" "pending s2 = pending s1" "follow_ups s2 = []"
    "caller_calls s2 = caller_calls s1" by blast
  from cycle_NetworkUp [OF s2(2,5)] obtain s3 where s3:
    "on_data_index (Part (''+CIEV:0,1'' @ [CR])) s2 = Inr s3"
    "awaiting (MonitoringOff st cb) OK_re ALL_re s3"
    "lock s3 = lock s2" "pending s3 = pending s2" "follow_ups s3 = []"
    "caller_calls s3 = caller_calls s2" by blast
  from cycle_MonitoringOff [OF s3(2,5) f] obtain s4 where s4:
    "on_data_index (Part (''OK'' @ [CR])) s3 = Inr s4"
    "awaiting (SessionStatus (st\<lparr>failCount := Some 0\<rparr>) cb) OK_re SBDIX_re s4"
    "lock s4 = lock s3" "pending s4 = pending s3" "follow_ups s4 = []"
    "caller_calls s4 = caller_calls s3" by blast
  from cycle_SessionStatus_0 [OF s4(2,5)] obtain s5 where s5:
    "handler_run on_data_index
       [Part (''+SBDIX: 0, 7, 0, 0, 0, 0'' @ [CR]), Part (''OK'' @ [CR])] s4 = Inr s5"
    "awaiting (Finish cb (JString ''7'')) OK_re ALL_re s5"
    "lock s5 = lock s4" "pending s5 = pending s4" "follow_ups s5 = []"
    "caller_calls s5 = caller_calls s4" by blast
  from cycle_completes [OF s5(2) [unfolded cb_def] s5(5)] obtain s6 where s6:
    "on_data_index (Part (''OK'' @ [CR])) s5 = Inr s6"
    "pending s6 = pending s5"
    "caller_calls s6 = caller_calls s5 @ [(Caller c, JFalse, JString ''7'')]"
    "if positive (pending s5)
     then lock s6 = lock s5 \<and> (\<exists>h. follow_ups s6 = [(h, 1000, FollowUpCheck)])
     else lock s6 = 0 \<and> follow_ups s6 = []" by blast
  have p: "pending s5 = pending s" "lock s5 = lock s" "caller_calls s5 = caller_calls s"
    by (simp_all add: s5 s4 s3 s2 s1)
  have fr: "[Part (''READY'' @ [CR]), Part (''OK'' @ [CR]), Part (''+CIEV:0,1'' @ [CR]),
             Part (''OK'' @ [CR]), Part (''+SBDIX: 0, 7, 0, 0, 0, 0'' @ [CR]),
             Part (''OK'' @ [CR]), Part (''OK'' @ [CR])] =
      [Part (''READY'' @ [CR]), Part (''OK'' @ [CR]), Part (''+CIEV:0,1'' @ [CR]),
       Part (''OK'' @ [CR])]
      @ [Part (''+SBDIX: 0, 7, 0, 0, 0, 0'' @ [CR]), Part (''OK'' @ [CR])]
      @ [Part (''OK'' @ [CR])]" by simp
  have r1: "handler_run on_data_index
      [Part (''READY'' @ [CR]), Part (''OK'' @ [CR]), Part (''+CIEV:0,1'' @ [CR]),
       Part (''OK'' @ [CR])] s = Inr s4"
    unfolding handler_run_next [of on_data_index _ s s1, OF s1(1)]
      handler_run_next [of on_data_index _ s1 s2, OF s2(1)]
      handler_run_next [of on_data_index _ s2 s3, OF s3(1)]
      handler_run_single by (rule s4(1))
  have r: "handler_run on_data_index
            [Part (''READY'' @ [CR]), Part (''OK'' @ [CR]), Part (''+CIEV:0,1'' @ [CR]),
             Part (''OK'' @ [CR]), Part (''+SBDIX: 0, 7, 0, 0, 0, 0'' @ [CR]),
             Part (''OK'' @ [CR]), Part (''OK'' @ [CR])] s = Inr s6"
    unfolding fr handler_run_then [of on_data_index _ s s4, OF r1]
      handler_run_then [of on_data_index _ s4 s5, OF s5(1)] handler_run_single by (rule s6(1))
  show ?thesis
    unfolding r using s6(2,3,4) by (simp add: p)
qed

lemma sendBinaryMessage_pending:
  assumes "payload_length (message st) \<noteq> 0" and "buffer s = []"
  shows "awaiting (BinaryReady ((set_maxWait w st)\<lparr>binaryMessage := True\<rparr>) cb
            (sendBinaryMessage_ob (payload_bytes (message st))))
            READY_re ALL_re (sendBinaryMessage st cb w s)"
  using assms by (simp add: sendBinaryMessage_def Let_def awaiting_def)

text \<open>
  The cycle of \<^verbatim>\<open>sendCompressedMessage('hello', callback)\<close> on a new driver, with two
  calls of \<^verbatim>\<open>mailboxCheck\<close> while it is in flight, in \<^verbatim>\<open>index.js\<close>.
\<close>

lemma mailbox_cycle_index_example:
  "\<exists>s1. sendCompressedMessage ''hello'' (Caller 0) Null [0xCB, 0x48, 0xCD, 0xC9, 0xC9, 0x07, 0x00]
          createIridium = Inr s1
     \<and> pending (mailboxCheck_index (mailboxCheck_index s1)) = Num 2
     \<and> serial (mailboxCheck_index (mailboxCheck_index s1)) = serial s1
     \<and> (\<exists>s' h. handler_run on_data_index
            [Part (''READY'' @ [CR]), Part (''OK'' @ [CR]), Part (''+CIEV:0,1'' @ [CR]),
             Part (''OK'' @ [CR]), Part (''+SBDIX: 0, 7, 0, 0, 0, 0'' @ [CR]),
             Part (''OK'' @ [CR]), Part (''OK'' @ [CR])]
            (mailboxCheck_index (mailboxCheck_index s1)) = Inr s'
          \<and> follow_ups s' = [(h, 1000, FollowUpCheck)]
          \<and> caller_calls s' = [(Caller 0, JFalse, JString ''7'')])"
proof -
  define b :: "byte list" where "b = [0xCB, 0x48, 0xCD, 0xC9, 0xC9, 0x07, 0x00]"
  define s0 where "s0 = createIridium\<lparr>c_attempt := Some 1, lock := 1\<rparr>"
  define st where "st = (set_maxWait None (new_state (Binary b)))\<lparr>binaryMessage := True\<rparr>"
  define s1 where "s1 = sendBinaryMessage (new_state (Binary b)) (MailboxSent (Binary b) (Caller 0))
      None s0"
  define s2 where "s2 = s1\<lparr>pending := Num 2\<rparr>"
  have 1: "sendCompressedMessage ''hello'' (Caller 0) Null b createIridium = Inr s1"
    unfolding s1_def s0_def by (rule sendCompressedMessage_new)
  have z: "follow_ups s0 = []" "caller_calls s0 = []" "pending s0 = Num 0" "lock s0 = 1"
    "buffer s0 = []"
    by (simp_all add: s0_def follow_ups_def caller_calls_def createIridium_def)
  have f: "lock s1 = 1" "pending s1 = Num 0" "follow_ups s1 = []" "caller_calls s1 = []"
    by (simp_all add: s1_def z)
  have n: "payload_length (message (new_state (Binary b))) \<noteq> 0"
    by (simp add: new_state_def b_def)
  have a: "awaiting (BinaryReady st (MailboxSent (Binary b) (Caller 0))
      (sendBinaryMessage_ob (payload_bytes (message (new_state (Binary b)))))) READY_re ALL_re s1"
    unfolding s1_def st_def by (rule sendBinaryMessage_pending [OF n z(5)])
  have c: "mailboxCheck_index (mailboxCheck_index s1) = s2"
    by (simp add: mailboxCheck_index_def f s2_def)
  have g: "pending s2 = Num 2" "serial s2 = serial s1" "follow_ups s2 = []" "caller_calls s2 = []"
    "awaiting (BinaryReady st (MailboxSent (Binary b) (Caller 0))
      (sendBinaryMessage_ob (payload_bytes (message (new_state (Binary b)))))) READY_re ALL_re s2"
    by (simp_all add: s2_def f a)
  have fc: "failCount st = None" by (simp add: st_def set_maxWait_def new_state_def)
  from mailbox_cycle_index [OF g(5) fc g(3)] obtain s' h where
    "handler_run on_data_index
            [Part (''READY'' @ [CR]), Part (''OK'' @ [CR]), Part (''+CIEV:0,1'' @ [CR]),
             Part (''OK'' @ [CR]), Part (''+SBDIX: 0, 7, 0, 0, 0, 0'' @ [CR]),
             Part (''OK'' @ [CR]), Part (''OK'' @ [CR])] s2 = Inr s'"
    "follow_ups s' = [(h, 1000, FollowUpCheck)]"
    "caller_calls s' = [(Caller 0, JFalse, JString ''7'')]"
    unfolding g(1,4) by auto
  then have 2: "\<exists>s' h. handler_run on_data_index
            [Part (''READY'' @ [CR]), Part (''OK'' @ [CR]), Part (''+CIEV:0,1'' @ [CR]),
             Part (''OK'' @ [CR]), Part (''+SBDIX: 0, 7, 0, 0, 0, 0'' @ [CR]),
             Part (''OK'' @ [CR]), Part (''OK'' @ [CR])] s2 = Inr s'
          \<and> follow_ups s' = [(h, 1000, FollowUpCheck)]
          \<and> caller_calls s' = [(Caller 0, JFalse, JString ''7'')]" by blast
  have "sendCompressedMessage ''hello'' (Caller 0) Null b createIridium = Inr s1
     \<and> pending s2 = Num 2
     \<and> serial s2 = serial s1
     \<and> (\<exists>s' h. handler_run on_data_index
            [Part (''READY'' @ [CR]), Part (''OK'' @ [CR]), Part (''+CIEV:0,1'' @ [CR]),
             Part (''OK'' @ [CR]), Part (''+SBDIX: 0, 7, 0, 0, 0, 0'' @ [CR]),
             Part (''OK'' @ [CR]), Part (''OK'' @ [CR])] s2 = Inr s'
          \<and> follow_ups s' = [(h, 1000, FollowUpCheck)]
          \<and> caller_calls s' = [(Caller 0, JFalse, JString ''7'')])"
    by (intro conjI) (rule 1 g(1) g(2) 2)+
  note r = this [folded c, unfolded b_def]
  show ?thesis
    by (rule exI [of _ s1]) (rule r)
qed


end
